(* ===== verification/Rcc_Prelude.thy ===== *)
theory Rcc_Prelude
  imports Complex_Main "HOL-Library.AList" "HOL-Library.Sublist" "HOL-Library.Monad_Syntax"
begin

text \<open>
  The vocabulary that every component shares. Operations of the program that can leave
  the language's defined behaviour (an index outside a vector, a cast of a floating-point
  value that has no integer counterpart, an exception no caller catches) return an option:
  None is that escape, never an ordinary error of the program, which is a value of the
  component's own result type. The option monad's do-notation sequences such operations.
  The theory also holds the lemma collections of the development and the facts on lists and
  association lists that several components use.
\<close>

type_synonym ('s, 'e, 'r) operation = "'s \<Rightarrow> 'e \<Rightarrow> ('r \<times> 's \<times> 'e) option"

named_theorems wire "facts on the characters of decimal numerals"
named_theorems journal "what an operation appends to the audit log and to the event stream"

section \<open>Prefixes of a list that satisfy a predicate\<close>

lemma takeWhile_digits:
  "list_all p ds \<Longrightarrow> (case r of [] \<Rightarrow> True | c # _ \<Rightarrow> \<not> p c) \<Longrightarrow>
   takeWhile p (ds @ r) = ds \<and> dropWhile p (ds @ r) = r"
  by (induction ds) (auto split: list.splits)

lemma while_list_all:
  "list_all p ds \<Longrightarrow> takeWhile p ds = ds" "list_all p ds \<Longrightarrow> dropWhile p ds = []"
  by (simp_all add: list_all_iff)

lemma distinct_remdups_adj_sorted: "sorted xs \<Longrightarrow> distinct (remdups_adj xs)"
proof (induction xs rule: remdups_adj.induct)
  case (3 x y xs)
  then show ?case by (cases "x = y") (auto simp: not_le dest: order_antisym)
qed simp_all

section \<open>Indexing a vector\<close>

text \<open>std::vector's operator[] with a signed index converted to size_t: inside the vector the
  element, outside it undefined behaviour.\<close>

definition vector_at :: "'b list \<Rightarrow> int \<Rightarrow> 'b option" where
  "vector_at xs i = (if 0 \<le> i \<and> i < int (length xs) then Some (xs ! nat i) else None)"

lemma vector_at_nth: "1 \<le> c \<Longrightarrow> c \<le> int (length xs) \<Longrightarrow> vector_at xs (c - 1) = Some (xs ! nat (c - 1))"
  by (simp add: vector_at_def)

section \<open>Association lists\<close>

text \<open>std::unordered_map::emplace: an existing key keeps its value.\<close>

definition emplace :: "'k \<Rightarrow> 'v \<Rightarrow> ('k \<times> 'v) list \<Rightarrow> ('k \<times> 'v) list" where
  "emplace k v xs = (if map_of xs k = None then xs @ [(k, v)] else xs)"

lemma map_of_emplace: "map_of (emplace k v xs) j = (if map_of xs j = None \<and> j = k then Some v else map_of xs j)"
  by (auto simp: emplace_def map_add_def split: option.split)

lemma distinct_emplace: "distinct (map fst xs) \<Longrightarrow> distinct (map fst (emplace k v xs))"
  by (auto simp: emplace_def map_of_eq_None_iff)

lemma set_emplace: "set (emplace k v xs) \<subseteq> insert (k, v) (set xs)"
  by (auto simp: emplace_def)

lemma keys_emplace: "fst ` set (emplace k v xs) = insert k (fst ` set xs)"
proof (cases "k \<in> fst ` set xs")
  case True
  then have "map_of xs k \<noteq> None" by (simp only: map_of_eq_None_iff not_not)
  with True show ?thesis by (auto simp: emplace_def)
next
  case False
  then have "map_of xs k = None" by (simp only: map_of_eq_None_iff simp_thms)
  then show ?thesis by (simp add: emplace_def)
qed

lemma map_fst_map_entry [simp]: "map fst (AList.map_entry k f xs) = map fst xs"
  by (induction xs) auto

lemma list_all_map_entry:
  "list_all P xs \<Longrightarrow> (\<And>v. P (k, v) \<Longrightarrow> P (k, f v)) \<Longrightarrow> list_all P (AList.map_entry k f xs)"
  by (induction xs) auto

section \<open>Interfaces between components\<close>

text \<open>A store of shared objects under keys: what the orchestrator and the clients' view rely on when an
  object that was looked up is written back.\<close>

locale keyed_store =
  fixes get :: "'m \<Rightarrow> 'k \<Rightarrow> 'v option" and put :: "'k \<Rightarrow> 'v \<Rightarrow> 'm \<Rightarrow> 'm"
  assumes get_put: "get m k = Some w \<Longrightarrow> get (put k v m) k = Some v"
    and get_put_other: "j \<noteq> k \<Longrightarrow> get (put k v m) j = get m j"
begin

lemma view_put:
  assumes "get m k = Some w"
  shows "(\<lambda>j. map_option f (get (put k v m) j)) = (\<lambda>j. map_option f (get m j))(k \<mapsto> f v)"
proof
  fix j
  show "map_option f (get (put k v m) j) = ((\<lambda>j. map_option f (get m j))(k \<mapsto> f v)) j"
    using get_put [OF assms, of v] get_put_other [of j k v m] by (cases "j = k") auto
qed

lemma view_put_same:
  assumes "get m k = Some w" "f v = f w"
  shows "map_option f (get (put k v m) j) = map_option f (get m j)"
  using fun_cong [OF view_put [OF assms(1), of f v], of j] assms by auto

end

text \<open>A log that only grows: the entry of what is written comes after what was there.\<close>

locale append_log =
  fixes record_in :: "'x \<Rightarrow> 's \<Rightarrow> 's" and entry_of :: "'x \<Rightarrow> 'y" and entries :: "'s \<Rightarrow> 'y list"
  assumes entries_write: "entries (record_in x s) = entries s @ [entry_of x]"
begin

lemma entries_fold: "entries (fold record_in xs s) = entries s @ map entry_of xs"
  by (induction xs arbitrary: s) (simp_all add: entries_write)

lemma count_write:
  "length (filter P (entries (record_in x s))) = length (filter P (entries s)) + (if P (entry_of x) then 1 else 0)"
  by (simp add: entries_write)

end

end
