(* ===== verification/Double.thy ===== *)
theory Double
  imports Complex_Main
begin

text \<open>
  C++ double as IEEE 754 binary64 under round-to-nearest-even. A finite value is the real it
  stands for, so the two signed zeros are one value; the program never distinguishes them.
  rnd64 rounds a real to the nearest representable value (53-bit significand, subnormals down
  to 2^-1074, overflow to an infinity); + - * / are the real operations rounded by it, with the
  IEEE rules for infinities and NaN. flt, fle and feq are the C++ comparisons, false whenever a
  NaN takes part; the linorder instance, which puts NaN on top, is for the library's sort and
  for proofs. std::pow(10, x) and std::log10 are taken to be correctly rounded. to_int32 is the
  conversion to int: None outside the range of int, where C++ leaves the behaviour undefined.
\<close>

datatype double = NInf | Fin real | PInf | NaN

instantiation double :: linorder
begin

fun less_eq_double :: "double \<Rightarrow> double \<Rightarrow> bool" where
  "less_eq_double NInf y \<longleftrightarrow> True"
| "less_eq_double (Fin a) NInf \<longleftrightarrow> False"
| "less_eq_double (Fin a) (Fin b) \<longleftrightarrow> a \<le> b"
| "less_eq_double (Fin a) y \<longleftrightarrow> True"
| "less_eq_double PInf y \<longleftrightarrow> y = PInf \<or> y = NaN"
| "less_eq_double NaN y \<longleftrightarrow> y = NaN"

definition less_double :: "double \<Rightarrow> double \<Rightarrow> bool" where
  "less_double x y \<longleftrightarrow> x \<le> y \<and> \<not> y \<le> x"

instance
proof
  fix x y z :: double
  show "x < y \<longleftrightarrow> x \<le> y \<and> \<not> y \<le> x" by (rule less_double_def)
  show "x \<le> x" by (cases x) simp_all
  show "x \<le> y \<Longrightarrow> y \<le> z \<Longrightarrow> x \<le> z"
    by (cases x; cases y; cases z) simp_all
  show "x \<le> y \<Longrightarrow> y \<le> x \<Longrightarrow> x = y" by (cases x; cases y) simp_all
  show "x \<le> y \<or> y \<le> x" by (cases x; cases y) (simp_all add: linear)
qed

end

lemma less_double_simps [simp]:
  "Fin a < Fin b \<longleftrightarrow> a < b" "NInf < Fin a" "Fin a < PInf" "NInf < PInf"
  "Fin a < NaN" "\<not> x < NInf" "\<not> PInf < Fin a" "\<not> NaN < x"
  by (auto simp: less_double_def)

lemma le_PInf_iff [simp]: "x \<le> PInf \<longleftrightarrow> x \<noteq> NaN"
  by (cases x) auto

definition rne :: "real \<Rightarrow> int" where
  "rne x = (let n = \<lfloor>x\<rfloor>; d = x - of_int n in
     if d < 1/2 then n else if d > 1/2 then n + 1 else if even n then n else n + 1)"

lemma rne_of_int [simp]: "rne (of_int n) = n"
  by (simp add: rne_def)

lemma rne_error: "\<bar>of_int (rne x) - x\<bar> \<le> 1/2"
proof -
  have "of_int \<lfloor>x\<rfloor> \<le> x" "x < of_int \<lfloor>x\<rfloor> + 1" by linarith+
  then show ?thesis by (auto simp: rne_def Let_def)
qed

lemma rne_mono: assumes "x \<le> y" shows "rne x \<le> rne y"
proof (cases "\<lfloor>x\<rfloor> = \<lfloor>y\<rfloor>")
  case True
  with assms show ?thesis by (auto simp: rne_def Let_def)
next
  case False
  with assms have "\<lfloor>x\<rfloor> + 1 \<le> \<lfloor>y\<rfloor>" using floor_mono [OF assms] by linarith
  moreover have "rne x \<le> \<lfloor>x\<rfloor> + 1" "\<lfloor>y\<rfloor> \<le> rne y" by (simp_all add: rne_def Let_def)
  ultimately show ?thesis by linarith
qed

lemma rne_minus: "rne (- x) = - rne x"
proof (cases "x = of_int \<lfloor>x\<rfloor>")
  case True
  then obtain n where "x = of_int n" by blast
  then show ?thesis by (metis of_int_minus rne_of_int)
next
  case False
  then have fl: "\<lfloor>- x\<rfloor> = - \<lfloor>x\<rfloor> - 1"
    by (simp add: floor_minus ceiling_altdef) 
  have dd: "- x - of_int (- \<lfloor>x\<rfloor> - 1) = 1 - (x - of_int \<lfloor>x\<rfloor>)" by simp
  show ?thesis unfolding rne_def Let_def fl dd by auto
qed

definition uexp :: "real \<Rightarrow> int" where
  "uexp x = max (\<lfloor>log 2 \<bar>x\<bar>\<rfloor> - 52) (-1074)"

definition rnd :: "real \<Rightarrow> real" where
  "rnd x = of_int (rne (x / 2 powr of_int (uexp x))) * 2 powr of_int (uexp x)"

lemma rnd_0 [simp]: "rnd 0 = 0"
  using rne_of_int [of 0] by (simp add: rnd_def)

lemma rnd_minus: "rnd (- x) = - rnd x"
  by (simp add: rnd_def uexp_def rne_minus)

lemma powr2_int_diff: "a \<le> b \<Longrightarrow> (2::real) powr of_int (b - a) = of_int (2 ^ nat (b - a))"
  by (subst powr_real_of_int) auto

lemma rnd_multiple:
  assumes "x = of_int n * 2 powr of_int k" "uexp x \<le> k"
  shows "rnd x = x"
proof -
  have "x / 2 powr of_int (uexp x) = of_int n * 2 powr of_int (k - uexp x)"
    using assms(1) by (simp add: powr_diff)
  also have "2 powr of_int (k - uexp x) = (of_int (2 ^ nat (k - uexp x)) :: real)"
    using assms(2) by (rule powr2_int_diff)
  finally have "x / 2 powr of_int (uexp x) = of_int (n * 2 ^ nat (k - uexp x))" by simp
  then have "of_int (rne (x / 2 powr of_int (uexp x))) = x / 2 powr of_int (uexp x)"
    by (metis rne_of_int)
  then show ?thesis by (simp add: rnd_def)
qed

lemma floor_log2_iff:
  "x \<noteq> 0 \<Longrightarrow> \<lfloor>log 2 \<bar>x\<bar>\<rfloor> = k \<longleftrightarrow> 2 powr of_int k \<le> \<bar>x\<bar> \<and> \<bar>x\<bar> < 2 powr of_int (k + 1)"
  by (subst floor_log_eq_powr_iff) auto

lemma rnd_exact:
  assumes "x = of_int m * 2 powr of_int k" "\<bar>m\<bar> \<le> 2 ^ 53" "-1074 \<le> k"
  shows "rnd x = x"
proof (cases "\<bar>m\<bar> = 2 ^ 53")
  case False
  show ?thesis
  proof (cases "m = 0")
    case False
    with assms(1) have x: "x \<noteq> 0" by simp
    have "\<bar>x\<bar> < 2 powr of_int (53 + k)"
    proof -
      have "\<bar>m\<bar> < 2 ^ 53" using assms(2) \<open>\<bar>m\<bar> \<noteq> 2 ^ 53\<close> by simp
      then have "real_of_int \<bar>m\<bar> < of_int (2 ^ 53)" by (simp only: of_int_less_iff)
      then have "real_of_int \<bar>m\<bar> < 2 powr 53" by (simp add: powr_numeral)
      then show ?thesis using assms(1) by (simp add: powr_add abs_mult)
    qed
    then have "log 2 \<bar>x\<bar> < of_int (53 + k)"
      using x by (subst log_less_iff) auto
    then have "\<lfloor>log 2 \<bar>x\<bar>\<rfloor> \<le> 52 + k" by linarith
    then have "uexp x \<le> k" using assms(3) by (simp add: uexp_def)
    then show ?thesis using assms(1) by (rule rnd_multiple [rotated])
  qed (simp add: assms(1))
next
  case True
  then obtain s where s: "m = s * 2 ^ 53" "\<bar>s\<bar> = 1"
    by (metis abs_mult abs_numeral abs_one lambda_one mult_minus1 power_abs abs_eq_iff' mult_minus_left one_neq_neg_one abs_if)
  have x: "x = of_int s * 2 powr of_int (53 + k)"
    using s(1) assms(1) by (simp add: powr_add powr_numeral)
  have "\<bar>x\<bar> = 2 powr of_int (53 + k)" using s(2) x by (simp add: abs_mult flip: of_int_abs)
  then have "log 2 \<bar>x\<bar> = of_int (53 + k)" by (simp add: log_powr_cancel)
  then have "uexp x \<le> 53 + k" using assms(3) by (simp add: uexp_def)
  then show ?thesis using x by (rule rnd_multiple [rotated])
qed


lemma rnd_exact_int: "\<bar>m\<bar> \<le> 2 ^ 53 \<Longrightarrow> rnd (of_int m) = of_int m"
  by (rule rnd_exact [where m = m and k = 0]) simp_all

lemma rnd_error_ulp: "\<bar>rnd x - x\<bar> \<le> 2 powr of_int (uexp x) / 2"
proof -
  define u where "u = (2::real) powr of_int (uexp x)"
  have u: "u > 0" by (simp add: u_def)
  have "\<bar>rnd x - x\<bar> = \<bar>of_int (rne (x / u)) - x / u\<bar> * u"
  proof -
    have "rnd x - x = (of_int (rne (x / u)) - x / u) * u"
      using u by (simp add: rnd_def left_diff_distrib flip: u_def)
    then show ?thesis using u by (simp add: abs_mult)
  qed
  also have "\<dots> \<le> 1/2 * u"
    using rne_error u by (intro mult_right_mono) auto
  finally show ?thesis by (simp add: u_def)
qed

lemma rnd_error:
  assumes "2 powr (-1022) \<le> \<bar>x\<bar>"
  shows "\<bar>rnd x - x\<bar> \<le> \<bar>x\<bar> * 2 powr (-53)"
proof -
  have x0: "x \<noteq> 0" using assms by auto
  define k where "k = \<lfloor>log 2 \<bar>x\<bar>\<rfloor>"
  have k: "2 powr of_int k \<le> \<bar>x\<bar>" using floor_log2_iff [OF x0, of k] by (simp add: k_def)
  have "-1022 \<le> log 2 \<bar>x\<bar>" using assms x0 by (subst le_log_iff) auto
  then have "-1022 \<le> k" unfolding k_def by linarith
  then have "uexp x = k - 52" by (simp add: uexp_def flip: k_def)
  then have "\<bar>rnd x - x\<bar> \<le> 2 powr of_int (k - 52) / 2" using rnd_error_ulp [of x] by simp
  also have "\<dots> = 2 powr of_int k * 2 powr (-53)"
    by (simp add: powr_diff powr_minus powr_numeral field_simps)
  also have "\<dots> \<le> \<bar>x\<bar> * 2 powr (-53)" using k by (intro mult_right_mono) auto
  finally show ?thesis .
qed

lemma uexp_mono: "0 < x \<Longrightarrow> x \<le> y \<Longrightarrow> uexp x \<le> uexp y"
  unfolding uexp_def by (intro max.mono diff_right_mono floor_mono) auto

lemma rnd_same_exp_mono: "x \<le> y \<Longrightarrow> uexp x = uexp y \<Longrightarrow> rnd x \<le> rnd y"
  by (auto simp: rnd_def intro!: mult_right_mono rne_mono divide_right_mono)

lemma rnd_pos_mono:
  assumes "0 < x" "x \<le> y"
  shows "rnd x \<le> rnd y"
proof (cases "uexp x = uexp y")
  case False
  define k where "k = \<lfloor>log 2 \<bar>y\<bar>\<rfloor>"
  have y: "0 < y" using assms by simp
  have lt: "uexp x < uexp y" using uexp_mono [OF assms] False by simp
  then have uy: "uexp y = k - 52" "\<lfloor>log 2 \<bar>x\<bar>\<rfloor> < k" "-1074 \<le> k - 52"
    by (auto simp: uexp_def k_def max_def split: if_splits)
  define p where "p = (2::real) powr of_int k"
  have p: "rnd p = p"
    by (rule rnd_exact [where m = 1 and k = k]) (use uy in \<open>auto simp: p_def\<close>)
  have lp: "log 2 \<bar>p\<bar> = of_int k" by (simp add: p_def)
  have py: "p \<le> y" using floor_log2_iff [of y k] y by (simp add: k_def p_def)
  have "log 2 \<bar>x\<bar> < of_int k" using uy(2) by linarith
  then have xp: "x < p" using assms(1) by (subst (asm) log_less_iff) (auto simp: p_def)
  have "uexp p = uexp y" using lp uy by (simp add: uexp_def)
  then have "p \<le> rnd y" using rnd_same_exp_mono [OF py] p by simp
  moreover have "rnd x \<le> p"
  proof -
    have "p / 2 powr of_int (uexp x) = of_int (2 ^ nat (k - uexp x))"
      using powr2_int_diff [of "uexp x" k] lt uy by (simp add: p_def powr_diff)
    then have "rne (p / 2 powr of_int (uexp x)) = 2 ^ nat (k - uexp x)" by (metis rne_of_int)
    moreover have "rne (x / 2 powr of_int (uexp x)) \<le> rne (p / 2 powr of_int (uexp x))"
      using xp by (intro rne_mono divide_right_mono) auto
    ultimately have "rnd x \<le> of_int (2 ^ nat (k - uexp x)) * 2 powr of_int (uexp x)"
      unfolding rnd_def by (intro mult_right_mono) (auto simp flip: of_int_le_iff)
    also have "\<dots> = p"
      using \<open>p / 2 powr of_int (uexp x) = of_int (2 ^ nat (k - uexp x))\<close> by (simp add: field_simps)
    finally show ?thesis .
  qed
  ultimately show ?thesis by simp
qed (use assms rnd_same_exp_mono in auto)

lemma rnd_nonneg: "0 \<le> x \<Longrightarrow> 0 \<le> rnd x"
  using rne_mono [of 0 "x / 2 powr of_int (uexp x)"] rne_of_int [of 0] by (simp add: rnd_def)

lemma rnd_mono: "x \<le> y \<Longrightarrow> rnd x \<le> rnd y"
proof -
  assume xy: "x \<le> y"
  consider "0 < x" | "x \<le> 0" "0 \<le> y" | "y < 0" by linarith
  then show ?thesis
  proof cases
    case 2
    then have "0 \<le> rnd y" "0 \<le> rnd (- x)" by (simp_all add: rnd_nonneg)
    then show ?thesis by (simp add: rnd_minus)
  next
    case 3
    then have "rnd (- y) \<le> rnd (- x)" using xy by (intro rnd_pos_mono) auto
    then show ?thesis by (simp add: rnd_minus)
  qed (use xy rnd_pos_mono in auto)
qed


lemma rnd_error_total: "\<bar>rnd x - x\<bar> \<le> (\<bar>x\<bar> + 2 powr (-1022)) * 2 powr (-53)"
proof (cases "2 powr (-1022) \<le> \<bar>x\<bar>")
  case True
  from rnd_error [OF this] show ?thesis
    by (rule order_trans) (intro mult_right_mono, auto)
next
  case False
  show ?thesis
  proof (cases "x = 0")
    case False
    then have "log 2 \<bar>x\<bar> < -1022" using \<open>\<not> 2 powr (-1022) \<le> \<bar>x\<bar>\<close>
      by (subst log_less_iff) auto
    then have "\<lfloor>log 2 \<bar>x\<bar>\<rfloor> - 52 \<le> -1074" by linarith
    then have "uexp x = -1074" by (simp add: uexp_def)
    then have "\<bar>rnd x - x\<bar> \<le> 2 powr (-1074) / 2" using rnd_error_ulp [of x] by simp
    also have "\<dots> = 2 powr (-1022) * 2 powr (-53)" by (simp add: powr_minus powr_numeral)
    also have "\<dots> \<le> (\<bar>x\<bar> + 2 powr (-1022)) * 2 powr (-53)" by (intro mult_right_mono) auto
    finally show ?thesis .
  qed simp
qed

definition overflow_threshold :: real where
  "overflow_threshold = 2 powr 1024"

definition rnd64 :: "real \<Rightarrow> double" where
  "rnd64 x = (if overflow_threshold \<le> rnd x then PInf
              else if rnd x \<le> - overflow_threshold then NInf else Fin (rnd x))"

lemma rnd64_mono: "x \<le> y \<Longrightarrow> rnd64 x \<le> rnd64 y"
  using rnd_mono [of x y] by (auto simp: rnd64_def)

lemma rnd64_not_NaN [simp]: "rnd64 x \<noteq> NaN"
  by (simp add: rnd64_def)

lemma rnd64_Fin:
  assumes "\<bar>x\<bar> \<le> 2 powr 1023"
  shows "rnd64 x = Fin (rnd x)"
proof -
  have p: "rnd (2 powr 1023) = 2 powr 1023"
    by (rule rnd_exact [where m = 1 and k = 1023]) auto
  have "x \<le> 2 powr 1023" "- (2 powr 1023) \<le> x" using assms by linarith+
  then have "rnd x \<le> 2 powr 1023" "- (2 powr 1023) \<le> rnd x"
    using rnd_mono [of x "2 powr 1023"] rnd_mono [of "- (2 powr 1023)" x] p
    by (simp_all add: rnd_minus)
  moreover have "(2::real) powr 1023 < overflow_threshold"
    by (simp add: overflow_threshold_def)
  ultimately show ?thesis unfolding rnd64_def by auto
qed

lemma rnd64_small:
  assumes "\<bar>x\<bar> \<le> 2 ^ 60"
  shows "rnd64 x = Fin (rnd x)"
proof (rule rnd64_Fin)
  have "\<bar>x\<bar> \<le> 2 powr 60" using assms by (simp add: powr_numeral)
  also have "\<dots> \<le> 2 powr 1023" by (rule powr_mono) auto
  finally show "\<bar>x\<bar> \<le> 2 powr 1023" .
qed

lemma rnd64_int:
  assumes "\<bar>m\<bar> \<le> 2 ^ 53"
  shows "rnd64 (of_int m) = Fin (of_int m)"
proof -
  have "real_of_int \<bar>m\<bar> \<le> of_int (2 ^ 53)" using assms by (simp only: of_int_le_iff)
  then have "\<bar>real_of_int m\<bar> \<le> 2 ^ 60" by simp
  from rnd64_small [OF this] show ?thesis by (simp add: rnd_exact_int [OF assms])
qed

lemma rnd64_numeral [simp]:
  "rnd64 0 = Fin 0"
  "numeral n \<le> (2::int) ^ 53 \<Longrightarrow> rnd64 (numeral n) = Fin (numeral n)"
  "rnd64 1 = Fin 1"
  using rnd64_int [of 0] rnd64_int [of "numeral n"] rnd64_int [of 1] by auto

section \<open>Comparison and arithmetic\<close>

definition flt :: "double \<Rightarrow> double \<Rightarrow> bool" where
  "flt x y \<longleftrightarrow> x \<noteq> NaN \<and> y \<noteq> NaN \<and> x < y"

definition fle :: "double \<Rightarrow> double \<Rightarrow> bool" where
  "fle x y \<longleftrightarrow> x \<noteq> NaN \<and> y \<noteq> NaN \<and> x \<le> y"

definition feq :: "double \<Rightarrow> double \<Rightarrow> bool" where
  "feq x y \<longleftrightarrow> x \<noteq> NaN \<and> x = y"

lemma flt_simps [simp]:
  "flt (Fin a) (Fin b) \<longleftrightarrow> a < b" "\<not> flt NaN y" "\<not> flt x NaN"
  by (auto simp: flt_def)

lemma fle_simps [simp]:
  "fle (Fin a) (Fin b) \<longleftrightarrow> a \<le> b" "\<not> fle NaN y" "\<not> fle x NaN"
  by (auto simp: fle_def)

lemma not_flt_iff: "x \<noteq> NaN \<Longrightarrow> y \<noteq> NaN \<Longrightarrow> \<not> flt x y \<longleftrightarrow> y \<le> x"
  by (auto simp: flt_def)

instantiation double :: "{plus, uminus, minus, times, inverse, abs}"
begin

fun plus_double :: "double \<Rightarrow> double \<Rightarrow> double" where
  "plus_double (Fin a) (Fin b) = rnd64 (a + b)"
| "plus_double NaN y = NaN"
| "plus_double x NaN = NaN"
| "plus_double PInf NInf = NaN"
| "plus_double NInf PInf = NaN"
| "plus_double PInf y = PInf"
| "plus_double NInf y = NInf"
| "plus_double x PInf = PInf"
| "plus_double x NInf = NInf"

fun uminus_double :: "double \<Rightarrow> double" where
  "uminus_double (Fin a) = Fin (- a)"
| "uminus_double PInf = NInf"
| "uminus_double NInf = PInf"
| "uminus_double NaN = NaN"

definition minus_double :: "double \<Rightarrow> double \<Rightarrow> double" where
  "minus_double x y = x + (- y)"

fun double_sgn :: "double \<Rightarrow> real" where
  "double_sgn (Fin a) = sgn a"
| "double_sgn PInf = 1"
| "double_sgn NInf = -1"
| "double_sgn NaN = 0"

definition signed_inf :: "real \<Rightarrow> double" where
  "signed_inf s = (if 0 < s then PInf else if s < 0 then NInf else NaN)"

fun times_double :: "double \<Rightarrow> double \<Rightarrow> double" where
  "times_double (Fin a) (Fin b) = rnd64 (a * b)"
| "times_double NaN y = NaN"
| "times_double x NaN = NaN"
| "times_double x y = signed_inf (double_sgn x * double_sgn y)"

fun divide_double :: "double \<Rightarrow> double \<Rightarrow> double" where
  "divide_double (Fin a) (Fin b) = (if b = 0 then signed_inf a else rnd64 (a / b))"
| "divide_double NaN y = NaN"
| "divide_double x NaN = NaN"
| "divide_double (Fin a) y = Fin 0"
| "divide_double x (Fin b) = (if b < 0 then - x else x)"
| "divide_double x y = NaN"

definition inverse_double :: "double \<Rightarrow> double" where
  "inverse_double x = divide (Fin 1) x"

fun abs_double :: "double \<Rightarrow> double" where
  "abs_double (Fin a) = Fin \<bar>a\<bar>"
| "abs_double NaN = NaN"
| "abs_double x = PInf"

instance ..

end

lemma minus_double_Fin [simp]: "Fin a - Fin b = rnd64 (a - b)"
  by (simp add: minus_double_def)

definition lit :: "real \<Rightarrow> double" where
  "lit x = rnd64 x"

definition round_away :: "real \<Rightarrow> int" where
  "round_away x = (if 0 \<le> x then \<lfloor>x + 1/2\<rfloor> else \<lceil>x - 1/2\<rceil>)"

fun fround :: "double \<Rightarrow> double" where
  "fround (Fin a) = Fin (of_int (round_away a))"
| "fround x = x"

fun ffloor :: "double \<Rightarrow> double" where
  "ffloor (Fin a) = Fin (of_int \<lfloor>a\<rfloor>)"
| "ffloor x = x"

fun fpow10 :: "double \<Rightarrow> double" where
  "fpow10 (Fin a) = rnd64 (10 powr a)"
| "fpow10 PInf = PInf"
| "fpow10 NInf = Fin 0"
| "fpow10 NaN = NaN"

fun flog10 :: "double \<Rightarrow> double" where
  "flog10 (Fin a) = (if 0 < a then rnd64 (log 10 a) else if a = 0 then NInf else NaN)"
| "flog10 PInf = PInf"
| "flog10 x = NaN"

fun to_int32 :: "double \<Rightarrow> int option" where
  "to_int32 (Fin a) =
     (let n = (if 0 \<le> a then \<lfloor>a\<rfloor> else \<lceil>a\<rceil>)
      in if - (2 ^ 31) \<le> n \<and> n < 2 ^ 31 then Some n else None)"
| "to_int32 x = None"

lemma fdiv_mono:
  "0 < c \<Longrightarrow> x \<noteq> NaN \<Longrightarrow> y \<noteq> NaN \<Longrightarrow> x \<le> y \<Longrightarrow> x / Fin c \<le> y / Fin c"
  by (cases x; cases y) (auto intro!: rnd64_mono divide_right_mono)

lemma fdiv_not_NaN: "0 < c \<Longrightarrow> x \<noteq> NaN \<Longrightarrow> x / Fin c \<noteq> NaN"
  by (cases x) auto

lemma rnd64_powr_nonneg: "Fin 0 \<le> rnd64 (10 powr a)"
  using rnd64_mono [of 0 "10 powr a"] by simp

lemma fpow10_mono: "x \<le> y \<Longrightarrow> y \<noteq> NaN \<Longrightarrow> fpow10 x \<le> fpow10 y"
  by (cases x; cases y) (auto intro!: rnd64_mono rnd64_powr_nonneg)

lemma fpow10_not_NaN: "x \<noteq> NaN \<Longrightarrow> fpow10 x \<noteq> NaN"
  by (cases x) auto

lemma Fin_int_arith:
  "\<bar>a + b\<bar> \<le> 2 ^ 53 \<Longrightarrow> Fin (of_int a) + Fin (of_int b) = Fin (of_int (a + b))"
  "\<bar>a - b\<bar> \<le> 2 ^ 53 \<Longrightarrow> Fin (of_int a) - Fin (of_int b) = Fin (of_int (a - b))"
  "\<bar>a * b\<bar> \<le> 2 ^ 53 \<Longrightarrow> Fin (of_int a) * Fin (of_int b) = Fin (of_int (a * b))"
  using rnd64_int [of "a + b"] rnd64_int [of "a - b"] rnd64_int [of "a * b"] by simp_all

lemma to_int32_of_int: "- (2 ^ 31) \<le> n \<Longrightarrow> n < 2 ^ 31 \<Longrightarrow> to_int32 (Fin (of_int n)) = Some n"
  by simp

lemma round_away_close:
  assumes "\<bar>x - of_int n\<bar> < 1/2"
  shows "round_away x = n"
proof -
  from assms have "x - of_int n < 1/2" "of_int n - x < 1/2" by linarith+
  then have "\<lfloor>x + 1/2\<rfloor> = n" "\<lceil>x - 1/2\<rceil> = n" by linarith+
  then show ?thesis by (simp add: round_away_def)
qed

end
