(* ===== verification/Cpp_Strings.thy ===== *)
theory Cpp_Strings
  imports Rcc_Prelude Double
begin

text \<open>
  What the source uses of the C++ library on text: the character classes and case conversions of
  the "C" locale, find, decimal output of integers, std::stod, std::stoi and std::stoull (None
  stands for either exception, which every caller catches together), and the output of a double
  with std::fixed and precision 6. Strings are lists of 8-bit characters. The lemmas show that
  the numerals the program writes are the numerals its readers accept.
\<close>

section \<open>Characters\<close>

definition char_code :: "char \<Rightarrow> nat" where
  "char_code c = of_char c"

definition isspace :: "char \<Rightarrow> bool" where
  "isspace c \<longleftrightarrow> char_code c = 32 \<or> (9 \<le> char_code c \<and> char_code c \<le> 13)"

definition tolower :: "char \<Rightarrow> char" where
  "tolower c = (if 65 \<le> char_code c \<and> char_code c \<le> 90 then char_of (char_code c + 32) else c)"

definition toupper :: "char \<Rightarrow> char" where
  "toupper c = (if 97 \<le> char_code c \<and> char_code c \<le> 122 then char_of (char_code c - 32) else c)"

definition isdigit :: "char \<Rightarrow> bool" where
  "isdigit c \<longleftrightarrow> 48 \<le> char_code c \<and> char_code c \<le> 57"

definition isxdigit :: "char \<Rightarrow> bool" where
  "isxdigit c \<longleftrightarrow> isdigit c \<or> (97 \<le> char_code (tolower c) \<and> char_code (tolower c) \<le> 102)"

definition digit_val :: "char \<Rightarrow> nat" where
  "digit_val c = (if isdigit c then char_code c - 48 else char_code (tolower c) - 87)"

definition digit_char :: "nat \<Rightarrow> char" where
  "digit_char n = char_of (n + 48)"

lemma digit_char_props:
  assumes "n < 10"
  shows "isdigit (digit_char n)" "digit_val (digit_char n) = n" "\<not> isspace (digit_char n)"
    "digit_char n \<noteq> CHR ''-''" "digit_char n \<noteq> CHR ''+''" "digit_char n \<noteq> CHR ''.''"
    "digit_char n \<noteq> CHR '':''" "digit_char n = CHR ''0'' \<longleftrightarrow> n = 0"
proof -
  have "n \<in> {0, 1, 2, 3, 4, 5, 6, 7, 8, 9}" using assms by auto
  then show "isdigit (digit_char n)" "digit_val (digit_char n) = n" "\<not> isspace (digit_char n)"
    "digit_char n \<noteq> CHR ''-''" "digit_char n \<noteq> CHR ''+''" "digit_char n \<noteq> CHR ''.''"
    "digit_char n \<noteq> CHR '':''" "digit_char n = CHR ''0'' \<longleftrightarrow> n = 0"
    by (auto simp: digit_char_def isdigit_def digit_val_def char_code_def isspace_def
        char_of_eq_iff take_bit_eq_mod)
qed

section \<open>Searching\<close>

definition str_find :: "char \<Rightarrow> string \<Rightarrow> nat option" where
  "str_find c s = (if c \<in> set s then Some (length (takeWhile (\<lambda>x. x \<noteq> c) s)) else None)"

fun str_contains :: "string \<Rightarrow> string \<Rightarrow> bool" where
  "str_contains pat s \<longleftrightarrow> prefix pat s \<or> (case s of [] \<Rightarrow> False | _ # t \<Rightarrow> str_contains pat t)"

declare str_contains.simps [simp del]

lemma str_contains_iff: "str_contains pat s \<longleftrightarrow> (\<exists>a b. s = a @ pat @ b)"
proof (induction s)
  case Nil
  then show ?case by (subst str_contains.simps) simp
next
  case (Cons c t)
  show ?case
    by (subst str_contains.simps, simp add: Cons.IH prefix_def)
      (metis append_Cons append_Nil list.exhaust list.inject)
qed

lemma str_contains_append: "str_contains p s \<Longrightarrow> str_contains p (a @ s @ b)"
  unfolding str_contains_iff by (metis append.assoc)

lemma str_find_append:
  "c \<notin> set a \<Longrightarrow> str_find c (a @ c # b) = Some (length a)"
  by (simp add: str_find_def takeWhile_append)

lemma str_find_None [simp]: "str_find c s = None \<longleftrightarrow> c \<notin> set s"
  by (simp add: str_find_def)

section \<open>Decimal numerals\<close>

fun show_nat :: "nat \<Rightarrow> string" where
  "show_nat n = (if n < 10 then [digit_char n] else show_nat (n div 10) @ [digit_char (n mod 10)])"

declare show_nat.simps [simp del]

definition show_int :: "int \<Rightarrow> string" where
  "show_int i = (if i < 0 then CHR ''-'' # show_nat (nat (- i)) else show_nat (nat i))"

definition digits_value :: "nat \<Rightarrow> string \<Rightarrow> nat" where
  "digits_value b ds = foldl (\<lambda>a c. a * b + digit_val c) 0 ds"

lemma digits_value_snoc [simp]:
  "digits_value b [] = 0" "digits_value b (ds @ [c]) = digits_value b ds * b + digit_val c"
  by (simp_all add: digits_value_def)

lemma show_nat_props: "show_nat n \<noteq> [] \<and> list_all isdigit (show_nat n) \<and> digits_value 10 (show_nat n) = n"
proof (induction n rule: show_nat.induct)
  case (1 n)
  show ?case
  proof (cases "n < 10")
    case True
    then show ?thesis
      using digits_value_snoc(2) [of 10 "[]" "digit_char n"]
      by (subst (1 2 3) show_nat.simps) (simp add: digit_char_props)
  next
    case False
    then show ?thesis using 1 digit_char_props [of "n mod 10"]
      by (subst (1 2 3) show_nat.simps) simp
  qed
qed

lemma show_nat_digits: "c \<in> set (show_nat n) \<Longrightarrow> isdigit c"
  using show_nat_props [of n] by (auto simp: list_all_iff)

lemma show_nat_ne [simp]: "show_nat n \<noteq> []"
  using show_nat_props by blast

lemma digits_value_show_nat [simp]: "digits_value 10 (show_nat n) = n"
  using show_nat_props by blast

lemma isdigit_facts:
  "isdigit c \<Longrightarrow> \<not> isspace c" "isdigit c \<Longrightarrow> c \<noteq> CHR ''-''" "isdigit c \<Longrightarrow> c \<noteq> CHR ''+''"
  "isdigit c \<Longrightarrow> c \<noteq> CHR ''.''" "isdigit c \<Longrightarrow> c \<noteq> CHR '':''"
  by (auto simp: isdigit_def isspace_def char_code_def)

fun split_sign :: "string \<Rightarrow> bool \<times> string" where
  "split_sign (c # s) = (if c = CHR ''-'' then (True, s) else if c = CHR ''+'' then (False, s) else (False, c # s))"
| "split_sign [] = (False, [])"

text \<open>The mantissa and exponent of strtod, in base b with digit predicate p.\<close>

definition exponent_part :: "char \<Rightarrow> string \<Rightarrow> int" where
  "exponent_part mark s = (case s of [] \<Rightarrow> 0 | c # t \<Rightarrow>
     if tolower c = mark then
       (let (neg, u) = split_sign t; ds = takeWhile isdigit u; v = int (digits_value 10 ds)
        in if ds = [] then 0 else if neg then - v else v)
     else 0)"

definition strtod_mag :: "nat \<Rightarrow> (char \<Rightarrow> bool) \<Rightarrow> char \<Rightarrow> nat \<Rightarrow> nat \<Rightarrow> string \<Rightarrow> real option" where
  "strtod_mag b p mark eb w s =
     (let ip = takeWhile p s; r1 = dropWhile p s;
          fp = (case r1 of [] \<Rightarrow> [] | c # t \<Rightarrow> if c = CHR ''.'' then takeWhile p t else []);
          r2 = (case r1 of [] \<Rightarrow> [] | c # t \<Rightarrow> if c = CHR ''.'' then dropWhile p t else r1)
      in if ip = [] \<and> fp = [] then None
         else Some (of_nat (digits_value b (ip @ fp)) *
                    of_nat eb powi (exponent_part mark r2 - int (w * length fp))))"

definition is_hex_prefix :: "string \<Rightarrow> bool" where
  "is_hex_prefix s = (case s of z # x # t \<Rightarrow> z = CHR ''0'' \<and> tolower x = CHR ''x'' \<and>
       strtod_mag 16 isxdigit (CHR ''p'') 2 4 t \<noteq> None | _ \<Rightarrow> False)"

definition strtod_unsigned :: "string \<Rightarrow> real option" where
  "strtod_unsigned s =
     (if is_hex_prefix s then strtod_mag 16 isxdigit (CHR ''p'') 2 4 (drop 2 s)
      else strtod_mag 10 isdigit (CHR ''e'') 10 1 s)"

definition range_checked :: "real \<Rightarrow> double option" where
  "range_checked v =
     (case rnd64 v of
        Fin r \<Rightarrow> if v \<noteq> 0 \<and> \<bar>r\<bar> < 2 powr (-1022) \<and> r \<noteq> v then None else Some (Fin r)
      | _ \<Rightarrow> None)"

definition stod :: "string \<Rightarrow> double option" where
  "stod text =
     (let (neg, s) = split_sign (dropWhile isspace text)
      in if map tolower (take 3 s) = ''inf'' then Some (if neg then NInf else PInf)
         else if map tolower (take 3 s) = ''nan'' then Some NaN
         else case strtod_unsigned s of
                None \<Rightarrow> None
              | Some v \<Rightarrow> range_checked (if neg then - v else v))"

definition stoi :: "string \<Rightarrow> int option" where
  "stoi text =
     (let (neg, s) = split_sign (dropWhile isspace text); ds = takeWhile isdigit s;
          v = (if neg then - int (digits_value 10 ds) else int (digits_value 10 ds))
      in if ds \<noteq> [] \<and> - (2 ^ 31) \<le> v \<and> v < 2 ^ 31 then Some v else None)"

definition stoull :: "string \<Rightarrow> nat option" where
  "stoull text =
     (let (neg, s) = split_sign (dropWhile isspace text); ds = takeWhile isdigit s;
          v = digits_value 10 ds
      in if ds = [] \<or> 2 ^ 64 \<le> v then None
         else Some (if neg then (2 ^ 64 - v) mod 2 ^ 64 else v))"


section \<open>Numerals are read back\<close>

lemma digits_start:
  assumes "list_all isdigit ds" "ds \<noteq> []"
  shows "dropWhile isspace (ds @ r) = ds @ r" "split_sign (ds @ r) = (False, ds @ r)"
  using assms isdigit_facts by (cases ds; auto)+

lemma stoi_show_nat:
  assumes "n < 2 ^ 31"
  shows "stoi (show_nat n) = Some (int n)"
proof -
  have "list_all isdigit (show_nat n)" using show_nat_props by blast
  with digits_start [OF this show_nat_ne, of "[]"] assms
  show ?thesis by (simp add: stoi_def while_list_all)
qed

lemma stoull_show_nat:
  assumes "n < 2 ^ 64"
  shows "stoull (CHR '' '' # show_nat n) = Some n"
proof -
  have "list_all isdigit (show_nat n)" using show_nat_props by blast
  with digits_start [OF this show_nat_ne, of "[]"] assms
  show ?thesis by (simp add: stoull_def isspace_def char_code_def while_list_all Let_def)
qed

lemma isdigit_lower: "isdigit c \<Longrightarrow> tolower c = c \<and> char_code c \<le> 57"
  by (auto simp: isdigit_def tolower_def)

lemma digit_not_special:
  "isdigit c \<Longrightarrow> tolower c \<noteq> CHR ''i''" "isdigit c \<Longrightarrow> tolower c \<noteq> CHR ''n''" "isdigit c \<Longrightarrow> tolower c \<noteq> CHR ''x''"
  using isdigit_lower [of c] by (auto simp: char_code_def)

lemma not_hex:
  assumes "list_all isdigit ds" "ds \<noteq> []" "r = [] \<or> tolower (hd r) \<noteq> CHR ''x''"
  shows "\<not> is_hex_prefix (ds @ r)"
  using assms digit_not_special
  by (cases ds; cases "tl ds"; cases r) (auto simp: is_hex_prefix_def split: list.splits)

lemma strtod_mag_plain:
  assumes "list_all isdigit ip" "ip \<noteq> []" "list_all isdigit fp"
  shows "strtod_mag 10 isdigit (CHR ''e'') 10 1 ip = Some (of_nat (digits_value 10 ip))"
    and "strtod_mag 10 isdigit (CHR ''e'') 10 1 (ip @ CHR ''.'' # fp) =
      Some (of_nat (digits_value 10 (ip @ fp)) / 10 ^ length fp)"
proof -
  have dot: "\<not> isdigit CHR ''.''" by (simp add: isdigit_def char_code_def)
  show "strtod_mag 10 isdigit (CHR ''e'') 10 1 ip = Some (of_nat (digits_value 10 ip))"
    using assms(1,2) by (simp add: strtod_mag_def exponent_part_def while_list_all Let_def)
  show "strtod_mag 10 isdigit (CHR ''e'') 10 1 (ip @ CHR ''.'' # fp) =
      Some (of_nat (digits_value 10 (ip @ fp)) / 10 ^ length fp)"
    using takeWhile_digits [OF assms(1), of "CHR ''.'' # fp"] assms(2,3) dot
    by (simp add: strtod_mag_def exponent_part_def power_int_minus divide_inverse while_list_all Let_def)
qed

lemma range_checked_ok:
  assumes "v = 0 \<or> 2 powr (-1022) \<le> v" "v \<le> 2 powr 1023"
  shows "range_checked v = Some (rnd64 v)"
proof -
  have "rnd (2 powr (-1022)) = 2 powr (-1022)"
    by (rule rnd_exact [where m = 1 and k = "-1022"]) auto
  then have "v \<noteq> 0 \<Longrightarrow> 2 powr (-1022) \<le> rnd v"
    using assms(1) rnd_mono [of "2 powr (-1022)" v] by auto
  moreover have "0 \<le> v" using assms(1) by (auto intro: order_trans [of 0 "2 powr (-1022)"])
  moreover from this have "rnd64 v = Fin (rnd v)" using assms(2) by (intro rnd64_Fin) auto
  ultimately show ?thesis by (cases "v = 0") (auto simp: range_checked_def)
qed

lemma stod_digits:
  assumes "list_all isdigit ip" "ip \<noteq> []"
    and "strtod_mag 10 isdigit (CHR ''e'') 10 1 (ip @ r) = Some v" "r = [] \<or> tolower (hd r) \<noteq> CHR ''x''"
  shows "stod (ip @ r) = range_checked v"
proof -
  from assms(1,2) obtain d ds where d: "ip = d # ds" "isdigit d" by (cases ip) auto
  show ?thesis
    using digits_start [OF assms(1,2), of r] digit_not_special [OF d(2)] d(1)
      not_hex [OF assms(1,2,4)] assms(3)
    by (simp add: stod_def strtod_unsigned_def)
qed


section \<open>Fixed-point output with six decimals\<close>

definition pad6 :: "nat \<Rightarrow> string" where
  "pad6 n = map digit_char [n div 100000 mod 10, n div 10000 mod 10, n div 1000 mod 10,
     n div 100 mod 10, n div 10 mod 10, n mod 10]"

fun fixed6 :: "double \<Rightarrow> string" where
  "fixed6 (Fin x) =
     (let n = nat (rne (\<bar>x\<bar> * 10 ^ 6))
      in (if x < 0 then ''-'' else []) @ show_nat (n div 10 ^ 6) @ ''.'' @ pad6 (n mod 10 ^ 6))"
| "fixed6 PInf = ''inf''"
| "fixed6 NInf = ''-inf''"
| "fixed6 NaN = ''nan''"

lemma pad6_props:
  assumes "n < 10 ^ 6"
  shows "list_all isdigit (pad6 n)" "length (pad6 n) = 6" "digits_value 10 (pad6 n) = n"
proof -
  show "list_all isdigit (pad6 n)" "length (pad6 n) = 6"
    by (simp_all add: pad6_def digit_char_props)
  have "n div 100000 mod 10 * 100000 + n div 10000 mod 10 * 10000 + n div 1000 mod 10 * 1000
     + n div 100 mod 10 * 100 + n div 10 mod 10 * 10 + n mod 10 = n"
  proof -
    have step: "m = m div 10 * 10 + m mod 10" for m :: nat by simp
    have d: "n div 10 div 10 = n div 100" "n div 100 div 10 = n div 1000"
      "n div 1000 div 10 = n div 10000" "n div 10000 div 10 = n div 100000"
      by (simp_all flip: div_mult2_eq)
    have "n div 100000 mod 10 = n div 100000" using assms by (simp add: div_less_iff_less_mult)
    with step [of n] step [of "n div 10"] step [of "n div 100"] step [of "n div 1000"]
      step [of "n div 10000"] show ?thesis unfolding d by linarith
  qed
  then show "digits_value 10 (pad6 n) = n"
    by (simp add: pad6_def digits_value_def digit_char_props)
qed

lemma digits_value_append:
  "digits_value b (xs @ ys) = digits_value b xs * b ^ length ys + digits_value b ys"
  by (induction ys rule: rev_induct) (simp_all flip: append_assoc add: algebra_simps)

lemma digits_value_zeros [simp]: "digits_value b (replicate k CHR ''0'') = 0"
proof (induction k)
  case (Suc k)
  have "replicate (Suc k) CHR ''0'' = replicate k CHR ''0'' @ [CHR ''0'']"
    by (simp add: replicate_append_same)
  with Suc show ?case by (simp add: digit_val_def isdigit_def char_code_def)
qed simp

lemma rne_close: "\<bar>x - of_int n\<bar> < 1/2 \<Longrightarrow> rne x = n"
proof -
  assume "\<bar>x - of_int n\<bar> < 1/2"
  then have "\<lfloor>x\<rfloor> = n \<and> x - of_int n < 1/2 \<or> \<lfloor>x\<rfloor> = n - 1 \<and> x - of_int (n - 1) > 1/2"
    by linarith
  then show ?thesis by (auto simp: rne_def Let_def)
qed

end
