(* ===== verification/Json.thy ===== *)
theory Json
  imports Cpp_Strings "HOL-Library.Word"
begin

text \<open>
  JSON values as nlohmann::json holds them. An object is an association list; parsing and
  printing are the library's and are parameters of the model (the platform record of
  Http_Client). int32_of is get<int>() on a stored 64-bit number: a cast that keeps 32 bits.
\<close>

datatype json =
    JNull
  | JBool bool
  | JInt int
  | JFloat double
  | JString string
  | JArray "json list"
  | JObject "(string \<times> json) list"

fun json_find :: "string \<Rightarrow> json \<Rightarrow> json option" where
  "json_find k (JObject kvs) = map_of kvs k"
| "json_find k _ = None"

definition json_contains :: "json \<Rightarrow> string \<Rightarrow> bool" where
  "json_contains j k \<longleftrightarrow> json_find k j \<noteq> None"

text \<open>The number a value is, as a double.\<close>

definition json_number :: "json \<Rightarrow> double option" where
  "json_number j = (case j of JInt i \<Rightarrow> Some (rnd64 (of_int i)) | JFloat d \<Rightarrow> Some d | _ \<Rightarrow> None)"

definition int32_of :: "int \<Rightarrow> int" where
  "int32_of i = sint (of_int i :: 32 word)"

lemma int32_of_id: "- (2 ^ 31) \<le> i \<Longrightarrow> i < 2 ^ 31 \<Longrightarrow> int32_of i = i"
  by (simp add: int32_of_def signed_of_int signed_take_bit_int_eq_self)

lemma int32_of_range: "- (2 ^ 31) \<le> int32_of i \<and> int32_of i < 2 ^ 31"
  using sint_range_size [of "of_int i :: 32 word"] by (simp add: int32_of_def word_size)

end
