(* ===== verification/Http_Client.thy ===== *)
theory Http_Client
  imports Json
begin

text \<open>
  The HTTP/1.1 client of silvus_adapter.cpp: the endpoint URI, the request bytes, and the reading
  of the reply (status line, headers, body) from the byte stream the peer sent until it closed.
  The record platform holds what the code takes from outside: one exchange over a TCP connection,
  the steady clock in nanoseconds, the time authority's wall clock in milliseconds, and nlohmann's parse and dump; the
  type variable 'e is the state of that outside world, which every effectful operation threads.
\<close>

record endpoint_info =
  ep_host :: string
  ep_port :: string
  ep_path :: string

definition parseEndpoint :: "string \<Rightarrow> endpoint_info option" where
  "parseEndpoint endpoint =
     (if \<not> prefix ''http://'' endpoint then None
      else let remainder = drop (length ''http://'') endpoint;
               (hostPort, path) =
                 (case str_find CHR ''/'' remainder of
                    None \<Rightarrow> (remainder, ''/streamscape_api'')
                  | Some slashPos \<Rightarrow>
                      (take slashPos remainder,
                       let candidate = drop slashPos remainder
                       in if candidate \<noteq> [] then candidate else ''/streamscape_api''));
               (host, port) =
                 (case str_find CHR '':'' hostPort of
                    None \<Rightarrow> (hostPort, ''80'')
                  | Some colonPos \<Rightarrow>
                      (take colonPos hostPort,
                       let p = drop (colonPos + 1) hostPort in if p = [] then ''80'' else p))
           in if host = [] then None
              else Some \<lparr>ep_host = host, ep_port = port, ep_path = path\<rparr>)"

abbreviation crlf :: string where
  "crlf \<equiv> [CHR 0x0D, CHR 0x0A]"

definition http_post_request :: "endpoint_info \<Rightarrow> string \<Rightarrow> string" where
  "http_post_request ep body =
     ''POST '' @ ep_path ep @ '' HTTP/1.1'' @ crlf @
     ''Host: '' @ ep_host ep @ crlf @
     ''Content-Type: application/json'' @ crlf @
     ''Content-Length: '' @ show_nat (length body) @ crlf @
     ''Connection: close'' @ crlf @ crlf @ body"

definition getline :: "string \<Rightarrow> (string \<times> string) option" where
  "getline s = (if s = [] then None
     else Some (takeWhile (\<lambda>c. c \<noteq> CHR 0x0A) s, drop 1 (dropWhile (\<lambda>c. c \<noteq> CHR 0x0A) s)))"

definition chomp_cr :: "string \<Rightarrow> string" where
  "chomp_cr s = (if s \<noteq> [] \<and> last s = CHR 0x0D then butlast s else s)"

definition istream_int :: "string \<Rightarrow> int" where
  "istream_int s =
     (let (neg, t) = split_sign (dropWhile isspace s); ds = takeWhile isdigit t;
          v = (if neg then - int (digits_value 10 ds) else int (digits_value 10 ds))
      in if ds = [] then 0 else if 2 ^ 31 \<le> v then 2 ^ 31 - 1
         else if v < - (2 ^ 31) then - (2 ^ 31) else v)"

definition status_code :: "string \<Rightarrow> int" where
  "status_code statusLine =
     istream_int (dropWhile (\<lambda>c. \<not> isspace c) (dropWhile isspace statusLine))"

definition header_length :: "string \<Rightarrow> nat \<Rightarrow> nat" where
  "header_length line contentLength =
     (let header = chomp_cr line; lower = map tolower header
      in if prefix ''content-length:'' lower
         then (case stoull (drop (length ''Content-Length:'') header) of None \<Rightarrow> 0 | Some n \<Rightarrow> n)
         else contentLength)"

lemma getline_shorter: "getline s = Some (l, r) \<Longrightarrow> length r < length s"
proof -
  assume *: "getline s = Some (l, r)"
  then have "r = drop 1 (dropWhile (\<lambda>c. c \<noteq> CHR 0x0A) s)" "s \<noteq> []"
    by (auto simp: getline_def split: if_splits)
  then show ?thesis
    using length_dropWhile_le [of "\<lambda>c. c \<noteq> CHR 0x0A" s]
    by (cases "dropWhile (\<lambda>c. c \<noteq> CHR 0x0A) s") (auto simp del: length_dropWhile_le)
qed

function read_headers :: "string \<Rightarrow> nat \<Rightarrow> nat \<times> string" where
  "read_headers s contentLength =
     (case getline s of
        None \<Rightarrow> (contentLength, [])
      | Some (header, rest) \<Rightarrow>
          if header = [CHR 0x0D] then (contentLength, rest)
          else read_headers rest (header_length header contentLength))"
  by pat_completeness auto
termination
  by (relation "measure (\<lambda>(s, n). length s)") (auto dest: getline_shorter)

declare read_headers.simps [simp del]

definition read_response :: "string \<Rightarrow> string \<Rightarrow> string + string" where
  "read_response stream errorText =
     (case getline stream of
        None \<Rightarrow> Inl (''Read failed: '' @ errorText)
      | Some (statusLine, rest) \<Rightarrow>
          let statusCode = status_code (chomp_cr statusLine);
              (contentLength, remaining) = read_headers rest 0
          in if 0 < contentLength \<and> length remaining < contentLength
             then Inl (''Body read failed: '' @ errorText)
             else if statusCode \<noteq> 200 then Inl (''HTTP '' @ show_int statusCode)
             else Inr (if 0 < contentLength then take contentLength remaining else remaining))"

datatype net_reply =
    ConnectFailed string
  | WriteFailed string
  | Replied string string

record 'e platform =
  net_exchange :: "string \<Rightarrow> string \<Rightarrow> int \<Rightarrow> string \<Rightarrow> 'e \<Rightarrow> net_reply \<times> 'e"
  steady_now :: "'e \<Rightarrow> int \<times> 'e"
  json_parse :: "string \<Rightarrow> json option"
  json_dump :: "json \<Rightarrow> string"
  authority_now :: "'e \<Rightarrow> int \<times> 'e"

definition sendHttpPost ::
  "'e platform \<Rightarrow> string \<Rightarrow> string \<Rightarrow> int \<Rightarrow> 'e \<Rightarrow> (string + string) \<times> 'e" where
  "sendHttpPost P endpoint requestBody timeout e =
     (case parseEndpoint endpoint of
        None \<Rightarrow> (Inl ''Invalid endpoint URI'', e)
      | Some ep \<Rightarrow>
          (case net_exchange P (ep_host ep) (ep_port ep) timeout (http_post_request ep requestBody) e of
             (ConnectFailed msg, e') \<Rightarrow> (Inl (''Connection failed: '' @ msg), e')
           | (WriteFailed msg, e') \<Rightarrow> (Inl (''Write failed: '' @ msg), e')
           | (Replied stream errorText, e') \<Rightarrow> (read_response stream errorText, e')))"


section \<open>Reading back a well-formed response\<close>

definition header_block :: "string list \<Rightarrow> string" where
  "header_block hs = concat (map (\<lambda>h. h @ crlf) hs) @ crlf"

definition clean_line :: "string \<Rightarrow> bool" where
  "clean_line h \<longleftrightarrow> h \<noteq> [] \<and> CHR 0x0A \<notin> set h"

lemma getline_crlf:
  "CHR 0x0A \<notin> set h \<Longrightarrow> getline (h @ crlf @ r) = Some (h @ [CHR 0x0D], r)"
proof -
  assume h: "CHR 0x0A \<notin> set h"
  have "takeWhile (\<lambda>c. c \<noteq> CHR 0x0A) (h @ [CHR 0x0D] @ CHR 0x0A # r) = h @ [CHR 0x0D]"
    "dropWhile (\<lambda>c. c \<noteq> CHR 0x0A) (h @ [CHR 0x0D] @ CHR 0x0A # r) = CHR 0x0A # r"
    using h by (auto simp: takeWhile_append dropWhile_append)
  then show ?thesis by (simp add: getline_def)
qed

lemma read_headers_block:
  "list_all clean_line hs \<Longrightarrow>
   read_headers (header_block hs @ r) n =
     (foldl (\<lambda>n h. header_length (h @ [CHR 0x0D]) n) n hs, r)"
proof (induction hs arbitrary: n)
  case Nil
  then show ?case
    using getline_crlf [of "[]" r] by (subst read_headers.simps) (simp add: header_block_def)
next
  case (Cons h hs)
  have "getline (header_block (h # hs) @ r) = Some (h @ [CHR 0x0D], header_block hs @ r)"
    using Cons.prems getline_crlf [of h "header_block hs @ r"]
    by (simp add: header_block_def clean_line_def)
  with Cons show ?case
    by (subst read_headers.simps) (simp add: clean_line_def)
qed

lemma chomp_cr_simp [simp]: "chomp_cr (h @ [CHR 0x0D]) = h"
  by (simp add: chomp_cr_def)

lemma tolower_content_length: "map tolower ''Content-Length: '' = ''content-length: ''"
  by code_simp

lemma header_length_content:
  "n < 2 ^ 64 \<Longrightarrow> header_length (''Content-Length: '' @ show_nat n @ [CHR 0x0D]) m = n"
  using stoull_show_nat [of n] chomp_cr_simp [of "''Content-Length: '' @ show_nat n"]
    tolower_content_length
  by (simp add: header_length_def)

lemma header_length_other:
  "\<not> prefix ''content-length:'' (map tolower h) \<Longrightarrow> header_length (h @ [CHR 0x0D]) m = m"
  by (simp add: header_length_def)

text \<open>A response with status 200 whose Content-Length is the body's length gives the body.\<close>

lemma read_response_body:
  assumes "clean_line statusLine" "status_code statusLine = 200" "list_all clean_line hs"
    and "foldl (\<lambda>n h. header_length (h @ [CHR 0x0D]) n) 0 hs = length body"
  shows "read_response (statusLine @ crlf @ header_block hs @ body) err = Inr body"
  using assms getline_crlf [of statusLine "header_block hs @ body"] read_headers_block [OF assms(3)]
  by (simp add: read_response_def clean_line_def)

section \<open>Endpoints\<close>

lemma parseEndpoint_parts:
  assumes "host \<noteq> []" "CHR ''/'' \<notin> set host" "CHR '':'' \<notin> set host" "CHR ''/'' \<notin> set port" "port \<noteq> []"
  shows "parseEndpoint (''http://'' @ host @ '':'' @ port @ ''/'' @ path) =
      Some \<lparr>ep_host = host, ep_port = port, ep_path = CHR ''/'' # path\<rparr>"
    and "parseEndpoint (''http://'' @ host @ '':'' @ port) =
      Some \<lparr>ep_host = host, ep_port = port, ep_path = ''/streamscape_api''\<rparr>"
    and "parseEndpoint (''http://'' @ host) =
      Some \<lparr>ep_host = host, ep_port = ''80'', ep_path = ''/streamscape_api''\<rparr>"
proof -
  have slash: "str_find CHR ''/'' ((host @ CHR '':'' # port) @ CHR ''/'' # path) = Some (length (host @ CHR '':'' # port))"
    by (rule str_find_append) (use assms in auto)
  have colon: "str_find CHR '':'' (host @ CHR '':'' # port) = Some (length host)"
    by (rule str_find_append) (use assms in auto)
  show "parseEndpoint (''http://'' @ host @ '':'' @ port @ ''/'' @ path) =
      Some \<lparr>ep_host = host, ep_port = port, ep_path = CHR ''/'' # path\<rparr>"
    using slash colon assms by (simp add: parseEndpoint_def Let_def)
  show "parseEndpoint (''http://'' @ host @ '':'' @ port) =
      Some \<lparr>ep_host = host, ep_port = port, ep_path = ''/streamscape_api''\<rparr>"
    using colon assms by (simp add: parseEndpoint_def Let_def str_find_def [of "CHR ''/''"])
  show "parseEndpoint (''http://'' @ host) =
      Some \<lparr>ep_host = host, ep_port = ''80'', ep_path = ''/streamscape_api''\<rparr>"
    using assms by (simp add: parseEndpoint_def Let_def str_find_def)
qed

section \<open>Framing and endpoints as the adapter sees them\<close>

lemma header_length_fold:
  assumes "list_all (\<lambda>h. \<not> prefix ''content-length:'' (map tolower h)) hs"
  shows "foldl (\<lambda>n h. header_length (h @ [CHR 0x0D]) n) m hs = m"
  using assms by (induction hs arbitrary: m) (auto simp: header_length_other)

definition framed :: "string list \<Rightarrow> nat \<Rightarrow> string list \<Rightarrow> string list" where
  "framed before n after = before @ (''Content-Length: '' @ show_nat n) # after"

definition plain_headers :: "string list \<Rightarrow> bool" where
  "plain_headers hs \<longleftrightarrow> list_all (\<lambda>h. clean_line h \<and> \<not> prefix ''content-length:'' (map tolower h)) hs"

lemma framed_fold:
  assumes "plain_headers before" "plain_headers after" "n < 2 ^ 64"
  shows "list_all clean_line (framed before n after)"
    and "foldl (\<lambda>n h. header_length (h @ [CHR 0x0D]) n) 0 (framed before n after) = n"
proof -
  have "CHR 0x0A \<notin> set (show_nat n)"
    using show_nat_digits [of "CHR 0x0A" n] by (auto simp: isdigit_def char_code_def)
  then show "list_all clean_line (framed before n after)"
    using assms(1,2) by (auto simp: framed_def plain_headers_def clean_line_def list_all_iff)
  have "header_length ((''Content-Length: '' @ show_nat n) @ [CHR 0x0D]) m = n" for m
    using header_length_content [OF assms(3)] by simp
  moreover have "list_all (\<lambda>h. \<not> prefix ''content-length:'' (map tolower h)) hs" if "plain_headers hs" for hs
    using that by (simp add: plain_headers_def list_all_iff)
  ultimately show "foldl (\<lambda>n h. header_length (h @ [CHR 0x0D]) n) 0 (framed before n after) = n"
    using assms(1,2) header_length_fold by (simp add: framed_def)
qed

lemma read_framed_response:
  assumes "clean_line statusLine" "plain_headers before" "plain_headers after" "n < 2 ^ 64" "0 < n"
  shows "read_response (statusLine @ crlf @ header_block (framed before n after) @ sent) err =
    (if length sent < n then Inl (''Body read failed: '' @ err)
     else if status_code statusLine \<noteq> 200 then Inl (''HTTP '' @ show_int (status_code statusLine))
     else Inr (take n sent))"
proof -
  have "read_headers (header_block (framed before n after) @ sent) 0 = (n, sent)"
    using read_headers_block [OF framed_fold(1) [OF assms(2-4)], of sent 0] framed_fold(2) [OF assms(2-4)] by simp
  then show ?thesis
    using assms(1,5) getline_crlf [of statusLine "header_block (framed before n after) @ sent"]
    by (simp add: read_response_def clean_line_def)
qed


text \<open>An endpoint URI is taken apart into its host, its port (80 when absent) and its path (the API's
  default when absent), and a URI with another scheme or an empty host is refused before any connection.\<close>

theorem endpoint_parts:
  assumes "host \<noteq> []" "CHR ''/'' \<notin> set host" "CHR '':'' \<notin> set host" "CHR ''/'' \<notin> set port" "port \<noteq> []"
  shows "parseEndpoint (''http://'' @ host @ '':'' @ port @ ''/'' @ path) =
      Some \<lparr>ep_host = host, ep_port = port, ep_path = CHR ''/'' # path\<rparr> \<and>
    parseEndpoint (''http://'' @ host @ '':'' @ port) =
      Some \<lparr>ep_host = host, ep_port = port, ep_path = ''/streamscape_api''\<rparr> \<and>
    parseEndpoint (''http://'' @ host) =
      Some \<lparr>ep_host = host, ep_port = ''80'', ep_path = ''/streamscape_api''\<rparr> \<and>
    parseEndpoint (''http://'' @ '':'' @ port) = None \<and> parseEndpoint (''https://'' @ host) = None"
proof -
  have "parseEndpoint (''http://'' @ '':'' @ port) = None"
    using assms(4) by (simp add: parseEndpoint_def Let_def str_find_def)
  moreover have "parseEndpoint (''https://'' @ host) = None" by (simp add: parseEndpoint_def)
  ultimately show ?thesis using parseEndpoint_parts [OF assms] by blast
qed

theorem endpoint_parts_witness:
  "parseEndpoint ''http://radio:8080/api'' = Some \<lparr>ep_host = ''radio'', ep_port = ''8080'', ep_path = ''/api''\<rparr>"
  using endpoint_parts [of "''radio''" "''8080''" "''api''"] by simp

end
