(* ===== verification/Js_Values.thy ===== *)
theory Js_Values
  imports Json
begin

text \<open>
  What the page script of monitor_page.hpp uses of its language: values, property access, the
  conversions to boolean, number and text, strict equality, object literals and spreading, and the
  text functions trim, startsWith, split, parseInt and encodeURIComponent. A value is undefined (None) or
  a JSON value; JSON numbers stand for the double they denote. None as the result of an operation is a
  TypeError. Texts are UTF-8 bytes, of which the white space is ASCII's. Objects come from JSON texts or
  literals: a method they own under a built-in name is data and cannot be called, so an own toString
  makes the conversion to text throw. Two objects are never the same object unless the script copies a
  reference, which it does not compare.
\<close>

type_synonym js = "json option"

abbreviation undef :: js where
  "undef \<equiv> None"

abbreviation null :: js where
  "null \<equiv> Some JNull"

abbreviation js_str :: "string \<Rightarrow> js" where
  "js_str s \<equiv> Some (JString s)"

section \<open>Truth, properties and equality\<close>

fun js_truthy :: "js \<Rightarrow> bool" where
  "js_truthy None \<longleftrightarrow> False"
| "js_truthy (Some JNull) \<longleftrightarrow> False"
| "js_truthy (Some (JBool b)) \<longleftrightarrow> b"
| "js_truthy (Some (JInt i)) \<longleftrightarrow> i \<noteq> 0"
| "js_truthy (Some (JFloat d)) \<longleftrightarrow> d \<noteq> Fin 0 \<and> d \<noteq> NaN"
| "js_truthy (Some (JString s)) \<longleftrightarrow> s \<noteq> []"
| "js_truthy (Some (JArray xs)) \<longleftrightarrow> True"
| "js_truthy (Some (JObject kvs)) \<longleftrightarrow> True"

definition js_or :: "js \<Rightarrow> js \<Rightarrow> js" where
  "js_or a b = (if js_truthy a then a else b)"

definition js_nullish :: "js \<Rightarrow> bool" where
  "js_nullish v \<longleftrightarrow> v = undef \<or> v = null"

text \<open>v.k: null and undefined have no properties; length is the only inherited one the script reads.\<close>

definition js_prop :: "string \<Rightarrow> js \<Rightarrow> js option" where
  "js_prop k v =
     (case v of None \<Rightarrow> None
      | Some j \<Rightarrow>
          (case j of JNull \<Rightarrow> None
           | JString s \<Rightarrow> Some (if k = ''length'' then Some (JInt (int (length s))) else undef)
           | JArray xs \<Rightarrow> Some (if k = ''length'' then Some (JInt (int (length xs))) else undef)
           | _ \<Rightarrow> Some (json_find k j)))"

text \<open>v?.k\<close>

definition js_opt :: "string \<Rightarrow> js \<Rightarrow> js" where
  "js_opt k v = (case js_prop k v of None \<Rightarrow> undef | Some w \<Rightarrow> w)"

lemma js_prop_JObject [simp]: "js_prop k (Some (JObject kvs)) = Some (map_of kvs k)"
  by (simp add: js_prop_def)

lemma js_opt_JObject [simp]: "js_opt k (Some (JObject kvs)) = map_of kvs k"
  by (simp add: js_opt_def)

lemma js_opt_nullish [simp]: "js_opt k None = undef" "js_opt k (Some JNull) = undef"
  by (simp_all add: js_opt_def js_prop_def)

lemma js_prop_None_iff: "js_prop k v = None \<longleftrightarrow> js_nullish v"
  by (auto simp: js_prop_def js_nullish_def split: option.splits json.splits)

lemma js_truthy_not_nullish: "js_truthy v \<Longrightarrow> \<not> js_nullish v"
  by (cases v) (auto simp: js_nullish_def)

fun js_is_array :: "js \<Rightarrow> bool" where
  "js_is_array (Some (JArray xs)) \<longleftrightarrow> True"
| "js_is_array v \<longleftrightarrow> False"

text \<open>The elements, where the script calls find, forEach or map: only an array has those methods.\<close>

fun js_elements :: "js \<Rightarrow> json list option" where
  "js_elements (Some (JArray xs)) = Some xs"
| "js_elements v = None"

fun js_is_object :: "js \<Rightarrow> bool" where
  "js_is_object (Some (JArray xs)) \<longleftrightarrow> True"
| "js_is_object (Some (JObject kvs)) \<longleftrightarrow> True"
| "js_is_object (Some JNull) \<longleftrightarrow> True"
| "js_is_object v \<longleftrightarrow> False"

text \<open>===\<close>

definition js_eq :: "js \<Rightarrow> js \<Rightarrow> bool" where
  "js_eq a b \<longleftrightarrow>
     (case (a, b) of (None, None) \<Rightarrow> True
      | (Some x, Some y) \<Rightarrow>
          (case (json_number x, json_number y) of
             (Some d, Some e) \<Rightarrow> feq d e
           | (None, None) \<Rightarrow>
               (case x of JNull \<Rightarrow> y = JNull | JBool p \<Rightarrow> y = JBool p | JString s \<Rightarrow> y = JString s | _ \<Rightarrow> False)
           | _ \<Rightarrow> False)
      | _ \<Rightarrow> False)"

lemma js_eq_string [simp]:
  "js_eq (Some (JString s)) (Some (JString t)) \<longleftrightarrow> s = t"
  "js_eq (Some (JString s)) None \<longleftrightarrow> False" "js_eq None (Some (JString s)) \<longleftrightarrow> False"
  "js_eq (Some (JString s)) (Some JNull) \<longleftrightarrow> False"
  by (auto simp: js_eq_def json_number_def)

lemma js_eq_string_iff: "js_eq v (Some (JString s)) \<longleftrightarrow> v = Some (JString s)"
  by (auto simp: js_eq_def json_number_def split: option.splits json.splits)

section \<open>Numbers\<close>

definition is_integral :: "double \<Rightarrow> bool" where
  "is_integral d \<longleftrightarrow> (case d of Fin r \<Rightarrow> r = of_int \<lfloor>r\<rfloor> | _ \<Rightarrow> False)"

definition js_is_finite :: "double \<Rightarrow> bool" where
  "js_is_finite d \<longleftrightarrow> (case d of Fin r \<Rightarrow> True | _ \<Rightarrow> False)"

text \<open>Number.isInteger\<close>

definition js_is_integer :: "js \<Rightarrow> bool" where
  "js_is_integer v \<longleftrightarrow> (case Option.bind v json_number of Some d \<Rightarrow> is_integral d | None \<Rightarrow> False)"

text \<open>The number a double is as a JSON value.\<close>

definition num_json :: "double \<Rightarrow> json" where
  "num_json d = (case d of Fin r \<Rightarrow> if r = of_int \<lfloor>r\<rfloor> \<and> \<bar>r\<bar> \<le> 2 ^ 53 then JInt \<lfloor>r\<rfloor> else JFloat d | _ \<Rightarrow> JFloat d)"

lemma json_number_num_json [simp]: "json_number (num_json d) = Some d"
proof (cases d)
  case (Fin r)
  then show ?thesis
    using rnd64_int [of "\<lfloor>r\<rfloor>"] by (auto simp: num_json_def json_number_def abs_le_iff floor_le_iff le_floor_iff)
qed (simp_all add: num_json_def json_number_def)

text \<open>Number::toString in base ten: the fewest digits s with which s times 10 to the (n - k) reads back as
  the number, k digits in all, and of these the closest.\<close>

definition fits_digits :: "real \<Rightarrow> int \<Rightarrow> nat \<Rightarrow> nat \<Rightarrow> bool" where
  "fits_digits r n k s \<longleftrightarrow> 10 ^ (k - 1) \<le> s \<and> s \<le> 10 ^ k \<and> rnd64 (of_nat s * 10 powi (n - int k)) = Fin r"

definition digits_of_length :: "real \<Rightarrow> int \<Rightarrow> nat \<Rightarrow> nat list" where
  "digits_of_length r n k =
     (let x = r * 10 powi (int k - n); lo = nat \<lfloor>x\<rfloor>; hi = nat \<lceil>x\<rceil>
      in filter (fits_digits r n k) (if x - of_nat lo \<le> of_nat hi - x then [lo, hi] else [hi, lo]))"

definition shortest_digits :: "real \<Rightarrow> nat \<times> int" where
  "shortest_digits r =
     (let n = \<lfloor>log 10 r\<rfloor> + 1
      in case concat (map (\<lambda>k. map (\<lambda>s. (s, k)) (digits_of_length r n k)) [1..<18]) of
           (s, k) # _ \<Rightarrow> if s = 10 ^ k then (1, n + 1) else (s, n)
         | [] \<Rightarrow> (0, n))"

definition show_magnitude :: "nat \<times> int \<Rightarrow> string" where
  "show_magnitude = (\<lambda>(s, n).
     let ds = show_nat s; k = int (length ds); e = n - 1;
         exponent = ''e'' @ (if e < 0 then ''-'' else ''+'') @ show_nat (nat \<bar>e\<bar>)
     in if k \<le> n \<and> n \<le> 21 then ds @ replicate (nat (n - k)) (CHR ''0'')
        else if 0 < n \<and> n \<le> 21 then take (nat n) ds @ ''.'' @ drop (nat n) ds
        else if - 6 < n \<and> n \<le> 0 then ''0.'' @ replicate (nat (- n)) (CHR ''0'') @ ds
        else if k = 1 then ds @ exponent
        else take 1 ds @ ''.'' @ drop 1 ds @ exponent)"

fun number_text :: "double \<Rightarrow> string" where
  "number_text (Fin r) =
     (if r = of_int \<lfloor>r\<rfloor> \<and> \<bar>r\<bar> \<le> 2 ^ 53 then show_int \<lfloor>r\<rfloor>
      else (if r < 0 then ''-'' else []) @ show_magnitude (shortest_digits \<bar>r\<bar>))"
| "number_text PInf = ''Infinity''"
| "number_text NInf = ''-Infinity''"
| "number_text NaN = ''NaN''"

lemma number_text_int [simp]: "\<bar>i\<bar> \<le> 2 ^ 53 \<Longrightarrow> number_text (Fin (of_int i)) = show_int i"
proof -
  assume "\<bar>i\<bar> \<le> 2 ^ 53"
  then have "\<bar>real_of_int i\<bar> \<le> 2 ^ 53" by (metis of_int_abs of_int_le_numeral_power_cancel_iff)
  then show ?thesis by simp
qed

section \<open>Conversion to text and to numbers\<close>

fun js_join :: "string \<Rightarrow> string list \<Rightarrow> string" where
  "js_join sep [] = []"
| "js_join sep [t] = t"
| "js_join sep (t # ts) = t @ sep @ js_join sep ts"

text \<open>String(v) and template literals. An array is joined with commas, its null elements empty.\<close>

fun json_text :: "json \<Rightarrow> string option" where
  "json_text JNull = Some ''null''"
| "json_text (JBool b) = Some (if b then ''true'' else ''false'')"
| "json_text (JInt i) = Some (number_text (rnd64 (of_int i)))"
| "json_text (JFloat d) = Some (number_text d)"
| "json_text (JString s) = Some s"
| "json_text (JArray xs) =
     map_option (\<lambda>ts. js_join '','' ts)
       (those (map (\<lambda>x. if x = JNull then Some [] else json_text x) xs))"
| "json_text (JObject kvs) =
     (if map_of kvs ''toString'' = None then Some ''[object Object]'' else None)"

fun js_text :: "js \<Rightarrow> string option" where
  "js_text None = Some ''undefined''"
| "js_text (Some j) = json_text j"

section \<open>Texts\<close>

definition js_trim :: "string \<Rightarrow> string" where
  "js_trim s = rev (dropWhile isspace (rev (dropWhile isspace s)))"

text \<open>StringToNumber: the whole text but for white space at the ends; empty is 0.\<close>

definition exponent_ok :: "string \<Rightarrow> bool" where
  "exponent_ok s \<longleftrightarrow>
     (case s of [] \<Rightarrow> True
      | c # t \<Rightarrow> tolower c = CHR ''e'' \<and> snd (split_sign t) \<noteq> [] \<and> list_all isdigit (snd (split_sign t)))"

definition decimal_value :: "string \<Rightarrow> real option" where
  "decimal_value s =
     (let r1 = dropWhile isdigit s;
          r2 = (case r1 of c # t \<Rightarrow> if c = CHR ''.'' then dropWhile isdigit t else r1 | [] \<Rightarrow> [])
      in if exponent_ok r2 then strtod_mag 10 isdigit (CHR ''e'') 10 1 s else None)"

definition in_base :: "nat \<Rightarrow> char \<Rightarrow> bool" where
  "in_base b c \<longleftrightarrow> isxdigit c \<and> digit_val c < b"

definition text_number :: "string \<Rightarrow> double" where
  "text_number v =
     (let s = js_trim v; (neg, u) = split_sign s;
          based = (\<lambda>b. if drop 2 s \<noteq> [] \<and> list_all (in_base b) (drop 2 s)
                       then rnd64 (of_nat (digits_value b (drop 2 s))) else NaN)
      in if s = [] then Fin 0
         else if map tolower (take 2 s) = ''0x'' then based 16
         else if map tolower (take 2 s) = ''0o'' then based 8
         else if map tolower (take 2 s) = ''0b'' then based 2
         else if u = ''Infinity'' then (if neg then NInf else PInf)
         else case decimal_value u of Some r \<Rightarrow> rnd64 (if neg then - r else r) | None \<Rightarrow> NaN)"

text \<open>Number(v)\<close>

fun json_to_number :: "json \<Rightarrow> double option" where
  "json_to_number JNull = Some (Fin 0)"
| "json_to_number (JBool b) = Some (Fin (if b then 1 else 0))"
| "json_to_number (JInt i) = Some (rnd64 (of_int i))"
| "json_to_number (JFloat d) = Some d"
| "json_to_number j = map_option text_number (json_text j)"

fun js_number :: "js \<Rightarrow> double option" where
  "js_number None = Some NaN"
| "js_number (Some j) = json_to_number j"

text \<open>Number.parseInt(s, 10)\<close>

definition parse_int :: "string \<Rightarrow> double" where
  "parse_int v =
     (let (neg, s) = split_sign (dropWhile isspace v); ds = takeWhile isdigit s; n = int (digits_value 10 ds)
      in if ds = [] then NaN else rnd64 (of_int (if neg then - n else n)))"

lemma parse_int_show_nat:
  assumes "int n \<le> 2 ^ 53"
  shows "parse_int (show_nat n) = Fin (of_nat n)"
proof -
  have "list_all isdigit (show_nat n)" using show_nat_digits by (auto simp: list_all_iff)
  moreover have "rnd64 (of_int (int n)) = Fin (of_int (int n))" using assms by (intro rnd64_int) simp
  ultimately show ?thesis
    using digits_start [of "show_nat n" "[]"] by (simp add: parse_int_def while_list_all Let_def)
qed

text \<open>encodeURIComponent\<close>

definition hex_upper :: "nat \<Rightarrow> char" where
  "hex_upper n = toupper (''0123456789abcdef'' ! n)"

definition uri_unreserved :: "char \<Rightarrow> bool" where
  "uri_unreserved c \<longleftrightarrow>
     isdigit c \<or> 97 \<le> char_code (tolower c) \<and> char_code (tolower c) \<le> 122 \<or> c \<in> set ''-_.!~*''\<or> char_code c \<in> {39, 40, 41}"

definition encodeURIComponent :: "string \<Rightarrow> string" where
  "encodeURIComponent s =
     concat (map (\<lambda>c. if uri_unreserved c then [c]
                      else [CHR ''%'', hex_upper (char_code c div 16), hex_upper (char_code c mod 16)]) s)"

lemma encodeURIComponent_id: "list_all uri_unreserved s \<Longrightarrow> encodeURIComponent s = s"
  by (induction s) (simp_all add: encodeURIComponent_def)

section \<open>Objects and arrays\<close>

text \<open>An object literal; a property whose value is undefined reads like an absent one.\<close>

definition js_object :: "(string \<times> js) list \<Rightarrow> json" where
  "js_object kvs = JObject (concat (map (\<lambda>(k, v). case v of None \<Rightarrow> [] | Some j \<Rightarrow> [(k, j)]) kvs))"

lemma js_object_find [simp]:
  "json_find k (js_object []) = undef"
  "json_find k (js_object ((a, v) # kvs)) = (if a = k \<and> v \<noteq> undef then v else json_find k (js_object kvs))"
  by (auto simp: js_object_def map_add_def split: option.splits)

text \<open>The own properties that spreading copies; elements of arrays and texts go by their index.\<close>

definition js_entries :: "js \<Rightarrow> (string \<times> json) list" where
  "js_entries v =
     (case v of Some (JObject kvs) \<Rightarrow> kvs
      | Some (JArray xs) \<Rightarrow> zip (map show_nat [0..<length xs]) xs
      | Some (JString s) \<Rightarrow> zip (map show_nat [0..<length s]) (map (\<lambda>c. JString [c]) s)
      | _ \<Rightarrow> [])"

text \<open>{ ...a, ...b }\<close>

definition js_spread :: "js \<Rightarrow> js \<Rightarrow> json" where
  "js_spread a b = JObject (foldr (\<lambda>(k, v). AList.update k v) (js_entries b) (js_entries a))"

text \<open>o.k = v: ignored where o is a primitive value (the script is not strict). A property set on an array
  is kept beside its elements.\<close>

definition js_set :: "string \<Rightarrow> json \<Rightarrow> json \<Rightarrow> json" where
  "js_set k v target =
     (case target of JObject kvs \<Rightarrow> JObject (AList.update k v kvs)
      | JArray xs \<Rightarrow> JObject (AList.update k v (js_entries (Some target)))
      | _ \<Rightarrow> target)"

text \<open>An assignment whose right-hand side may be undefined.\<close>

definition js_assign :: "string \<Rightarrow> js \<Rightarrow> json \<Rightarrow> json" where
  "js_assign k v target =
     (case v of Some j \<Rightarrow> js_set k j target
      | None \<Rightarrow> (case target of JObject kvs \<Rightarrow> JObject (AList.delete k kvs) | _ \<Rightarrow> target))"

lemma map_of_delete [simp]: "map_of (AList.delete k kvs) j = (if j = k then None else map_of kvs j)"
  by (simp add: delete_conv')

lemma js_set_find: "json_find j (js_set k v (JObject kvs)) = (if j = k then Some v else map_of kvs j)"
  by (simp add: js_set_def update_conv')

lemma map_of_foldr_update: "map_of (foldr (\<lambda>(k, v). AList.update k v) ys xs) k =
    (case map_of ys k of None \<Rightarrow> map_of xs k | Some v \<Rightarrow> Some v)"
  by (induction ys) (auto simp: update_conv')

lemma js_spread_find [simp]: "json_find k (js_spread (Some (JObject xs)) (Some (JObject ys))) =
    (case map_of ys k of None \<Rightarrow> map_of xs k | Some v \<Rightarrow> Some v)"
  by (simp add: js_spread_def js_entries_def map_of_foldr_update)

text \<open>find, some and the index of what find returns; the test may throw.\<close>

fun js_find_index :: "('a \<Rightarrow> bool option) \<Rightarrow> 'a list \<Rightarrow> nat option option" where
  "js_find_index f [] = Some None"
| "js_find_index f (x # xs) =
     (case f x of None \<Rightarrow> None | Some True \<Rightarrow> Some (Some 0)
      | Some False \<Rightarrow> map_option (map_option Suc) (js_find_index f xs))"

definition js_find :: "('a \<Rightarrow> bool option) \<Rightarrow> 'a list \<Rightarrow> 'a option option" where
  "js_find f xs = map_option (map_option (\<lambda>i. xs ! i)) (js_find_index f xs)"

definition js_some :: "('a \<Rightarrow> bool option) \<Rightarrow> 'a list \<Rightarrow> bool option" where
  "js_some f xs = map_option (\<lambda>r. r \<noteq> None) (js_find_index f xs)"

lemma js_find_simps [simp]:
  "js_find f [] = Some None"
  "js_find f (x # xs) = (case f x of None \<Rightarrow> None | Some b \<Rightarrow> if b then Some (Some x) else js_find f xs)"
  by (auto simp: js_find_def option.map_comp comp_def split: option.splits bool.splits
      intro!: option.map_cong0)

text \<open>A test that does not throw.\<close>

lemma js_find_total: "list_all (\<lambda>x. f x = Some (g x)) xs \<Longrightarrow> js_find f xs = Some (List.find g xs)"
  by (induction xs) auto

lemma js_find_index_total:
  "list_all (\<lambda>x. f x = Some (g x)) xs \<Longrightarrow>
   js_find_index f xs = Some (if \<exists>x \<in> set xs. g x then Some (length (takeWhile (\<lambda>x. \<not> g x) xs)) else None)"
  by (induction xs) (auto split: bool.splits)

lemma takeWhile_hit: "\<exists>x \<in> set xs. g x \<Longrightarrow>
    length (takeWhile (\<lambda>x. \<not> g x) xs) < length xs \<and> g (xs ! length (takeWhile (\<lambda>x. \<not> g x) xs))"
  by (induction xs) auto

end
