(* ===== verification/Js_Json.thy ===== *)
theory Js_Json
  imports Js_Values
begin

text \<open>
  JSON.stringify and JSON.parse, as the page script uses them. Integer-like keys of an object come first in
  ascending order, as in every property enumeration of the language. The parser follows the JSON grammar with
  fuel; twice the length of the text and two suffices, since every step but the one from a list to its first
  element consumes a character. A \u escape becomes its UTF-8 bytes; half a surrogate pair becomes the
  replacement character.
\<close>

section \<open>JSON.stringify\<close>

definition hex_lower :: "nat \<Rightarrow> char" where
  "hex_lower n = ''0123456789abcdef'' ! n"

definition quote_char :: "char \<Rightarrow> string" where
  "quote_char c =
     (let n = char_code c
      in if n = 34 \<or> n = 92 then [CHR 0x5C, c]
         else if n = 8 then [CHR 0x5C, CHR ''b''] else if n = 9 then [CHR 0x5C, CHR ''t'']
         else if n = 10 then [CHR 0x5C, CHR ''n''] else if n = 12 then [CHR 0x5C, CHR ''f'']
         else if n = 13 then [CHR 0x5C, CHR ''r'']
         else if n < 32 then CHR 0x5C # ''u00'' @ [hex_lower (n div 16), hex_lower (n mod 16)]
         else [c])"

definition quote :: "string \<Rightarrow> string" where
  "quote s = [CHR 0x22] @ concat (map quote_char s) @ [CHR 0x22]"

definition is_index_key :: "string \<Rightarrow> bool" where
  "is_index_key k \<longleftrightarrow> k \<noteq> [] \<and> list_all isdigit k \<and> show_nat (digits_value 10 k) = k \<and> digits_value 10 k < 2 ^ 32 - 1"

definition property_order :: "(string \<times> 'a) list \<Rightarrow> (string \<times> 'a) list" where
  "property_order kvs =
     sort_key (\<lambda>(k, v). digits_value 10 k) (filter (\<lambda>(k, v). is_index_key k) kvs) @
     filter (\<lambda>(k, v). \<not> is_index_key k) kvs"

definition number_json_text :: "double \<Rightarrow> string" where
  "number_json_text d = (if js_is_finite d then number_text d else ''null'')"

text \<open>With a gap text for each level, or all on one line.\<close>

definition bracketed :: "bool \<Rightarrow> nat \<Rightarrow> char \<Rightarrow> string list \<Rightarrow> char \<Rightarrow> string" where
  "bracketed pretty depth l items r =
     (let newline = (\<lambda>n. if pretty then CHR 0x0A # replicate (2 * n) (CHR 0x20) else [])
      in if items = [] then [l, r]
         else [l] @ newline (Suc depth) @ js_join ('','' @ newline (Suc depth)) items @ newline depth @ [r])"

fun stringify :: "bool \<Rightarrow> nat \<Rightarrow> json \<Rightarrow> string" where
  "stringify pretty depth JNull = ''null''"
| "stringify pretty depth (JBool b) = (if b then ''true'' else ''false'')"
| "stringify pretty depth (JInt i) = number_json_text (rnd64 (of_int i))"
| "stringify pretty depth (JFloat d) = number_json_text d"
| "stringify pretty depth (JString s) = quote s"
| "stringify pretty depth (JArray xs) =
     bracketed pretty depth (CHR ''['') (map (stringify pretty (Suc depth)) xs) (CHR '']'')"
| "stringify pretty depth (JObject kvs) =
     bracketed pretty depth (CHR ''{'')
       (map (\<lambda>(k, t). quote k @ (if pretty then '': '' else '':'') @ t)
         (property_order (map (\<lambda>(k, v). (k, stringify pretty (Suc depth) v)) kvs))) (CHR ''}'')"

definition json_stringify :: "json \<Rightarrow> string" where
  "json_stringify j = stringify False 0 j"

section \<open>JSON.parse\<close>

definition skip_ws :: "string \<Rightarrow> string" where
  "skip_ws = dropWhile (\<lambda>c. char_code c \<in> {9, 10, 13, 32})"

definition utf8 :: "nat \<Rightarrow> string" where
  "utf8 n = map char_of
     (if n < 128 then [n]
      else if n < 2048 then [192 + n div 64, 128 + n mod 64]
      else if n < 65536 then [224 + n div 4096, 128 + n div 64 mod 64, 128 + n mod 64]
      else [240 + n div 262144, 128 + n div 4096 mod 64, 128 + n div 64 mod 64, 128 + n mod 64])"

definition hex4 :: "string \<Rightarrow> nat option" where
  "hex4 s = (if length s \<ge> 4 \<and> list_all isxdigit (take 4 s) then Some (digits_value 16 (take 4 s)) else None)"

text \<open>A code unit after \u and how many characters it takes, both units of a pair together.\<close>

definition unicode_escape :: "string \<Rightarrow> (string \<times> nat) option" where
  "unicode_escape s =
     (case hex4 s of None \<Rightarrow> None
      | Some u \<Rightarrow>
          if 55296 \<le> u \<and> u < 56320 \<and> take 2 (drop 4 s) = [CHR 0x5C, CHR ''u''] then
            (case hex4 (drop 6 s) of None \<Rightarrow> None
             | Some l \<Rightarrow> if 56320 \<le> l \<and> l < 57344 then Some (utf8 (65536 + (u - 55296) * 1024 + (l - 56320)), 10)
                         else Some (utf8 65533, 4))
          else if 55296 \<le> u \<and> u < 57344 then Some (utf8 65533, 4)
          else Some (utf8 u, 4))"

definition simple_escape :: "char \<Rightarrow> string option" where
  "simple_escape c = map_of
     [(CHR 0x22, [CHR 0x22]), (CHR 0x5C, [CHR 0x5C]), (CHR ''/'', ''/''), (CHR ''b'', [CHR 0x08]), (CHR ''f'', [CHR 0x0C]),
      (CHR ''n'', [CHR 0x0A]), (CHR ''r'', [CHR 0x0D]), (CHR ''t'', [CHR 0x09])] c"

definition prepend :: "'a list \<Rightarrow> ('a list \<times> 'b) option \<Rightarrow> ('a list \<times> 'b) option" where
  "prepend xs r = map_option (\<lambda>(ys, b). (xs @ ys, b)) r"

fun parse_chars :: "string \<Rightarrow> (string \<times> string) option" where
  "parse_chars [] = None"
| "parse_chars (c # s) =
     (if char_code c = 34 then Some ([], s)
      else if char_code c < 32 then None
      else if char_code c \<noteq> 92 then prepend [c] (parse_chars s)
      else case s of [] \<Rightarrow> None
        | e # t \<Rightarrow>
            if e = CHR ''u'' then
              (case unicode_escape t of None \<Rightarrow> None | Some (bs, n) \<Rightarrow> prepend bs (parse_chars (drop n t)))
            else (case simple_escape e of None \<Rightarrow> None | Some bs \<Rightarrow> prepend bs (parse_chars t)))"

definition parse_number :: "string \<Rightarrow> (json \<times> string) option" where
  "parse_number s =
     (let neg = (take 1 s = ''-''); u = (if neg then drop 1 s else s);
          ip = takeWhile isdigit u; r1 = dropWhile isdigit u;
          frac = (take 1 r1 = ''.''); fp = takeWhile isdigit (drop 1 r1);
          r2 = (if frac then dropWhile isdigit (drop 1 r1) else r1);
          expo = (r2 \<noteq> [] \<and> tolower (hd r2) = CHR ''e''); (en, er) = split_sign (drop 1 r2);
          r3 = (if expo then dropWhile isdigit er else r2)
      in if ip = [] \<or> hd ip = CHR ''0'' \<and> length ip > 1 \<or> frac \<and> fp = [] \<or> expo \<and> takeWhile isdigit er = [] then None
         else map_option (\<lambda>v. (num_json (rnd64 (if neg then - v else v)), r3))
           (strtod_mag 10 isdigit (CHR ''e'') 10 1 u))"

definition parse_literal :: "string \<Rightarrow> (json \<times> string) option" where
  "parse_literal s =
     (if take 4 s = ''null'' then Some (JNull, drop 4 s)
      else if take 4 s = ''true'' then Some (JBool True, drop 4 s)
      else if take 5 s = ''false'' then Some (JBool False, drop 5 s)
      else parse_number s)"

definition parse_key :: "string \<Rightarrow> (string \<times> string) option" where
  "parse_key s =
     (case skip_ws s of [] \<Rightarrow> None
      | c # t \<Rightarrow> if char_code c \<noteq> 34 then None
          else (case parse_chars t of None \<Rightarrow> None
            | Some (k, u) \<Rightarrow> (case skip_ws u of [] \<Rightarrow> None | d # w \<Rightarrow> if d = CHR '':'' then Some (k, w) else None)))"

fun parse_value :: "nat \<Rightarrow> string \<Rightarrow> (json \<times> string) option"
  and parse_elements :: "nat \<Rightarrow> string \<Rightarrow> (json list \<times> string) option"
  and parse_members :: "nat \<Rightarrow> (string \<times> json) list \<Rightarrow> string \<Rightarrow> ((string \<times> json) list \<times> string) option" where
  "parse_value 0 s = None"
| "parse_value (Suc f) s =
     (case skip_ws s of [] \<Rightarrow> None
      | c # t \<Rightarrow>
          if char_code c = 34 then map_option (\<lambda>(v, u). (JString v, u)) (parse_chars t)
          else if c = CHR ''['' then
            (if take 1 (skip_ws t) = '']'' then Some (JArray [], drop 1 (skip_ws t))
             else map_option (\<lambda>(xs, u). (JArray xs, u)) (parse_elements f t))
          else if c = CHR ''{'' then
            (if take 1 (skip_ws t) = ''}'' then Some (JObject [], drop 1 (skip_ws t))
             else map_option (\<lambda>(kvs, u). (JObject kvs, u)) (parse_members f [] t))
          else parse_literal (c # t))"
| "parse_elements 0 s = None"
| "parse_elements (Suc f) s =
     (case parse_value f s of None \<Rightarrow> None
      | Some (j, u) \<Rightarrow>
          (case skip_ws u of [] \<Rightarrow> None
           | c # t \<Rightarrow> if c = CHR '','' then prepend [j] (parse_elements f t)
               else if c = CHR '']'' then Some ([j], t) else None))"
| "parse_members 0 kvs s = None"
| "parse_members (Suc f) kvs s =
     (case parse_key s of None \<Rightarrow> None
      | Some (k, w) \<Rightarrow>
          (case parse_value f w of None \<Rightarrow> None
           | Some (j, u) \<Rightarrow>
               (case skip_ws u of [] \<Rightarrow> None
                | c # t \<Rightarrow> if c = CHR '','' then parse_members f (AList.update k j kvs) t
                    else if c = CHR ''}'' then Some (AList.update k j kvs, t) else None)))"

definition json_parse_text :: "string \<Rightarrow> json option" where
  "json_parse_text s =
     (case parse_value (2 * length s + 2) s of None \<Rightarrow> None
      | Some (j, u) \<Rightarrow> if skip_ws u = [] then Some j else None)"

end
