(* ===== verification/Demo_Platform.thy ===== *)
theory Demo_Platform
  imports Http_Client Js_Json
begin

text \<open>
  A concrete outside world, for evaluating the model on concrete inputs: a peer that answers every
  request with status 200 and the body {}, a clock that advances by one nanosecond per reading,
  and JSON.parse and JSON.stringify as its JSON library. Nothing in the model depends on it.
\<close>

definition demo_reply :: string where
  "demo_reply = ''HTTP/1.1 200 OK'' @ crlf @ ''Content-Length: 2'' @ crlf @ crlf @ ''{}''"

definition demo :: "int platform" where
  "demo = \<lparr>net_exchange = (\<lambda>host port timeout request now. (Replied demo_reply [], now)),
     steady_now = (\<lambda>now. (now, now + 1)),
     json_parse = json_parse_text,
     json_dump = json_stringify,
     authority_now = (\<lambda>now. (now, now))\<rparr>"

lemma parse_empty [simp]: "json_parse_text ''{}'' = Some (JObject [])"
  by (simp add: json_parse_text_def skip_ws_def numeral_eq_Suc char_code_def)

lemma demo_sel [simp]:
  "net_exchange demo h p t req now = (Replied demo_reply [], now)"
  "steady_now demo now = (now, now + 1)"
  "json_dump demo j = json_stringify j" "json_parse demo body = json_parse_text body"
  "authority_now demo now = (now, now)"
  by (simp_all add: demo_def)

lemma demo_response [simp]: "read_response demo_reply err = Inr ''{}''"
proof -
  have show2: "show_nat 2 = ''2''" by (subst show_nat.simps) code_simp
  have "header_length (''Content-Length: '' @ show_nat 2 @ [CHR 0x0D]) 0 = 2"
    by (rule header_length_content) simp
  moreover have "status_code ''HTTP/1.1 200 OK'' = 200" by code_simp
  ultimately show ?thesis
    using read_response_body [of "''HTTP/1.1 200 OK''" "[''Content-Length: 2'']" "''{}''" err]
    by (simp add: show2 demo_reply_def header_block_def clean_line_def)
qed

lemma demo_endpoint [simp]:
  "parseEndpoint ''http://10.0.0.1:80'' =
     Some \<lparr>ep_host = ''10.0.0.1'', ep_port = ''80'', ep_path = ''/streamscape_api''\<rparr>"
  by code_simp

lemma demo_post [simp]: "sendHttpPost demo ''http://10.0.0.1:80'' body timeout now = (Inr ''{}'', now)"
  by (simp add: sendHttpPost_def)


end
