(* ===== verification/Decibel.thy ===== *)
theory Decibel
  imports Double
begin

text \<open>
  The conversions between dBm and watts of silvus_adapter.cpp and api_gateway.cpp, with a bound
  for the rounding error of the whole computation on the power range of the radios, 0 to 39 dBm.
  From it: an integer number of dBm survives the way to watts and back, and every power between
  two configured bounds has an integer dBm value, so the adapter's cast to int is defined.
\<close>

definition dbmToWatts :: "double \<Rightarrow> double" where
  "dbmToWatts dbm = fpow10 (dbm / Fin 10) / Fin 1000"

definition wattsToDbmRaw :: "double \<Rightarrow> double" where
  "wattsToDbmRaw watts = Fin 10 * flog10 (watts * Fin 1000)"

abbreviation u15 :: real where "u15 \<equiv> 1 / 1000000000000000"

lemma eps_le: "2 powr (-53) \<le> u15" "2 powr (-1022) \<le> u15"
proof -
  have "2 powr (-53) = 1 / (2::real) ^ 53" by (simp add: powr_minus powr_numeral field_simps)
  also have "\<dots> \<le> u15" by simp
  finally show *: "2 powr (-53) \<le> u15" .
  have "(2::real) powr (-1022) \<le> 2 powr (-53)" by (rule powr_mono) auto
  with * show "2 powr (-1022) \<le> u15" by linarith
qed

lemma rnd_abs_error:
  assumes "\<bar>x\<bar> \<le> B"
  shows "\<bar>rnd x - x\<bar> \<le> (B + 1) * u15"
proof -
  have "\<bar>rnd x - x\<bar> \<le> (\<bar>x\<bar> + 2 powr (-1022)) * 2 powr (-53)" by (rule rnd_error_total)
  also have "\<dots> \<le> (B + 1) * u15"
    using assms eps_le by (intro mult_mono) (auto intro: order_trans)
  finally show ?thesis .
qed

lemma rnd_rel_error:
  assumes "u15 \<le> x"
  shows "x * (1 - u15) \<le> rnd x" "rnd x \<le> x * (1 + u15)"
proof -
  have x: "2 powr (-1022) \<le> \<bar>x\<bar>" using assms eps_le(2) by linarith
  have "\<bar>rnd x - x\<bar> \<le> \<bar>x\<bar> * 2 powr (-53)" by (rule rnd_error [OF x])
  also have "\<dots> \<le> x * u15" using assms eps_le(1) by (intro mult_mono) auto
  finally show "x * (1 - u15) \<le> rnd x" "rnd x \<le> x * (1 + u15)"
    unfolding abs_le_iff by (simp_all add: right_diff_distrib distrib_left)
qed

lemma ln_near_one:
  fixes r :: real
  assumes "1 - \<delta> \<le> r" "r \<le> 1 + \<delta>" "\<delta> \<le> 1/2"
  shows "\<bar>ln r\<bar> \<le> 2 * \<delta>"
proof -
  have r: "0 < r" using assms by linarith
  have "ln r \<le> r - 1" by (rule ln_le_minus_one [OF r])
  moreover have "- ln r \<le> 1 / r - 1"
    using ln_le_minus_one [of "1 / r"] r by (simp add: ln_div)
  moreover have "1 / r - 1 \<le> 2 * \<delta>"
  proof -
    have "0 \<le> \<delta> * (1 - 2 * \<delta>)" using assms by (intro mult_nonneg_nonneg) auto
    then have "1 \<le> (1 + 2 * \<delta>) * (1 - \<delta>)" by (simp add: algebra_simps)
    then have "1 \<le> (1 + 2 * \<delta>) * r" using assms mult_left_mono [of "1 - \<delta>" r "1 + 2 * \<delta>"] by linarith
    then show ?thesis using r by (simp add: field_simps)
  qed
  ultimately show ?thesis using assms by linarith
qed

lemma log10_near:
  assumes "0 < a" "a * (1 - \<delta>) \<le> v" "v \<le> a * (1 + \<delta>)" "0 \<le> \<delta>" "\<delta> \<le> 1/2"
  shows "\<bar>log 10 v - log 10 a\<bar> \<le> 2 * \<delta>"
proof -
  have v: "0 < v"
  proof -
    have "0 < a * (1 - \<delta>)" using assms by (intro mult_pos_pos) auto
    with assms(2) show ?thesis by linarith
  qed
  have r: "1 - \<delta> \<le> v / a" "v / a \<le> 1 + \<delta>" using assms by (simp_all add: field_simps)
  have "ln (exp 1) \<le> ln (10::real)" using exp_le by (subst ln_le_cancel_iff) auto
  then have ln10: "1 \<le> ln (10::real)" by simp
  have "\<bar>log 10 v - log 10 a\<bar> = \<bar>ln (v / a)\<bar> / ln 10"
    using assms(1) v by (simp add: log_def ln_div diff_divide_distrib [symmetric])
  also have "\<dots> \<le> \<bar>ln (v / a)\<bar>" using ln10 by (simp add: divide_le_eq mult_le_cancel_left1)
  also have "\<dots> \<le> 2 * \<delta>" by (rule ln_near_one) (use r assms in auto)
  finally show ?thesis .
qed

lemma dbmToWatts_mono: "x \<le> y \<Longrightarrow> y \<noteq> NaN \<Longrightarrow> dbmToWatts x \<le> dbmToWatts y"
  unfolding dbmToWatts_def
  by (cases "x = NaN") (auto intro!: fdiv_mono fpow10_mono simp: fpow10_not_NaN fdiv_not_NaN)

lemma dbmToWatts_not_NaN: "x \<noteq> NaN \<Longrightarrow> dbmToWatts x \<noteq> NaN"
  by (simp add: dbmToWatts_def fdiv_not_NaN fpow10_not_NaN)


lemma powr_q_bounds:
  assumes "0 \<le> d" "d \<le> 39" "\<bar>q - d / 10\<bar> \<le> 1 / 10"
  shows "10 powr (-1) \<le> 10 powr q" "10 powr q \<le> (10000::real)"
proof -
  have "(10::real) powr (-1) \<le> 10 powr q" by (rule powr_mono) (use assms in linarith)+
  then show "10 powr (-1) \<le> (10::real) powr q" .
  have "10 powr q \<le> (10::real) powr 4" by (rule powr_mono) (use assms in linarith)+
  then show "10 powr q \<le> (10000::real)" by (simp add: powr_numeral)
qed

text \<open>The error of the whole computation dBm to watts to dBm.\<close>

lemma dbm_watts_dbm_error:
  assumes "0 \<le> d" "d \<le> 39"
  shows "\<exists>w v. dbmToWatts (Fin d) = Fin w \<and> 1 / 100000 \<le> w \<and> w \<le> 100
    \<and> Fin w * Fin 1000 = Fin v \<and> 0 < v \<and> \<bar>log 10 v - d / 10\<bar> \<le> 1 / 10000000000"
proof -
  define q where "q = rnd (d / 10)"
  have q: "\<bar>q - d / 10\<bar> \<le> 5 * u15"
    using rnd_abs_error [of "d / 10" 4] assms by (simp add: q_def)
  define A where "A = (10::real) powr q"
  have A: "1 / 10 \<le> A" "A \<le> 10000"
    using powr_q_bounds [of d q] assms q by (simp_all add: A_def powr_minus)
  define p where "p = rnd A"
  have p: "A * (1 - u15) \<le> p" "p \<le> A * (1 + u15)"
    using rnd_rel_error [of A] A by (simp_all add: p_def)
  have p': "9 / 100 \<le> p" "p \<le> 10001" using p A by (simp_all add: field_simps)
  define w where "w = rnd (p / 1000)"
  have w: "p / 1000 * (1 - u15) \<le> w" "w \<le> p / 1000 * (1 + u15)"
    using rnd_rel_error [of "p / 1000"] p' by (simp_all add: w_def)
  have w': "1 / 100000 \<le> w" "w \<le> 100" using w p' by (simp_all add: field_simps)
  define v where "v = rnd (w * 1000)"
  have v: "w * 1000 * (1 - u15) \<le> v" "v \<le> w * 1000 * (1 + u15)"
    using rnd_rel_error [of "w * 1000"] w' by (simp_all add: v_def)
  have v': "0 < v" using v(1) w' by (simp add: field_simps)
  have "A * (1 - 10 * u15) \<le> v"
  proof -
    have "A * (1 - 10 * u15) \<le> A * (1 - u15) * (1 - u15) * (1 - u15)" using A by (simp add: field_simps)
    also have "\<dots> \<le> p * (1 - u15) * (1 - u15)" using p(1) by (intro mult_right_mono) auto
    also have "\<dots> \<le> w * 1000 * (1 - u15)" using w(1) by (simp add: field_simps)
    also have "\<dots> \<le> v" by (rule v(1))
    finally show ?thesis .
  qed
  moreover have "v \<le> A * (1 + 10 * u15)"
  proof -
    have "v \<le> w * 1000 * (1 + u15)" by (rule v(2))
    also have "\<dots> \<le> p * (1 + u15) * (1 + u15)" using w(2) by (simp add: field_simps)
    also have "\<dots> \<le> A * (1 + u15) * (1 + u15) * (1 + u15)" using p(2) by (intro mult_right_mono) auto
    also have "\<dots> \<le> A * (1 + 10 * u15)" using A by (simp add: field_simps)
    finally show ?thesis .
  qed
  ultimately have "\<bar>log 10 v - log 10 A\<bar> \<le> 2 * (10 * u15)"
    using A by (intro log10_near) auto
  then have "\<bar>log 10 v - q\<bar> \<le> 20 * u15" by (simp add: A_def)
  with q have "\<bar>log 10 v - d / 10\<bar> \<le> 20 * u15 + 5 * u15" by linarith
  then have "\<bar>log 10 v - d / 10\<bar> \<le> 1 / 10000000000" by simp
  moreover have "dbmToWatts (Fin d) = Fin w"
  proof -
    have "Fin d / Fin 10 = Fin q" using assms by (simp add: q_def rnd64_small)
    moreover have "fpow10 (Fin q) = Fin p" using A by (simp add: p_def rnd64_small flip: A_def)
    moreover have "Fin p / Fin 1000 = Fin w" using p' by (simp add: w_def rnd64_small)
    ultimately show ?thesis by (simp add: dbmToWatts_def)
  qed
  moreover have "Fin w * Fin 1000 = Fin v" using w' by (simp add: v_def rnd64_small)
  ultimately show ?thesis using w' v' by blast
qed


lemma wattsToDbmRaw_Fin:
  assumes "x * Fin 1000 = Fin v" "0 < v" "\<bar>log 10 v\<bar> \<le> 10"
  shows "wattsToDbmRaw x = Fin (rnd (10 * rnd (log 10 v)))"
    and "\<bar>rnd (10 * rnd (log 10 v)) - 10 * log 10 v\<bar> \<le> 1 / 10000000000"
proof -
  define l where "l = rnd (log 10 v)"
  have l: "\<bar>l - log 10 v\<bar> \<le> 11 * u15"
    using rnd_abs_error [OF assms(3)] by (simp add: l_def)
  then have l10: "\<bar>10 * l\<bar> \<le> 101" using assms(3) by linarith
  have "flog10 (Fin v) = Fin l" using assms(2,3) by (simp add: l_def rnd64_small)
  then show "wattsToDbmRaw x = Fin (rnd (10 * rnd (log 10 v)))"
    using l10 assms(1) by (simp add: wattsToDbmRaw_def rnd64_small flip: l_def)
  have "\<bar>rnd (10 * l) - 10 * l\<bar> \<le> 102 * u15" using rnd_abs_error [OF l10] by simp
  with l have "\<bar>rnd (10 * l) - 10 * log 10 v\<bar> \<le> 102 * u15 + 110 * u15" by linarith
  then show "\<bar>rnd (10 * rnd (log 10 v)) - 10 * log 10 v\<bar> \<le> 1 / 10000000000" by (simp add: l_def)
qed

lemma wattsToDbm_round_trip:
  assumes "0 \<le> d" "d \<le> 39"
  shows "\<exists>r. wattsToDbmRaw (dbmToWatts (Fin d)) = Fin r \<and> \<bar>r - d\<bar> \<le> 1 / 100000000"
proof -
  from dbm_watts_dbm_error [OF assms] obtain w v where
    w: "dbmToWatts (Fin d) = Fin w" "Fin w * Fin 1000 = Fin v" "0 < v"
      "\<bar>log 10 v - d / 10\<bar> \<le> 1 / 10000000000" by blast
  then have l: "\<bar>log 10 v\<bar> \<le> 10" using assms by linarith
  from wattsToDbmRaw_Fin [OF w(2,3) l] w(1,4) show ?thesis
    by (intro exI [of _ "rnd (10 * rnd (log 10 v))"] conjI) (simp, linarith)
qed

lemma dbm_int_round_trip:
  assumes "0 \<le> d" "d \<le> 39"
  shows "to_int32 (fround (wattsToDbmRaw (dbmToWatts (Fin (of_int d))))) = Some d"
proof -
  from wattsToDbm_round_trip [of "of_int d"] assms obtain r where
    r: "wattsToDbmRaw (dbmToWatts (Fin (of_int d))) = Fin r" "\<bar>r - of_int d\<bar> \<le> 1 / 100000000"
    by auto
  have "round_away r = d" by (rule round_away_close) (use r(2) in linarith)
  then show ?thesis using r(1) assms by (simp add: to_int32_of_int)
qed

text \<open>Every power between two configured bounds is sent as an integer between them.\<close>

lemma watts_in_range_dbm:
  assumes "0 \<le> lo" "hi \<le> 39" "dbmToWatts (Fin lo) \<le> w" "w \<le> dbmToWatts (Fin hi)" "lo \<le> hi"
  shows "\<exists>r. wattsToDbmRaw w = Fin r \<and> lo - 1 / 100000000 \<le> r \<and> r \<le> hi + 1 / 100000000"
proof -
  from dbm_watts_dbm_error [of lo] assms obtain wl vl where
    l: "dbmToWatts (Fin lo) = Fin wl" "1 / 100000 \<le> wl" "Fin wl * Fin 1000 = Fin vl" "0 < vl"
      "\<bar>log 10 vl - lo / 10\<bar> \<le> 1 / 10000000000" by auto
  from dbm_watts_dbm_error [of hi] assms obtain wh vh where
    h: "dbmToWatts (Fin hi) = Fin wh" "wh \<le> 100" "Fin wh * Fin 1000 = Fin vh" "0 < vh"
      "\<bar>log 10 vh - hi / 10\<bar> \<le> 1 / 10000000000" by auto
  from assms(3,4) l(1) h(1) obtain x where x: "w = Fin x" "wl \<le> x" "x \<le> wh" by (cases w) auto
  define v where "v = rnd (x * 1000)"
  have xv: "Fin x * Fin 1000 = Fin v"
    using x l(2) h(2) by (simp add: v_def rnd64_small)
  have "rnd64 (wl * 1000) \<le> rnd64 (x * 1000)" "rnd64 (x * 1000) \<le> rnd64 (wh * 1000)"
    using x by (auto intro!: rnd64_mono)
  then have v: "vl \<le> v" "v \<le> vh" using l(3) h(3) xv by auto
  have v0: "0 < v" using v l(4) by linarith
  have lg: "log 10 vl \<le> log 10 v" "log 10 v \<le> log 10 vh" using v v0 l(4) h(4) by auto
  then have lb: "\<bar>log 10 v\<bar> \<le> 10" using l(5) h(5) assms by linarith
  from wattsToDbmRaw_Fin [OF xv v0 lb] lg l(5) h(5) x(1) show ?thesis
    by (intro exI [of _ "rnd (10 * rnd (log 10 v))"] conjI) (simp, linarith+)
qed

lemma watts_in_range_to_int32:
  assumes "0 \<le> lo" "hi \<le> 39" "lo \<le> hi" "dbmToWatts (Fin lo) \<le> w" "w \<le> dbmToWatts (Fin hi)"
  shows "\<exists>n. to_int32 (fround (wattsToDbmRaw w)) = Some n \<and> \<lfloor>lo\<rfloor> \<le> n \<and> n \<le> \<lceil>hi\<rceil>"
proof -
  from watts_in_range_dbm [OF assms(1,2,4,5,3)] obtain r where
    r: "wattsToDbmRaw w = Fin r" "lo - 1 / 100000000 \<le> r" "r \<le> hi + 1 / 100000000" by blast
  define n where "n = round_away r"
  have n: "\<lfloor>lo\<rfloor> \<le> n" "n \<le> \<lceil>hi\<rceil>" using r(2,3) by (auto simp: n_def round_away_def) linarith+
  moreover have "0 \<le> n" "n \<le> 39" using n assms by linarith+
  ultimately show ?thesis using r(1) by (auto simp: to_int32_of_int simp flip: n_def)
qed

lemma fround_dbm_round_trip:
  assumes "0 \<le> d" "d \<le> 39"
  shows "fround (wattsToDbmRaw (dbmToWatts (Fin (of_int d)))) = Fin (of_int d)"
proof -
  from wattsToDbm_round_trip [of "of_int d"] assms obtain r where
    r: "wattsToDbmRaw (dbmToWatts (Fin (of_int d))) = Fin r" "\<bar>r - of_int d\<bar> \<le> 1 / 100000000"
    by auto
  have "round_away r = d" by (rule round_away_close) (use r(2) in linarith)
  then show ?thesis using r(1) by simp
qed

lemma dbmToWatts_pos:
  assumes "0 \<le> d" "d \<le> 39"
  shows "\<not> fle (dbmToWatts (Fin d)) (Fin 0)" "dbmToWatts (Fin d) \<noteq> NaN"
  using dbm_watts_dbm_error [OF assms] by auto

section \<open>Properties of the conversions\<close>



text \<open>C35. An integer number of dBm between 0 and 39 converted to watts in double arithmetic and back, then
  rounded and cast to int, is the same number, in spite of the four rounding errors on the way.\<close>

theorem dbm_watts_round_trip:
  assumes "0 \<le> d" "d \<le> 39"
  shows "fround (wattsToDbmRaw (dbmToWatts (Fin (of_int d)))) = Fin (of_int d) \<and>
    to_int32 (fround (wattsToDbmRaw (dbmToWatts (Fin (of_int d))))) = Some d"
  using fround_dbm_round_trip [OF assms] dbm_int_round_trip [OF assms] by blast

theorem dbm_watts_round_trip_witness: "to_int32 (fround (wattsToDbmRaw (dbmToWatts (Fin 39)))) = Some 39"
  using dbm_watts_round_trip [of 39] by simp

text \<open>Every power between two bounds of 0 to 39 dBm is sent as an integer number of dBm between the
  bounds rounded outwards, so the cast to int is always defined; NaN is the only double that passes the
  range check without being in the range.\<close>

theorem power_in_range_is_sendable:
  assumes "0 \<le> lo" "lo \<le> hi" "hi \<le> 39" "\<not> flt w (dbmToWatts (Fin lo))" "\<not> flt (dbmToWatts (Fin hi)) w" "w \<noteq> NaN"
  shows "\<exists>n. to_int32 (fround (wattsToDbmRaw w)) = Some n \<and> \<lfloor>lo\<rfloor> \<le> n \<and> n \<le> \<lceil>hi\<rceil>"
  by (rule watts_in_range_to_int32 [OF assms(1,3,2)])
    (use assms(4-6) dbmToWatts_not_NaN in \<open>simp_all add: not_flt_iff\<close>)

theorem power_in_range_is_sendable_witness:
  "\<exists>n. to_int32 (fround (wattsToDbmRaw (dbmToWatts (Fin (41 / 2))))) = Some n \<and> 10 \<le> n \<and> n \<le> 31"
proof -
  have "dbmToWatts (Fin (41 / 2)) \<noteq> NaN" by (simp add: dbmToWatts_not_NaN)
  moreover have "dbmToWatts (Fin 10) \<le> dbmToWatts (Fin (41 / 2))" "dbmToWatts (Fin (41 / 2)) \<le> dbmToWatts (Fin (61 / 2))"
    by (rule dbmToWatts_mono; simp)+
  ultimately show ?thesis
    using power_in_range_is_sendable [of 10 "61 / 2" "dbmToWatts (Fin (41 / 2))"]
    by (simp add: not_flt_iff dbmToWatts_not_NaN flt_def not_less)
qed

end
