(* ===== verification/Common_Types.thy ===== *)
theory Common_Types
  imports Double
begin

text \<open>
  The types of common/types.hpp and adapter/radio_adapter.hpp that every component exchanges:
  the result of an adapter call, the state of a radio, the capabilities of a radio.
\<close>

datatype CommandResultCode = Ok | InvalidRange | Busy | Unavailable | InternalError

fun result_code_to_string :: "CommandResultCode \<Rightarrow> string" where
  "result_code_to_string CommandResultCode.Ok = ''ok''"
| "result_code_to_string CommandResultCode.InvalidRange = ''invalid_range''"
| "result_code_to_string CommandResultCode.Busy = ''busy''"
| "result_code_to_string CommandResultCode.Unavailable = ''unavailable''"
| "result_code_to_string CommandResultCode.InternalError = ''internal''"

record adapter_result =
  ar_code :: CommandResultCode
  ar_message :: string
  ar_vendor_payload :: "string option"

datatype RadioStatus = Offline | Discovering | Ready | Busy | Recovering

fun status_to_string :: "RadioStatus \<Rightarrow> string" where
  "status_to_string RadioStatus.Offline = ''offline''"
| "status_to_string RadioStatus.Discovering = ''discovering''"
| "status_to_string RadioStatus.Ready = ''ready''"
| "status_to_string RadioStatus.Busy = ''busy''"
| "status_to_string RadioStatus.Recovering = ''recovering''"

record radio_state =
  rs_status :: RadioStatus
  rs_channel_index :: "int option"
  rs_power_watts :: "double option"

definition default_radio_state :: radio_state where
  "default_radio_state =
     \<lparr>rs_status = RadioStatus.Offline, rs_channel_index = None, rs_power_watts = None\<rparr>"

record capability_info =
  supported_frequencies_mhz :: "double list"
  power_range_watts :: "double \<times> double"
  enable_max_power :: "bool option"
  manual_power_control_available :: bool
  power_range_source :: string

definition default_capability_info :: capability_info where
  "default_capability_info =
     \<lparr>supported_frequencies_mhz = [], power_range_watts = (Fin 0, Fin 0), enable_max_power = None,
      manual_power_control_available = True, power_range_source = ''vendor_default''\<rparr>"

section \<open>Error codes of the core API\<close>

text \<open>core/types.hpp and core/types.cpp.\<close>

datatype ErrorCode = Ok | BadRequest | InvalidRange | Busy | Unavailable | Internal

fun error_code_to_string :: "ErrorCode \<Rightarrow> string" where
  "error_code_to_string ErrorCode.Ok = ''OK''"
| "error_code_to_string ErrorCode.BadRequest = ''BAD_REQUEST''"
| "error_code_to_string ErrorCode.InvalidRange = ''INVALID_RANGE''"
| "error_code_to_string ErrorCode.Busy = ''BUSY''"
| "error_code_to_string ErrorCode.Unavailable = ''UNAVAILABLE''"
| "error_code_to_string ErrorCode.Internal = ''INTERNAL''"

lemma error_code_to_string_inj: "error_code_to_string c = error_code_to_string d \<Longrightarrow> c = d"
  by (cases c; cases d) simp_all

end
