(* ===== verification/Silvus_Wire.thy ===== *)
theory Silvus_Wire
  imports Demo_Platform Decibel Common_Types
begin

text \<open>
  The payload level of the Silvus JSON-RPC protocol in silvus_adapter.cpp: numbers as the radio
  expects them, vendor errors mapped to result codes, and the scalar results of power_dBm, freq
  and enable_max_power.
\<close>

fun strip_zeros :: "string \<Rightarrow> string" where
  "strip_zeros (c # d # r) = (if c = CHR ''0'' then strip_zeros (d # r) else c # d # r)"
| "strip_zeros r = r"

definition formatSilvusNumber :: "double \<Rightarrow> string" where
  "formatSilvusNumber value =
     (let text = rev (strip_zeros (rev (fixed6 value)))
      in if text \<noteq> [] \<and> last text = CHR ''.'' then butlast text else text)"


lemma strip_zeros_dot:
  "r \<noteq> [] \<Longrightarrow> strip_zeros (zs @ CHR ''.'' # r) = dropWhile (\<lambda>c. c = CHR ''0'') zs @ CHR ''.'' # r"
proof (induction zs)
  case Nil
  then show ?case by (cases r) simp_all
next
  case (Cons z zs)
  then show ?case by (cases "zs @ CHR ''.'' # r") auto
qed

lemma trailing_zeros:
  "\<exists>k. fp = rev (dropWhile (\<lambda>c. c = CHR ''0'') (rev fp)) @ replicate k CHR ''0''"
proof -
  let ?z = "takeWhile (\<lambda>c. c = CHR ''0'') (rev fp)" and ?d = "dropWhile (\<lambda>c. c = CHR ''0'') (rev fp)"
  have "?z = replicate (length ?z) CHR ''0''"
    by (rule replicate_eqI) (auto dest: set_takeWhileD)
  moreover have "fp = rev ?d @ rev ?z" by (metis rev_append rev_rev_ident takeWhile_dropWhile_id)
  ultimately show ?thesis by (metis rev_replicate)
qed

lemma format_plain:
  assumes "ip \<noteq> []" "list_all isdigit fp"
  shows "\<exists>fp' k. fp = fp' @ replicate k CHR ''0'' \<and>
    (let text = rev (strip_zeros (rev (ip @ ''.'' @ fp)))
      in if text \<noteq> [] \<and> last text = CHR ''.'' then butlast text else text) =
    (if fp' = [] then ip else ip @ CHR ''.'' # fp')"
proof -
  define fp' where "fp' = rev (dropWhile (\<lambda>c. c = CHR ''0'') (rev fp))"
  obtain k where k: "fp = fp' @ replicate k CHR ''0''" using trailing_zeros [of fp] by (auto simp: fp'_def)
  have "rev (ip @ ''.'' @ fp) = rev fp @ CHR ''.'' # rev ip" by simp
  then have "rev (strip_zeros (rev (ip @ ''.'' @ fp))) = ip @ CHR ''.'' # fp'"
    using assms by (simp only: strip_zeros_dot) (simp add: strip_zeros_dot fp'_def)
  moreover have "fp' \<noteq> [] \<longrightarrow> last fp' \<noteq> CHR ''.''"
    using assms(2) k isdigit_facts(4) by (cases fp' rule: rev_cases) auto
  ultimately show ?thesis using k by (intro exI [of _ fp'] exI [of _ k]) (auto simp: Let_def butlast_append)
qed


lemma stod_plain_text:
  assumes "list_all isdigit ip" "ip \<noteq> []" "list_all isdigit fp" "fp = fp' @ replicate k CHR ''0''"
  shows "stod (if fp' = [] then ip else ip @ CHR ''.'' # fp') =
    range_checked (of_nat (digits_value 10 (ip @ fp)) / 10 ^ length fp)"
proof (cases "fp' = []")
  case True
  then have "real (digits_value 10 (ip @ fp)) / 10 ^ length fp = of_nat (digits_value 10 ip)"
    using assms(4) by (simp add: digits_value_append)
  then show ?thesis
    using True stod_digits [OF assms(1,2), of "[]"] strtod_mag_plain(1) [OF assms(1-3)] by simp
next
  case False
  have fp': "list_all isdigit fp'" using assms(3,4) by simp
  have "real (digits_value 10 (ip @ fp)) / 10 ^ length fp =
    real (digits_value 10 (ip @ fp')) / 10 ^ length fp'"
    using assms(4) by (simp add: digits_value_append power_add field_simps)
  then show ?thesis
    using False stod_digits [OF assms(1,2), of "CHR ''.'' # fp'"] strtod_mag_plain(2) [OF assms(1,2) fp']
    by (simp add: tolower_def char_code_def)
qed

lemma fixed6_of_micro:
  assumes "n \<le> 10 ^ 14"
  shows "rnd64 (real n / 10 ^ 6) = Fin (rnd (real n / 10 ^ 6))"
    and "fixed6 (Fin (rnd (real n / 10 ^ 6))) = show_nat (n div 10 ^ 6) @ ''.'' @ pad6 (n mod 10 ^ 6)"
proof -
  have "real n \<le> real (10 ^ 14)" using assms by (simp only: of_nat_le_iff)
  then have n: "real n \<le> 10 ^ 14" by simp
  then show "rnd64 (real n / 10 ^ 6) = Fin (rnd (real n / 10 ^ 6))"
    by (intro rnd64_small) simp
  have "\<bar>rnd (real n / 10 ^ 6) * 10 ^ 6 - of_int (int n)\<bar> < 1/2"
  proof (cases "n = 0")
    case False
    then have "u15 \<le> real n / 1000000" by simp
    from rnd_rel_error [OF this]
    have "real n * 999999999999999 \<le> rnd (real n / 1000000) * 1000000000000000000000"
      "rnd (real n / 1000000) * 1000000000000000000000 \<le> real n * 1000000000000001"
      by (simp_all add: field_simps)
    then show ?thesis using n unfolding abs_less_iff by simp
  qed simp
  from rne_close [OF this] have r: "rne (\<bar>rnd (real n / 10 ^ 6)\<bar> * 10 ^ 6) = int n"
    using rnd_nonneg [of "real n / 10 ^ 6"] by simp
  show "fixed6 (Fin (rnd (real n / 10 ^ 6))) = show_nat (n div 10 ^ 6) @ ''.'' @ pad6 (n mod 10 ^ 6)"
    using rnd_nonneg [of "real n / 10 ^ 6"] by (simp only: fixed6.simps r Let_def nat_int) simp
qed

lemma format_stod_round_trip:
  assumes "n \<le> 10 ^ 14"
  shows "stod (formatSilvusNumber (rnd64 (real n / 10 ^ 6))) = Some (rnd64 (real n / 10 ^ 6))"
proof -
  let ?ip = "show_nat (n div 10 ^ 6)" and ?fp = "pad6 (n mod 10 ^ 6)"
  have ip: "list_all isdigit ?ip" "?ip \<noteq> []" using show_nat_props by auto
  have fp: "list_all isdigit ?fp" "length ?fp = 6" "digits_value 10 ?fp = n mod 10 ^ 6"
    by (rule pad6_props, simp)+
  obtain fp' k where k: "?fp = fp' @ replicate k CHR ''0''"
    "formatSilvusNumber (rnd64 (real n / 10 ^ 6)) = (if fp' = [] then ?ip else ?ip @ CHR ''.'' # fp')"
    using format_plain [OF ip(2) fp(1)] fixed6_of_micro [OF assms]
    unfolding formatSilvusNumber_def by metis
  have "digits_value 10 (?ip @ ?fp) = n"
    using fp by (simp add: digits_value_append)
  then have "stod (formatSilvusNumber (rnd64 (real n / 10 ^ 6))) = range_checked (real n / 10 ^ 6)"
    unfolding k(2) using stod_plain_text [OF ip fp(1) k(1)] fp(2) by simp
  also have "\<dots> = Some (rnd64 (real n / 10 ^ 6))"
  proof (rule range_checked_ok)
    have "real n \<le> real (10 ^ 14)" using assms by (simp only: of_nat_le_iff)
    then have "real n / 10 ^ 6 \<le> 2 powr 30" by (simp add: powr_numeral)
    also have "\<dots> \<le> 2 powr 1023" by (rule powr_mono) auto
    finally show "real n / 10 ^ 6 \<le> 2 powr 1023" .
    have "n \<noteq> 0 \<Longrightarrow> 2 powr (-1022) \<le> real n / 10 ^ 6" using eps_le(2) by (auto intro: order_trans)
    then show "real n / 10 ^ 6 = 0 \<or> 2 powr (-1022) \<le> real n / 10 ^ 6" by auto
  qed
  finally show ?thesis .
qed


section \<open>Vendor errors\<close>

definition uppercase :: "string \<Rightarrow> string" where
  "uppercase text = map toupper text"

definition extractVendorMessage :: "'e platform \<Rightarrow> json \<Rightarrow> string" where
  "extractVendorMessage P err =
     (case err of
        JString s \<Rightarrow> s
      | JObject kvs \<Rightarrow>
          (case json_find ''message'' err of
             Some (JString m) \<Rightarrow> m
           | _ \<Rightarrow>
               (case json_find ''code'' err of
                  Some (JString c) \<Rightarrow> c
                | Some (JInt i) \<Rightarrow> show_int (int32_of i)
                | _ \<Rightarrow> json_dump P err))
      | _ \<Rightarrow> json_dump P err)"

definition range_words :: "string list" where
  "range_words = [''OUT_OF_RANGE'', ''INVALID_RANGE'', ''INVALID PARAM'', ''INVALID_PARAMS'',
     ''-32002'', ''-32602'']"

definition busy_words :: "string list" where
  "busy_words = [''BUSY'', ''RECOVER'']"

definition unavailable_words :: "string list" where
  "unavailable_words = [''UNAVAILABLE'', ''REBOOT'', ''BOOT'', ''DISCONNECT'', ''TIMEOUT'', ''-32000'']"

definition mentions :: "string list \<Rightarrow> string \<Rightarrow> bool" where
  "mentions ws text \<longleftrightarrow> list_ex (\<lambda>w. str_contains w text) ws"

definition normalizeSilvusError :: "'e platform \<Rightarrow> json \<Rightarrow> adapter_result" where
  "normalizeSilvusError P err =
     (let payload = json_dump P err;
          message = extractVendorMessage P err;
          normalized = uppercase (message @ '' '' @ payload);
          code = (if mentions range_words normalized then CommandResultCode.InvalidRange
                  else if mentions busy_words normalized then CommandResultCode.Busy
                  else if mentions unavailable_words normalized then CommandResultCode.Unavailable
                  else CommandResultCode.InternalError)
      in \<lparr>ar_code = code, ar_message = message, ar_vendor_payload = Some payload\<rparr>)"

section \<open>Scalar results\<close>

definition first_result :: "json \<Rightarrow> json option" where
  "first_result response =
     (case json_find ''result'' response of Some (JArray (r # _)) \<Rightarrow> Some r | _ \<Rightarrow> None)"

definition parsePowerResult :: "json \<Rightarrow> int option" where
  "parsePowerResult response =
     (case first_result response of
        Some (JString s) \<Rightarrow> stoi s
      | Some (JInt i) \<Rightarrow> Some (int32_of i)
      | _ \<Rightarrow> None)"

definition parseBooleanResult :: "json \<Rightarrow> bool option" where
  "parseBooleanResult response =
     (case first_result response of
        Some (JBool b) \<Rightarrow> Some b
      | Some (JInt i) \<Rightarrow> Some (int32_of i \<noteq> 0)
      | Some (JString s) \<Rightarrow>
          (let text = map tolower s
           in if text \<in> {''1'', ''true'', ''enabled'', ''on''} then Some True
              else if text \<in> {''0'', ''false'', ''disabled'', ''off''} then Some False
              else None)
      | _ \<Rightarrow> None)"

definition parseFrequencyResult :: "json \<Rightarrow> double option" where
  "parseFrequencyResult response =
     (case first_result response of
        Some (JString s) \<Rightarrow> stod s
      | Some j \<Rightarrow> json_number j
      | None \<Rightarrow> None)"

section \<open>Properties of the payload level\<close>



text \<open>Frequencies survive the wire: a value of up to 10^14 millionths of a megahertz, printed with six
  decimals and stripped of trailing zeros, is read back by std::stod as the very same double.\<close>

theorem frequency_text_round_trip:
  assumes "n \<le> 10 ^ 14"
  shows "stod (formatSilvusNumber (rnd64 (real n / 10 ^ 6))) = Some (rnd64 (real n / 10 ^ 6))"
  by (rule format_stod_round_trip [OF assms])

theorem frequency_text_round_trip_witness:
  "stod (formatSilvusNumber (Fin 2437)) = Some (Fin 2437)"
  using frequency_text_round_trip [of 2437000000] by simp

text \<open>Vendor errors are classified by their words in any letter case, range before busy before
  unavailable: a range word in the message decides alone, and a message and payload without any known
  word is an internal error. The vendor's own text and payload are kept, and no error ever becomes Ok.\<close>

theorem vendor_error_classes:
  "let r = normalizeSilvusError P err; m = uppercase (extractVendorMessage P err);
       all = uppercase (extractVendorMessage P err @ '' '' @ json_dump P err) in
     ar_message r = extractVendorMessage P err \<and> ar_vendor_payload r = Some (json_dump P err) \<and>
     ar_code r \<noteq> CommandResultCode.Ok \<and>
     (mentions range_words m \<longrightarrow> ar_code r = CommandResultCode.InvalidRange) \<and>
     (\<not> mentions range_words all \<and> mentions busy_words m \<longrightarrow> ar_code r = CommandResultCode.Busy) \<and>
     (\<not> mentions (range_words @ busy_words) all \<and> mentions unavailable_words m \<longrightarrow>
        ar_code r = CommandResultCode.Unavailable) \<and>
     (\<not> mentions (range_words @ busy_words @ unavailable_words) all \<longleftrightarrow> ar_code r = CommandResultCode.InternalError)"
proof -
  have up: "mentions ws (uppercase (a @ b))" if "mentions ws (uppercase a)" for ws a b
    using that str_contains_append [of _ "uppercase a" "[]"] by (auto simp: mentions_def list_ex_iff uppercase_def)
  have app: "mentions (ws @ vs) t \<longleftrightarrow> mentions ws t \<or> mentions vs t" for ws vs t by (simp add: mentions_def)
  show ?thesis
    using up by (auto simp: normalizeSilvusError_def Let_def app)
qed

theorem vendor_error_classes_witness:
  "ar_code (normalizeSilvusError (demo\<lparr>json_dump := (\<lambda>j. ''{}'')\<rparr>) (JObject [(''message'', JString ''Radio busy, try later'')])) = CommandResultCode.Busy"
proof -
  have "extractVendorMessage (demo\<lparr>json_dump := (\<lambda>j. ''{}'')\<rparr>) (JObject [(''message'', JString ''Radio busy, try later'')]) = ''Radio busy, try later''"
    by (simp add: extractVendorMessage_def)
  moreover have "mentions busy_words (uppercase ''Radio busy, try later'')"
    "\<not> mentions range_words (uppercase (''Radio busy, try later'' @ '' '' @ ''{}''))" by code_simp+
  ultimately show ?thesis
    using vendor_error_classes [of "demo\<lparr>json_dump := (\<lambda>j. ''{}'')\<rparr>" "JObject [(''message'', JString ''Radio busy, try later'')]"]
    by (simp add: Let_def)
qed

end
