(* ===== verification/Frequency_Profiles.thy ===== *)
theory Frequency_Profiles
  imports Silvus_Wire
begin

text \<open>
  The frequencies a radio advertises (supported_frequency_profiles), expanded from "lo:step:hi"
  ranges and single values, sorted and made unique, and the lookup of a channel by frequency with
  the tolerance of 1 kHz. std::sort on a list that mixes NaN with numbers has no strict weak
  ordering, which is undefined behaviour: sort_unique is None there. The lemmas show that a range
  of whole megahertz is exactly its grid and that each frequency of such a list is found at its
  own index.
\<close>

section \<open>Frequency profiles\<close>

definition expand_range :: "double \<Rightarrow> double \<Rightarrow> double \<Rightarrow> double list option" where
  "expand_range start step end' =
     (if fle step (Fin 0) \<or> flt end' start then Some []
      else do {
        count \<leftarrow> to_int32 (ffloor ((end' - start) / step + Fin (1/2)));
        if count = 2 ^ 31 - 1 then None
        else Some (filter (\<lambda>value. fle value (end' + lit (1 / 1000000)))
                     (map (\<lambda>i. start + step * Fin (of_int i)) [0..count]))
      })"

definition addFrequencySpec :: "double list \<Rightarrow> string \<Rightarrow> double list option" where
  "addFrequencySpec freqs text =
     (case str_find CHR '':'' text of
        None \<Rightarrow> (case stod text of None \<Rightarrow> Some freqs | Some v \<Rightarrow> Some (freqs @ [v]))
      | Some firstColon \<Rightarrow>
          let tail = drop (firstColon + 1) text
          in (case str_find CHR '':'' tail of
                None \<Rightarrow> Some freqs
              | Some second \<Rightarrow>
                  if CHR '':'' \<in> set (drop (second + 1) tail) then Some freqs
                  else (case (stod (take firstColon text), stod (take second tail),
                              stod (drop (second + 1) tail)) of
                          (Some start, Some step, Some end') \<Rightarrow>
                            map_option (\<lambda>vs. freqs @ vs) (expand_range start step end')
                        | _ \<Rightarrow> Some freqs)))"

fun add_specs :: "double list \<Rightarrow> string list \<Rightarrow> double list option" where
  "add_specs freqs [] = Some freqs"
| "add_specs freqs (t # ts) = do { freqs' \<leftarrow> addFrequencySpec freqs t; add_specs freqs' ts }"

definition item_specs :: "json \<Rightarrow> string list" where
  "item_specs item =
     (case json_find ''frequencies'' item of
        Some (JArray entries) \<Rightarrow>
          concat (map (\<lambda>entry. case entry of JString s \<Rightarrow> [s] | _ \<Rightarrow> []) entries)
      | _ \<Rightarrow> [])"

definition sort_unique :: "double list \<Rightarrow> double list option" where
  "sort_unique freqs =
     (if NaN \<notin> set freqs then Some (remdups_adj (sort freqs))
      else if list_all (\<lambda>f. f = NaN) freqs then Some freqs else None)"

definition parseSupportedFrequencies :: "json \<Rightarrow> double list option" where
  "parseSupportedFrequencies response =
     (case json_find ''result'' response of
        Some (JArray items) \<Rightarrow>
          do { freqs \<leftarrow> add_specs [] (concat (map item_specs items)); sort_unique freqs }
      | _ \<Rightarrow> Some [])"

fun find_index_from :: "int \<Rightarrow> double list \<Rightarrow> double \<Rightarrow> int option" where
  "find_index_from i [] f = None"
| "find_index_from i (x # xs) f =
     (if flt \<bar>x - f\<bar> (lit (1 / 1000)) then Some (i + 1) else find_index_from (i + 1) xs f)"

definition findChannelIndex :: "capability_info \<Rightarrow> double \<Rightarrow> int option" where
  "findChannelIndex caps frequencyMhz =
     find_index_from 0 (supported_frequencies_mhz caps) frequencyMhz"

section \<open>Channel lookup\<close>

definition same_channel :: "double \<Rightarrow> double \<Rightarrow> bool" where
  "same_channel x f \<longleftrightarrow> flt \<bar>x - f\<bar> (lit (1 / 1000))"

lemma find_index_from_Some:
  "find_index_from i xs f = Some c \<Longrightarrow>
   \<exists>k < length xs. c = i + int k + 1 \<and> same_channel (xs ! k) f \<and> (\<forall>j < k. \<not> same_channel (xs ! j) f)"
proof (induction xs arbitrary: i)
  case (Cons x xs)
  show ?case
  proof (cases "same_channel x f")
    case True
    with Cons.prems show ?thesis by (intro exI [of _ 0]) (auto simp: same_channel_def)
  next
    case False
    with Cons obtain k where "k < length xs" "c = i + 1 + int k + 1" "same_channel (xs ! k) f"
      "\<forall>j < k. \<not> same_channel (xs ! j) f" by (fastforce simp: same_channel_def)
    with False show ?thesis
      by (intro exI [of _ "Suc k"]) (auto simp: less_Suc_eq_0_disj)
  qed
qed simp

lemma find_index_from_None:
  "find_index_from i xs f = None \<longleftrightarrow> (\<forall>x \<in> set xs. \<not> same_channel x f)"
  by (induction xs arbitrary: i) (auto simp: same_channel_def)

lemma findChannelIndex_Some:
  assumes "findChannelIndex caps f = Some c"
  shows "1 \<le> c" "c \<le> int (length (supported_frequencies_mhz caps))"
    "same_channel (supported_frequencies_mhz caps ! (nat c - 1)) f"
    "\<And>j. j < nat c - 1 \<Longrightarrow> \<not> same_channel (supported_frequencies_mhz caps ! j) f"
  using find_index_from_Some [of 0 _ f c] assms
  by (fastforce simp: findChannelIndex_def nat_add_distrib)+

lemma findChannelIndex_None:
  "findChannelIndex caps f = None \<longleftrightarrow> (\<forall>x \<in> set (supported_frequencies_mhz caps). \<not> same_channel x f)"
  by (simp add: findChannelIndex_def find_index_from_None)

lemma lit_milli_pos: "flt (Fin 0) (lit (1 / 1000))" "lit (1 / 1000) \<le> Fin (1 / 2)"
proof -
  have "rnd64 (1 / 1000) = Fin (rnd (1 / 1000))" by (rule rnd64_small) simp
  moreover have "0 < rnd (1 / 1000)" using rnd_rel_error(1) [of "1 / 1000"] by simp
  moreover have "rnd (1 / 1000) \<le> 1 / 2" using rnd_rel_error(2) [of "1 / 1000"] by simp
  ultimately show "flt (Fin 0) (lit (1 / 1000))" "lit (1 / 1000) \<le> Fin (1 / 2)" by (simp_all add: lit_def)
qed

lemma same_channel_refl [simp]: "same_channel (Fin x) (Fin x)"
  using lit_milli_pos by (simp add: same_channel_def)

lemma same_channel_ints:
  assumes "\<bar>a\<bar> \<le> 2 ^ 52" "\<bar>b\<bar> \<le> 2 ^ 52" "same_channel (Fin (of_int a)) (Fin (of_int b))"
  shows "a = b"
proof -
  have "Fin (of_int a) - Fin (of_int b) = Fin (of_int (a - b))"
    by (rule Fin_int_arith) (use assms in auto)
  with assms(3) have "Fin \<bar>of_int (a - b)\<bar> < lit (1 / 1000)"
    unfolding same_channel_def flt_def by (metis abs_double.simps(1))
  also note lit_milli_pos(2)
  finally have "\<bar>real_of_int (a - b)\<bar> < 1 / 2" by simp
  then have "\<bar>a - b\<bar> < 1" by linarith
  then show ?thesis by simp
qed

section \<open>Frequency ranges over whole megahertz\<close>

lemma rnd_half_int:
  assumes "\<bar>2 * m + 1\<bar> \<le> 2 ^ 53"
  shows "rnd (of_int m + 1 / 2) = of_int m + 1 / 2"
  by (rule rnd_exact [where m = "2 * m + 1" and k = "-1"]) (use assms in \<open>auto simp: powr_minus\<close>)

lemma range_count:
  assumes "0 \<le> d" "d \<le> 2 ^ 51" "(0::int) < st"
  shows "\<exists>q. ffloor (Fin (of_int d) / Fin (of_int st) + Fin (1/2)) = Fin (of_int q)
    \<and> (q = d div st \<or> q = d div st + 1)"
proof -
  define k where "k = d div st"
  have "d = k * st + d mod st" by (simp add: k_def)
  moreover have "0 \<le> d mod st" "d mod st < st" using assms(3) by simp_all
  moreover have "(k + 1) * st = k * st + st" by (simp add: algebra_simps)
  ultimately have kst: "k * st \<le> d" "d < (k + 1) * st" by linarith+
  have k0: "0 \<le> k" using assms by (simp add: k_def pos_imp_zdiv_nonneg_iff)
  then have "k \<le> 2 ^ 51" using kst(1) assms mult_left_mono [of 1 st k] by linarith
  note k = k0 this
  from kst have "real_of_int (k * st) \<le> of_int d" "real_of_int d < of_int ((k + 1) * st)"
    by (simp_all only: of_int_le_iff of_int_less_iff)
  then have q: "of_int k \<le> real_of_int d / of_int st" "real_of_int d / of_int st \<le> of_int (k + 1)"
    using assms(3) by (simp_all add: field_simps)
  define r where "r = rnd (of_int d / of_int st)"
  have r: "of_int k \<le> r" "r \<le> of_int (k + 1)"
    using rnd_mono [OF q(1)] rnd_mono [OF q(2)] k rnd_exact_int [of k] rnd_exact_int [of "k + 1"]
    by (simp_all add: r_def)
  define s where "s = rnd (r + 1 / 2)"
  have s: "of_int k + 1 / 2 \<le> s" "s \<le> of_int (k + 1) + 1 / 2"
    using rnd_mono [of "of_int k + 1/2" "r + 1/2"] rnd_mono [of "r + 1/2" "of_int (k + 1) + 1/2"]
      r k rnd_half_int [of k] rnd_half_int [of "k + 1"] by (simp_all add: s_def)
  have kr: "\<bar>real_of_int k\<bar> \<le> 2 ^ 51"
  proof -
    have "real_of_int k \<le> of_int (2 ^ 51)" using k by (simp only: of_int_le_iff)
    then show ?thesis using k by simp
  qed
  have "Fin (of_int d) / Fin (of_int st) = Fin r"
    using assms q kr by (simp add: r_def rnd64_small)
  moreover have "Fin r + Fin (1/2) = Fin s" using r kr by (simp add: s_def rnd64_small)
  moreover have "\<lfloor>s\<rfloor> = k \<or> \<lfloor>s\<rfloor> = k + 1" using s by linarith
  ultimately show ?thesis by (auto simp: k_def)
qed


lemma grid_value:
  assumes "0 \<le> lo" "0 < st" "0 \<le> i" "lo + st * i \<le> 2 ^ 53"
  shows "Fin (of_int lo) + Fin (of_int st) * Fin (of_int i) = Fin (of_int (lo + st * i))"
proof -
  have "0 \<le> st * i" using assms by simp
  then show ?thesis using assms by (subst Fin_int_arith; simp only: Fin_int_arith)
qed

lemma tolerance:
  assumes "0 \<le> hi" "hi \<le> 2 ^ 51"
  shows "fle (Fin (of_int v)) (Fin (of_int hi) + lit (1 / 1000000)) \<longleftrightarrow> v \<le> hi"
proof -
  define t where "t = rnd (1 / 1000000)"
  have t: "0 \<le> t" "t \<le> 1 / 2"
    using rnd_nonneg [of "1 / 1000000"] rnd_rel_error(2) [of "1 / 1000000"] by (simp_all add: t_def)
  have hir: "0 \<le> real_of_int hi" "real_of_int hi \<le> 2 ^ 51"
    using assms by (simp, metis of_int_le_iff of_int_numeral of_int_power)
  have "lit (1 / 1000000) = Fin t" by (simp add: lit_def t_def rnd64_small)
  moreover have "Fin (of_int hi) + Fin t = Fin (rnd (of_int hi + t))"
    using t hir by (simp add: rnd64_small)
  moreover have "of_int hi \<le> rnd (of_int hi + t)" "rnd (of_int hi + t) \<le> of_int hi + 1 / 2"
    using rnd_mono [of "of_int hi" "of_int hi + t"] rnd_mono [of "of_int hi + t" "of_int hi + 1/2"]
      t assms rnd_exact_int [of hi] rnd_half_int [of hi] by simp_all
  ultimately show ?thesis by simp linarith
qed

text \<open>Over whole megahertz the expansion is exactly the grid points up to the end.\<close>

lemma expand_range_ints:
  assumes "0 \<le> lo" "lo \<le> hi" "0 < st" "hi + st \<le> 2 ^ 51" "(hi - lo) div st < 2 ^ 31 - 2"
  shows "expand_range (Fin (of_int lo)) (Fin (of_int st)) (Fin (of_int hi)) =
    Some (map (\<lambda>i. Fin (of_int (lo + st * i))) [0..(hi - lo) div st])"
proof -
  define k where "k = (hi - lo) div st"
  have k0: "0 \<le> k" using assms by (simp add: k_def pos_imp_zdiv_nonneg_iff)
  have "hi - lo = st * k + (hi - lo) mod st" by (simp add: k_def)
  moreover have "0 \<le> (hi - lo) mod st" "(hi - lo) mod st < st" using assms(3) by simp_all
  moreover have e: "st * (k + 1) = st * k + st" by (simp add: algebra_simps)
  ultimately have k: "lo + st * k \<le> hi" "hi < lo + st * (k + 1)" by linarith+
  obtain q where q: "ffloor (Fin (of_int (hi - lo)) / Fin (of_int st) + Fin (1/2)) = Fin (of_int q)"
    "q = k \<or> q = k + 1"
    using range_count [of "hi - lo" st] assms unfolding k_def by auto
  have sub: "Fin (of_int hi) - Fin (of_int lo) = Fin (of_int (hi - lo))"
    by (rule Fin_int_arith) (use assms in auto)
  have vals: "map (\<lambda>i. Fin (of_int lo) + Fin (of_int st) * Fin (of_int i)) [0..q] =
    map (\<lambda>i. Fin (of_int (lo + st * i))) [0..q]"
  proof (intro map_cong refl grid_value)
    fix i assume i: "i \<in> set [0..q]"
    then have "st * i \<le> st * (k + 1)" using q(2) assms by (intro mult_left_mono) auto
    then show "lo + st * i \<le> 2 ^ 53" using k(1) e assms(4) by simp
  qed (use assms in auto)
  have keep: "fle (Fin (of_int (lo + st * i))) (Fin (of_int hi) + lit (1 / 1000000)) \<longleftrightarrow> i \<le> k"
    if "i \<le> q" for i
  proof -
    have "lo + st * i \<le> hi \<longleftrightarrow> i \<le> k"
    proof
      assume "i \<le> k"
      then have "st * i \<le> st * k" using assms by (intro mult_left_mono) auto
      then show "lo + st * i \<le> hi" using k(1) by linarith
    next
      assume *: "lo + st * i \<le> hi"
      show "i \<le> k"
      proof (rule ccontr)
        assume "\<not> i \<le> k"
        then have "st * (k + 1) \<le> st * i" using assms by (intro mult_left_mono) auto
        then show False using k(2) * by linarith
      qed
    qed
    then show ?thesis using tolerance [of hi "lo + st * i"] assms by simp
  qed
  have "[0..q] = [0..k] @ (if q = k then [] else [k + 1])"
    using q(2) k0 by (auto simp: upto_rec2)
  then have filt: "filter (\<lambda>i. i \<le> k) [0..q] = [0..k]" by simp
  have "filter (\<lambda>v. fle v (Fin (of_int hi) + lit (1 / 1000000)))
      (map (\<lambda>i. Fin (of_int (lo + st * i))) [0..q]) =
    map (\<lambda>i. Fin (of_int (lo + st * i))) (filter (\<lambda>i. i \<le> k) [0..q])"
    unfolding filter_map o_def by (intro arg_cong2 [where f = map] refl filter_cong) (simp add: keep del: of_int_add of_int_mult)
  moreover have "to_int32 (Fin (of_int q)) = Some q" "q \<noteq> 2 ^ 31 - 1"
    using q(2) k0 assms(5) by (auto simp: to_int32_of_int simp flip: k_def)
  moreover have "\<not> (fle (Fin (of_int st)) (Fin 0) \<or> flt (Fin (of_int hi)) (Fin (of_int lo)))"
    using assms by simp
  ultimately show ?thesis
    unfolding expand_range_def sub q(1) filt by (simp only: vals if_False bind.bind_lunit k_def)
qed

lemma stod_show_nat:
  assumes "n \<le> 2 ^ 53"
  shows "stod (show_nat n) = Some (Fin (real n))"
proof -
  have d: "list_all isdigit (show_nat n)" using show_nat_props by blast
  have "real n \<le> real (2 ^ 53)" using assms by (simp only: of_nat_le_iff)
  then have "real n \<le> 2 powr 53" by (simp add: powr_numeral)
  also have "\<dots> \<le> 2 powr 1023" by (rule powr_mono) auto
  finally have hi: "real n \<le> 2 powr 1023" .
  have "(2::real) powr (-1022) \<le> 1" using powr_mono [of "-1022" 0 "2::real"] by simp
  then have lo: "real n = 0 \<or> 2 powr (-1022) \<le> real n" by (cases n) auto
  have "rnd64 (real n) = Fin (real n)"
  proof -
    have "int n \<le> int (2 ^ 53)" using assms by (simp only: of_nat_le_iff)
    then have "\<bar>int n\<bar> \<le> 2 ^ 53" by simp
    from rnd64_int [OF this] show ?thesis by simp
  qed
  then show ?thesis
    using stod_digits [OF d show_nat_ne, of "[]"] strtod_mag_plain(1) [OF d show_nat_ne, of "[]"]
      range_checked_ok [OF lo hi] by simp
qed

lemma show_nat_no_colon: "CHR '':'' \<notin> set (show_nat n)"
  using show_nat_digits isdigit_facts(5) by blast

definition range_text :: "nat \<Rightarrow> nat \<Rightarrow> nat \<Rightarrow> string" where
  "range_text lo st hi = show_nat lo @ '':'' @ show_nat st @ '':'' @ show_nat hi"

definition grid :: "nat \<Rightarrow> nat \<Rightarrow> nat \<Rightarrow> double list" where
  "grid lo st hi = map (\<lambda>i. Fin (real (lo + st * i))) [0..<Suc ((hi - lo) div st)]"

lemma upto_int: "[0..int k] = map int [0..<Suc k]"
proof (induction k)
  case (Suc k)
  have "[0..int (Suc k)] = [0..int k] @ [int (Suc k)]" by (simp add: upto_rec2)
  with Suc show ?case by simp
qed simp

lemma grid_upto:
  assumes "lo \<le> hi"
  shows "map (\<lambda>i. Fin (of_int (int lo + int st * i))) [0..(int hi - int lo) div int st] = grid lo st hi"
proof -
  have "(int hi - int lo) div int st = int ((hi - lo) div st)"
    using assms by (simp add: zdiv_int of_nat_diff)
  then show ?thesis by (simp only: upto_int grid_def map_map o_def) simp
qed

lemma addFrequencySpec_range:
  assumes "0 < st" "lo \<le> hi" "hi + st \<le> 2 ^ 51" "(int hi - int lo) div int st < 2 ^ 31 - 2"
  shows "addFrequencySpec fs (range_text lo st hi) = Some (fs @ grid lo st hi)"
proof -
  have c1: "str_find CHR '':'' (range_text lo st hi) = Some (length (show_nat lo))"
    using str_find_append [OF show_nat_no_colon] by (simp add: range_text_def)
  have c2: "str_find CHR '':'' (show_nat st @ CHR '':'' # show_nat hi) = Some (length (show_nat st))"
    by (rule str_find_append [OF show_nat_no_colon])
  have b: "lo \<le> 2 ^ 53" "st \<le> 2 ^ 53" "hi \<le> 2 ^ 53" using assms by auto
  have "int hi + int st \<le> int (2 ^ 51)" using assms(3) by (simp only: of_nat_le_iff flip: of_nat_add)
  then have "expand_range (Fin (of_int (int lo))) (Fin (of_int (int st))) (Fin (of_int (int hi))) =
      Some (grid lo st hi)"
    using assms unfolding grid_upto [OF assms(2), symmetric] by (intro expand_range_ints) auto
  then show ?thesis
    using c1 c2 stod_show_nat [OF b(1)] stod_show_nat [OF b(2)] stod_show_nat [OF b(3)]
      show_nat_no_colon [of hi]
    by (simp add: addFrequencySpec_def) (simp add: range_text_def Let_def)
qed

lemma addFrequencySpec_single:
  "CHR '':'' \<notin> set text \<Longrightarrow> stod text = Some v \<Longrightarrow> addFrequencySpec fs text = Some (fs @ [v])"
  by (simp add: addFrequencySpec_def str_find_def)

lemma addFrequencySpec_malformed:
  "stod text = None \<Longrightarrow> CHR '':'' \<notin> set text \<Longrightarrow> addFrequencySpec fs text = Some fs"
  by (simp add: addFrequencySpec_def str_find_def)

lemma addFrequencySpec_prefix:
  "addFrequencySpec fs text = Some gs \<Longrightarrow> prefix fs gs"
  by (auto simp: addFrequencySpec_def Let_def split: option.splits if_splits)

lemma sort_unique_spec:
  assumes "NaN \<notin> set fs"
  shows "\<exists>gs. sort_unique fs = Some gs \<and> sorted gs \<and> distinct gs \<and> set gs = set fs"
  using assms by (simp add: sort_unique_def sorted_remdups_adj distinct_remdups_adj_sorted)

lemma sort_unique_set: "sort_unique fs = Some gs \<Longrightarrow> set gs = set fs"
  by (auto simp: sort_unique_def split: if_splits)

definition whole_mhz :: "double \<Rightarrow> bool" where
  "whole_mhz f \<longleftrightarrow> (\<exists>m. \<bar>m\<bar> \<le> 2 ^ 52 \<and> f = Fin (of_int m))"

lemma find_index_own:
  assumes "distinct (supported_frequencies_mhz caps)" "\<forall>f \<in> set (supported_frequencies_mhz caps). whole_mhz f"
    and "k < length (supported_frequencies_mhz caps)"
  shows "findChannelIndex caps (supported_frequencies_mhz caps ! k) = Some (int k + 1)"
proof -
  let ?fs = "supported_frequencies_mhz caps"
  obtain m where m: "?fs ! k = Fin (of_int m)" "\<bar>m\<bar> \<le> 2 ^ 52"
    using assms(2,3) by (auto simp: whole_mhz_def) (meson nth_mem)
  have "same_channel (?fs ! k) (?fs ! k)" by (simp add: m)
  then have "findChannelIndex caps (?fs ! k) \<noteq> None"
    using assms(3) unfolding findChannelIndex_None by (meson nth_mem)
  then obtain c where c: "findChannelIndex caps (?fs ! k) = Some c" by blast
  note c' = findChannelIndex_Some [OF c]
  define j where "j = nat c - 1"
  have j: "j < length ?fs" "c = int j + 1" using c'(1,2) by (auto simp: j_def)
  obtain n where n: "?fs ! j = Fin (of_int n)" "\<bar>n\<bar> \<le> 2 ^ 52"
    using assms(2) j(1) by (auto simp: whole_mhz_def) (meson nth_mem)
  have "n = m"
    by (rule same_channel_ints [OF n(2) m(2)]) (use c'(3) n(1) m(1) in \<open>simp add: j_def\<close>)
  then have "?fs ! j = ?fs ! k" using n(1) m(1) by simp
  then have "j = k" using nth_eq_iff_index_eq [OF assms(1) j(1) assms(3)] by simp
  then show ?thesis using c j(2) by simp
qed

lemma set_grid:
  assumes "0 < st" "lo \<le> hi"
  shows "f \<in> set (grid lo st hi) \<longleftrightarrow> (\<exists>i. lo + st * i \<le> hi \<and> f = Fin (real (lo + st * i)))"
proof -
  have "i \<le> (hi - lo) div st \<longleftrightarrow> lo + st * i \<le> hi" for i
    using assms by (simp add: less_eq_div_iff_mult_less_eq mult.commute) linarith
  then show ?thesis
    by (auto simp: grid_def less_Suc_eq_le simp del: upt_Suc of_nat_add of_nat_mult)
qed

lemma grid_whole:
  assumes "0 < st" "lo \<le> hi" "hi \<le> 2 ^ 52" "f \<in> set (grid lo st hi)"
  shows "whole_mhz f"
proof -
  obtain i where i: "lo + st * i \<le> hi" "f = Fin (real (lo + st * i))"
    using assms set_grid by blast
  have "int (lo + st * i) \<le> int (2 ^ 52)" using i(1) assms(3) by (simp only: of_nat_le_iff)
  then show ?thesis unfolding whole_mhz_def i(2) by (intro exI [of _ "int (lo + st * i)"]) simp
qed

definition profile_reply :: "string list \<Rightarrow> json" where
  "profile_reply specs = JObject [(''result'', JArray [JObject [(''frequencies'', JArray (map JString specs))]])]"

lemma parse_profile_reply:
  "parseSupportedFrequencies (profile_reply specs) = do { fs \<leftarrow> add_specs [] specs; sort_unique fs }"
proof -
  have "concat (map (\<lambda>entry. case entry of JString s \<Rightarrow> [s] | _ \<Rightarrow> []) (map JString specs)) = specs"
    by (induction specs) auto
  then show ?thesis by (simp add: parseSupportedFrequencies_def profile_reply_def item_specs_def)
qed

lemma sorted_grid: "0 < st \<Longrightarrow> sorted (grid lo st hi) \<and> distinct (grid lo st hi)"
  unfolding grid_def sorted_map distinct_map
  by (auto simp: inj_on_def sorted_wrt_map simp del: upt_Suc intro!: sorted_wrt_mono_rel [OF _ sorted_upt])

lemma remdups_adj_distinct: "distinct xs \<Longrightarrow> remdups_adj xs = xs"
  by (induction xs rule: remdups_adj.induct) auto

text \<open>A profile given as one range of whole megahertz "lo:step:hi" is exactly its grid: the channels
  lo, lo+step, ... up to hi, ascending and without duplicates, whether or not the step divides the
  width, in spite of the rounded division and the tolerance in the loop.\<close>

theorem range_profile_is_grid:
  assumes "0 < st" "lo \<le> hi" "hi + st \<le> 2 ^ 51" "(hi - lo) div st < 2 ^ 31 - 2"
  shows "parseSupportedFrequencies (profile_reply [range_text lo st hi]) = Some (grid lo st hi)"
proof -
  have "(int hi - int lo) div int st = int ((hi - lo) div st)"
    using assms(2) by (simp add: zdiv_int of_nat_diff)
  moreover have "int ((hi - lo) div st) < int (2 ^ 31 - 2)" using assms(4) by (simp only: of_nat_less_iff)
  ultimately have "addFrequencySpec [] (range_text lo st hi) = Some (grid lo st hi)"
    using addFrequencySpec_range [OF assms(1-3), of "[]"] by simp
  moreover have "sort_unique (grid lo st hi) = Some (grid lo st hi)"
    using sorted_grid [OF assms(1), of lo hi]
    by (auto simp: sort_unique_def sorted_sort_id remdups_adj_distinct grid_def)
  ultimately show ?thesis by (simp add: parse_profile_reply)
qed

theorem range_profile_is_grid_witness:
  "parseSupportedFrequencies (profile_reply [range_text 2200 20 2250]) = Some [Fin 2200, Fin 2220, Fin 2240]"
  using range_profile_is_grid [of 20 2200 2250] by (simp add: grid_def upt_rec)

text \<open>The profile of any reply without NaN entries is sorted, free of duplicates, and holds exactly
  the frequencies that its specifications expand to; a malformed specification adds nothing.\<close>

theorem profile_is_sorted_union:
  assumes "add_specs [] specs = Some fs" "NaN \<notin> set fs"
  shows "\<exists>gs. parseSupportedFrequencies (profile_reply specs) = Some gs \<and> sorted gs \<and> distinct gs \<and> set gs = set fs"
  using sort_unique_spec [OF assms(2)] assms(1) by (simp add: parse_profile_reply)

theorem profile_is_sorted_union_witness:
  "\<exists>gs. parseSupportedFrequencies (profile_reply [show_nat 2462, ''bad'', show_nat 2412, show_nat 2462]) = Some gs \<and>
     sorted gs \<and> distinct gs \<and> set gs = {Fin 2412, Fin 2462}"
proof -
  have single: "addFrequencySpec fs (show_nat n) = Some (fs @ [Fin (real n)])" if "n \<le> 2 ^ 53" for fs n
    using addFrequencySpec_single [OF show_nat_no_colon stod_show_nat [OF that]] .
  have "stod ''bad'' = None"
    by (simp add: stod_def strtod_unsigned_def is_hex_prefix_def strtod_mag_def isdigit_def isspace_def tolower_def char_code_def)
  then have bad: "addFrequencySpec fs ''bad'' = Some fs" for fs
    by (intro addFrequencySpec_malformed) simp_all
  have "add_specs [] [show_nat 2462, ''bad'', show_nat 2412, show_nat 2462] = Some [Fin 2462, Fin 2412, Fin 2462]"
    by (simp add: single bad)
  from profile_is_sorted_union [OF this] show ?thesis by auto
qed

text \<open>Channel lookup is first match: an index is returned exactly when it names the first channel of
  the profile within 1 kHz of the frequency, and none exactly when there is no such channel.\<close>

theorem channel_lookup_first_match:
  "(findChannelIndex caps f = Some c) =
     (1 \<le> c \<and> c \<le> int (length (supported_frequencies_mhz caps)) \<and>
      same_channel (supported_frequencies_mhz caps ! (nat c - 1)) f \<and>
      (\<forall>j < nat c - 1. \<not> same_channel (supported_frequencies_mhz caps ! j) f))"
  (is "?l = ?r")
proof
  assume ?l
  then show ?r using findChannelIndex_Some by blast
next
  assume r: ?r
  then have "findChannelIndex caps f \<noteq> None"
    unfolding findChannelIndex_None using nth_mem [of "nat c - 1" "supported_frequencies_mhz caps"] by force
  then obtain d where d: "findChannelIndex caps f = Some d" by blast
  note d' = findChannelIndex_Some [OF d]
  have "nat d - 1 = nat c - 1"
    using r d'(3,4) linorder_less_linear [of "nat d - 1" "nat c - 1"] by blast
  moreover have "1 \<le> c" using r by blast
  ultimately have "d = c" using d'(1) by arith
  with d show ?l by simp
qed


lemma not_same_channel_ints:
  "\<bar>a\<bar> \<le> 2 ^ 52 \<Longrightarrow> \<bar>b\<bar> \<le> 2 ^ 52 \<Longrightarrow> a \<noteq> b \<Longrightarrow> \<not> same_channel (Fin (of_int a)) (Fin (of_int b))"
  using same_channel_ints by blast

theorem channel_lookup_first_match_witness:
  "findChannelIndex (default_capability_info\<lparr>supported_frequencies_mhz := [Fin 2412, Fin 2437]\<rparr>) (Fin 2437) = Some 2"
  using channel_lookup_first_match [of "default_capability_info\<lparr>supported_frequencies_mhz := [Fin 2412, Fin 2437]\<rparr>" "Fin 2437" 2]
    not_same_channel_ints [of 2412 2437] by simp

end
