(* ===== verification/Radio_Adapter.thy ===== *)
theory Radio_Adapter
  imports Common_Types Rcc_Prelude
begin

text \<open>
  The interface IRadioAdapter: the virtual functions as a record over the adapter's own state 'a
  and the outside world 'e, and the locale of the laws that the radio manager and the
  orchestrator rely on. An adapter's own checks are its business; the laws say what a caller sees.
\<close>

record ('a, 'e) radio_adapter_ops =
  op_id :: "'a \<Rightarrow> string"
  op_capabilities :: "'a \<Rightarrow> capability_info"
  op_connect :: "'a \<Rightarrow> 'e \<Rightarrow> (adapter_result \<times> 'a \<times> 'e) option"
  op_set_power :: "double \<Rightarrow> 'a \<Rightarrow> 'e \<Rightarrow> (adapter_result \<times> 'a \<times> 'e) option"
  op_set_channel :: "int \<Rightarrow> double \<Rightarrow> 'a \<Rightarrow> 'e \<Rightarrow> (adapter_result \<times> 'a \<times> 'e) option"
  op_refresh_state :: "'a \<Rightarrow> 'e \<Rightarrow> (adapter_result \<times> 'a \<times> 'e) option"
  op_state :: "'a \<Rightarrow> radio_state"

definition in_power_range :: "capability_info \<Rightarrow> double \<Rightarrow> bool" where
  "in_power_range caps watts \<longleftrightarrow>
     \<not> (flt watts (fst (power_range_watts caps)) \<or> flt (snd (power_range_watts caps)) watts)"

definition same_limits :: "capability_info \<Rightarrow> capability_info \<Rightarrow> bool" where
  "same_limits c d \<longleftrightarrow> supported_frequencies_mhz c = supported_frequencies_mhz d \<and>
     power_range_watts c = power_range_watts d"

definition channel_ok :: "capability_info \<Rightarrow> radio_state \<Rightarrow> bool" where
  "channel_ok caps s \<longleftrightarrow> (case rs_channel_index s of None \<Rightarrow> True
     | Some c \<Rightarrow> 1 \<le> c \<and> c \<le> int (length (supported_frequencies_mhz caps)))"

locale radio_adapter =
  fixes ops :: "('a, 'e) radio_adapter_ops" and ainv :: "'a \<Rightarrow> bool"
  assumes inv_channel: "ainv a \<Longrightarrow> channel_ok (op_capabilities ops a) (op_state ops a)"
    and connect_keeps: "ainv a \<Longrightarrow> rs_channel_index (op_state ops a) = None \<Longrightarrow>
      op_connect ops a e = Some (r, a', e') \<Longrightarrow>
      ainv a' \<and> op_id ops a' = op_id ops a \<and> rs_channel_index (op_state ops a') = None"
    and set_power_defined:
      "ainv a \<Longrightarrow> in_power_range (op_capabilities ops a) w \<Longrightarrow> w \<noteq> NaN \<Longrightarrow> op_set_power ops w a e \<noteq> None"
    and set_power_keeps: "ainv a \<Longrightarrow> op_set_power ops w a e = Some (r, a', e') \<Longrightarrow>
      ainv a' \<and> op_id ops a' = op_id ops a \<and> same_limits (op_capabilities ops a') (op_capabilities ops a) \<and>
      rs_channel_index (op_state ops a') = rs_channel_index (op_state ops a)"
    and set_power_ok: "op_set_power ops w a e = Some (r, a', e') \<Longrightarrow> ar_code r = CommandResultCode.Ok \<Longrightarrow>
      rs_power_watts (op_state ops a') = Some w \<and> in_power_range (op_capabilities ops a') w"
    and set_power_fail: "op_set_power ops w a e = Some (r, a', e') \<Longrightarrow> ar_code r \<noteq> CommandResultCode.Ok \<Longrightarrow>
      rs_power_watts (op_state ops a') = rs_power_watts (op_state ops a)"
    and set_channel_defined: "op_set_channel ops i f a e \<noteq> None"
    and set_channel_keeps: "ainv a \<Longrightarrow> 1 \<le> i \<Longrightarrow> i \<le> int (length (supported_frequencies_mhz (op_capabilities ops a))) \<Longrightarrow>
      op_set_channel ops i f a e = Some (r, a', e') \<Longrightarrow>
      ainv a' \<and> op_id ops a' = op_id ops a \<and> op_capabilities ops a' = op_capabilities ops a \<and>
      rs_power_watts (op_state ops a') = rs_power_watts (op_state ops a)"
    and set_channel_fail: "op_set_channel ops i f a e = Some (r, a', e') \<Longrightarrow> ar_code r \<noteq> CommandResultCode.Ok \<Longrightarrow>
      rs_channel_index (op_state ops a') = rs_channel_index (op_state ops a)"
begin

lemma set_power_returns:
  assumes "ainv a" "in_power_range (op_capabilities ops a) w" "w \<noteq> NaN"
  obtains r a' e' where "op_set_power ops w a e = Some (r, a', e')" "ainv a'"
  using set_power_defined [OF assms, of e] set_power_keeps [OF assms(1)] by fast

end

end
