(* ===== verification/Silvus_Adapter.thy ===== *)
theory Silvus_Adapter
  imports Frequency_Profiles Radio_Adapter Demo_Platform
begin

text \<open>
  The adapter for Silvus radios, silvus_adapter.cpp: connect, set_power, set_channel and
  refresh_state over one JSON-RPC call at a time, with the recovery window that follows a change
  of frequency and the enable_max_power mode that blocks manual power control. Times are
  nanoseconds of the steady clock; recovering_until is 0 when no window was opened. The theory
  ends with the interpretation of the locale radio_adapter on this adapter.
\<close>

record silvus_adapter =
  sa_id :: string
  sa_endpoint :: string
  http_timeout :: int
  recovering_until :: int
  soft_boot_recovery_duration :: int
  sa_capabilities :: capability_info
  sa_state :: radio_state

definition isRecoveryWindowActive :: "'e platform \<Rightarrow> int \<Rightarrow> 'e \<Rightarrow> bool \<times> 'e" where
  "isRecoveryWindowActive P until e =
     (if until \<noteq> 0 then (let (now, e') = steady_now P e in (now < until, e')) else (False, e))"

datatype rpc_reply = RpcUnreachable string | RpcBadJson | RpcError json | RpcOk json

definition rpc :: "'e platform \<Rightarrow> silvus_adapter \<Rightarrow> string \<Rightarrow> string \<Rightarrow> string list \<Rightarrow> 'e \<Rightarrow> rpc_reply \<times> 'e" where
  "rpc P a reqId method params e =
     (let request = JObject ([(''jsonrpc'', JString ''2.0''), (''id'', JString reqId), (''method'', JString method)] @
            (if params = [] then [] else [(''params'', JArray (map JString params))]))
      in case sendHttpPost P (sa_endpoint a) (json_dump P request) (http_timeout a) e of
           (Inl err, e') \<Rightarrow> (RpcUnreachable err, e')
         | (Inr body, e') \<Rightarrow>
             (case json_parse P body of
                None \<Rightarrow> (RpcBadJson, e')
              | Some response \<Rightarrow>
                  (case json_find ''error'' response of
                     Some err \<Rightarrow> (RpcError err, e')
                   | None \<Rightarrow> (RpcOk response, e'))))"

definition readEnableMaxPower :: "'e platform \<Rightarrow> silvus_adapter \<Rightarrow> 'e \<Rightarrow> bool option \<times> 'e" where
  "readEnableMaxPower P a e =
     (case rpc P a ''enable_max_power'' ''enable_max_power'' [] e of
        (RpcOk response, e') \<Rightarrow> (parseBooleanResult response, e')
      | (_, e') \<Rightarrow> (None, e'))"

definition result :: "CommandResultCode \<Rightarrow> string \<Rightarrow> string option \<Rightarrow> adapter_result" where
  "result code message payload = \<lparr>ar_code = code, ar_message = message, ar_vendor_payload = payload\<rparr>"

definition rpc_failure :: "'e platform \<Rightarrow> rpc_reply \<Rightarrow> adapter_result" where
  "rpc_failure P r =
     (case r of
        RpcUnreachable err \<Rightarrow> result CommandResultCode.Unavailable err None
      | RpcBadJson \<Rightarrow> result CommandResultCode.InternalError ''Invalid JSON from radio'' None
      | RpcError err \<Rightarrow> normalizeSilvusError P err
      | RpcOk _ \<Rightarrow> result CommandResultCode.Ok [] None)"

definition ok_result :: adapter_result where
  "ok_result = result CommandResultCode.Ok [] None"

definition busy_recovering :: adapter_result where
  "busy_recovering = result CommandResultCode.Busy ''Radio is recovering after a frequency change'' None"

definition set_status :: "RadioStatus \<Rightarrow> silvus_adapter \<Rightarrow> silvus_adapter" where
  "set_status st a = a\<lparr>sa_state := (sa_state a)\<lparr>rs_status := st\<rparr>\<rparr>"

definition note_enable_max_power :: "bool option \<Rightarrow> silvus_adapter \<Rightarrow> silvus_adapter" where
  "note_enable_max_power m a =
     (case m of None \<Rightarrow> a
      | Some b \<Rightarrow> a\<lparr>sa_capabilities := (sa_capabilities a)\<lparr>enable_max_power := Some b,
                      manual_power_control_available := \<not> b\<rparr>\<rparr>)"

definition make_silvus_adapter ::
  "string \<Rightarrow> string \<Rightarrow> (double \<times> double) option \<Rightarrow> int \<Rightarrow> int \<Rightarrow> silvus_adapter" where
  "make_silvus_adapter radioId endpoint configured timeout recovery =
     \<lparr>sa_id = radioId, sa_endpoint = endpoint, http_timeout = timeout, recovering_until = 0,
      soft_boot_recovery_duration = recovery,
      sa_capabilities = default_capability_info
        \<lparr>supported_frequencies_mhz := [Fin 2412, Fin 2437, Fin 2462],
         power_range_watts := (case configured of
             Some (lo, hi) \<Rightarrow> (dbmToWatts lo, dbmToWatts hi)
           | None \<Rightarrow> (dbmToWatts (Fin 0), dbmToWatts (Fin 39))),
         power_range_source := (case configured of Some _ \<Rightarrow> ''configured'' | None \<Rightarrow> ''vendor_default'')\<rparr>,
      sa_state = default_radio_state\<rparr>"

definition silvus_connect ::
  "'e platform \<Rightarrow> silvus_adapter \<Rightarrow> 'e \<Rightarrow> (adapter_result \<times> silvus_adapter \<times> 'e) option" where
  "silvus_connect P a e =
     (case rpc P a ''1'' ''supported_frequency_profiles'' [] e of
        (RpcOk response, e) \<Rightarrow>
          do { freqs \<leftarrow> parseSupportedFrequencies response;
               let a = (if freqs \<noteq> [] then a\<lparr>sa_capabilities := (sa_capabilities a)\<lparr>supported_frequencies_mhz := freqs\<rparr>\<rparr> else a);
               let (m, e) = readEnableMaxPower P a e;
               let a = note_enable_max_power m a;
               Some (ok_result, set_status RadioStatus.Ready (a\<lparr>recovering_until := 0\<rparr>), e) }
      | (failure, e) \<Rightarrow> Some (rpc_failure P failure, a, e))"

definition silvus_set_power ::
  "'e platform \<Rightarrow> double \<Rightarrow> silvus_adapter \<Rightarrow> 'e \<Rightarrow> (adapter_result \<times> silvus_adapter \<times> 'e) option" where
  "silvus_set_power P watts a e =
     (let (recovering, e) = isRecoveryWindowActive P (recovering_until a) e
      in if recovering then Some (busy_recovering, set_status RadioStatus.Recovering a, e)
      else let (m, e) = readEnableMaxPower P a e; a = note_enable_max_power m a
      in if \<not> manual_power_control_available (sa_capabilities a) then
           Some (result CommandResultCode.Busy ''Manual power control is unavailable while enable_max_power=1''
                   (Some ''{\"enable_max_power\":true}''), a, e)
      else if \<not> in_power_range (sa_capabilities a) watts then
           Some (result CommandResultCode.InvalidRange ''Power outside supported range'' None, a, e)
      else do {
        dbm \<leftarrow> to_int32 (fround (wattsToDbmRaw watts));
        Some (case rpc P a ''1'' ''power_dBm'' [show_int dbm] e of
                (RpcOk _, e) \<Rightarrow>
                  (ok_result, set_status RadioStatus.Ready (a\<lparr>sa_state := (sa_state a)\<lparr>rs_power_watts := Some watts\<rparr>\<rparr>), e)
              | (failure, e) \<Rightarrow> (rpc_failure P failure, a, e))
      })"

definition silvus_set_channel ::
  "'e platform \<Rightarrow> int \<Rightarrow> double \<Rightarrow> silvus_adapter \<Rightarrow> 'e \<Rightarrow> (adapter_result \<times> silvus_adapter \<times> 'e) option" where
  "silvus_set_channel P channel_index frequency_mhz a e =
     (let (recovering, e) = isRecoveryWindowActive P (recovering_until a) e
      in if recovering then Some (busy_recovering, set_status RadioStatus.Recovering a, e)
      else if channel_index \<le> 0 \<or> fle frequency_mhz (Fin 0) then
        Some (result CommandResultCode.InvalidRange ''Invalid channel or frequency'' None, a, e)
      else if supported_frequencies_mhz (sa_capabilities a) \<noteq> [] \<and>
              findChannelIndex (sa_capabilities a) frequency_mhz = None then
        Some (result CommandResultCode.InvalidRange ''Frequency outside supported profile'' None, a, e)
      else Some (case rpc P a ''1'' ''freq'' [formatSilvusNumber frequency_mhz] e of
          (RpcOk _, e) \<Rightarrow>
            (let c = (case findChannelIndex (sa_capabilities a) frequency_mhz of
                        Some i \<Rightarrow> i | None \<Rightarrow> channel_index);
                 (now, e) = steady_now P e
             in (ok_result,
                 a\<lparr>recovering_until := now + soft_boot_recovery_duration a,
                   sa_state := (sa_state a)\<lparr>rs_channel_index := Some c, rs_status := RadioStatus.Recovering\<rparr>\<rparr>, e))
        | (failure, e) \<Rightarrow> (rpc_failure P failure, a, e)))"

definition silvus_refresh_state ::
  "'e platform \<Rightarrow> silvus_adapter \<Rightarrow> 'e \<Rightarrow> (adapter_result \<times> silvus_adapter \<times> 'e) option" where
  "silvus_refresh_state P a e =
     Some (let (recovering, e) = isRecoveryWindowActive P (recovering_until a) e
      in if recovering then (busy_recovering, set_status RadioStatus.Recovering a, e)
      else case rpc P a ''1'' ''power_dBm'' [] e of
        (RpcOk powerResponse, e) \<Rightarrow>
          (let a = a\<lparr>sa_state := (sa_state a)\<lparr>rs_power_watts :=
                 map_option (\<lambda>powerDbm. dbmToWatts (Fin (of_int powerDbm))) (parsePowerResult powerResponse)\<rparr>\<rparr>
           in case rpc P a ''2'' ''freq'' [] e of
             (RpcOk freqResponse, e) \<Rightarrow>
               (let a = a\<lparr>sa_state := (sa_state a)\<lparr>rs_channel_index :=
                      Option.bind (parseFrequencyResult freqResponse) (findChannelIndex (sa_capabilities a))\<rparr>\<rparr>;
                    (m, e) = readEnableMaxPower P a e;
                    a = note_enable_max_power m a
                in (ok_result, set_status RadioStatus.Ready (a\<lparr>recovering_until := 0\<rparr>), e))
           | (failure, e) \<Rightarrow> (rpc_failure P failure, a, e))
      | (failure, e) \<Rightarrow> (rpc_failure P failure, a, e))"

definition silvus_ops :: "'e platform \<Rightarrow> (silvus_adapter, 'e) radio_adapter_ops" where
  "silvus_ops P = \<lparr>op_id = sa_id, op_capabilities = sa_capabilities, op_connect = silvus_connect P,
     op_set_power = silvus_set_power P, op_set_channel = silvus_set_channel P,
     op_refresh_state = silvus_refresh_state P, op_state = sa_state\<rparr>"

section \<open>What each operation leaves alone and what it sets\<close>

definition dbm_range :: "capability_info \<Rightarrow> bool" where
  "dbm_range caps \<longleftrightarrow> (\<exists>lo hi. 0 \<le> lo \<and> lo \<le> hi \<and> hi \<le> 39 \<and>
     power_range_watts caps = (dbmToWatts (Fin lo), dbmToWatts (Fin hi)))"

definition silvus_inv :: "silvus_adapter \<Rightarrow> bool" where
  "silvus_inv a \<longleftrightarrow> channel_ok (sa_capabilities a) (sa_state a) \<and> dbm_range (sa_capabilities a)"

lemma set_status_frame [simp]:
  "sa_id (set_status st a) = sa_id a" "sa_endpoint (set_status st a) = sa_endpoint a"
  "sa_capabilities (set_status st a) = sa_capabilities a"
  "recovering_until (set_status st a) = recovering_until a"
  "rs_channel_index (sa_state (set_status st a)) = rs_channel_index (sa_state a)"
  "rs_power_watts (sa_state (set_status st a)) = rs_power_watts (sa_state a)"
  "rs_status (sa_state (set_status st a)) = st"
  by (simp_all add: set_status_def)

lemma note_enable_max_power_frame [simp]:
  "sa_id (note_enable_max_power m a) = sa_id a"
  "sa_endpoint (note_enable_max_power m a) = sa_endpoint a"
  "http_timeout (note_enable_max_power m a) = http_timeout a"
  "recovering_until (note_enable_max_power m a) = recovering_until a"
  "sa_state (note_enable_max_power m a) = sa_state a"
  "supported_frequencies_mhz (sa_capabilities (note_enable_max_power m a)) = supported_frequencies_mhz (sa_capabilities a)"
  "power_range_watts (sa_capabilities (note_enable_max_power m a)) = power_range_watts (sa_capabilities a)"
  by (simp_all add: note_enable_max_power_def split: option.split)

lemma channel_ok_cong:
  "rs_channel_index s = rs_channel_index t \<Longrightarrow>
   supported_frequencies_mhz c = supported_frequencies_mhz d \<Longrightarrow> channel_ok c s = channel_ok d t"
  by (auto simp: channel_ok_def split: option.splits)

lemma dbm_range_cong: "power_range_watts c = power_range_watts d \<Longrightarrow> dbm_range c = dbm_range d"
  by (simp add: dbm_range_def)

lemma in_power_range_cong:
  "power_range_watts c = power_range_watts d \<Longrightarrow> in_power_range c w = in_power_range d w"
  by (simp add: in_power_range_def)

lemma in_power_range_to_int32:
  assumes "dbm_range caps" "in_power_range caps w" "w \<noteq> NaN"
  shows "\<exists>n. to_int32 (fround (wattsToDbmRaw w)) = Some n \<and> 0 \<le> n \<and> n \<le> 39"
proof -
  obtain lo hi where r: "0 \<le> lo" "lo \<le> hi" "hi \<le> 39"
    "power_range_watts caps = (dbmToWatts (Fin lo), dbmToWatts (Fin hi))"
    using assms(1) by (auto simp: dbm_range_def)
  have "dbmToWatts (Fin lo) \<le> w" "w \<le> dbmToWatts (Fin hi)"
    using assms(2,3) r(4) by (auto simp: in_power_range_def not_flt_iff dbmToWatts_not_NaN)
  from watts_in_range_to_int32 [OF r(1,3,2) this] obtain n where
    "to_int32 (fround (wattsToDbmRaw w)) = Some n" "\<lfloor>lo\<rfloor> \<le> n" "n \<le> \<lceil>hi\<rceil>" by blast
  moreover have "0 \<le> \<lfloor>lo\<rfloor>" "\<lceil>hi\<rceil> \<le> 39" using r by (auto simp: ceiling_le_iff)
  ultimately show ?thesis by (meson order_trans)
qed


lemmas silvus_splits = prod.splits option.splits if_splits rpc_reply.splits bind_splits

lemma normalize_not_ok: "ar_code (normalizeSilvusError P err) \<noteq> CommandResultCode.Ok"
  by (simp add: normalizeSilvusError_def Let_def)

lemma rpc_failure_not_ok [simp]:
  "ar_code (rpc_failure P (RpcUnreachable err)) \<noteq> CommandResultCode.Ok"
  "ar_code (rpc_failure P RpcBadJson) \<noteq> CommandResultCode.Ok"
  "ar_code (rpc_failure P (RpcError j)) \<noteq> CommandResultCode.Ok"
  by (simp_all add: rpc_failure_def result_def normalize_not_ok)

lemma result_codes [simp]:
  "ar_code ok_result = CommandResultCode.Ok" "ar_code busy_recovering = CommandResultCode.Busy"
  "ar_code (result c m p) = c"
  by (simp_all add: ok_result_def busy_recovering_def result_def)

lemma set_power_frame:
  assumes "silvus_set_power P w a e = Some (r, a', e')"
  shows "sa_id a' = sa_id a \<and> same_limits (sa_capabilities a') (sa_capabilities a) \<and>
    rs_channel_index (sa_state a') = rs_channel_index (sa_state a) \<and>
    recovering_until a' = recovering_until a"
  using assms unfolding silvus_set_power_def Let_def
  by (auto simp: same_limits_def split: silvus_splits)

lemma set_power_outcome:
  assumes "silvus_set_power P w a e = Some (r, a', e')"
  shows "if ar_code r = CommandResultCode.Ok
    then rs_power_watts (sa_state a') = Some w \<and> in_power_range (sa_capabilities a') w \<and>
      rs_status (sa_state a') = RadioStatus.Ready
    else rs_power_watts (sa_state a') = rs_power_watts (sa_state a)"
  using assms unfolding silvus_set_power_def Let_def
  by (auto split: silvus_splits)

lemma set_channel_frame:
  assumes "silvus_set_channel P i f a e = Some (r, a', e')"
  shows "sa_id a' = sa_id a \<and> sa_capabilities a' = sa_capabilities a \<and>
    rs_power_watts (sa_state a') = rs_power_watts (sa_state a)"
  using assms unfolding silvus_set_channel_def Let_def
  by (auto split: silvus_splits)

lemma set_channel_outcome:
  assumes "silvus_set_channel P i f a e = Some (r, a', e')"
  shows "if ar_code r = CommandResultCode.Ok
    then rs_channel_index (sa_state a') =
        Some (case findChannelIndex (sa_capabilities a) f of Some c \<Rightarrow> c | None \<Rightarrow> i) \<and>
      rs_status (sa_state a') = RadioStatus.Recovering
    else rs_channel_index (sa_state a') = rs_channel_index (sa_state a) \<and> recovering_until a' = recovering_until a"
  using assms unfolding silvus_set_channel_def Let_def
  by (auto split: silvus_splits)

lemma set_power_defined:
  assumes "dbm_range (sa_capabilities a)" "in_power_range (sa_capabilities a) w" "w \<noteq> NaN"
  shows "silvus_set_power P w a e \<noteq> None"
  using in_power_range_to_int32 [OF assms] unfolding silvus_set_power_def Let_def
  by (auto split: silvus_splits)


lemma silvus_inv_cong:
  "rs_channel_index (sa_state a') = rs_channel_index (sa_state a) \<Longrightarrow>
   same_limits (sa_capabilities a') (sa_capabilities a) \<Longrightarrow> silvus_inv a' = silvus_inv a"
  unfolding silvus_inv_def same_limits_def using channel_ok_cong dbm_range_cong by blast

lemma set_channel_inv:
  assumes "silvus_inv a" "1 \<le> i" "i \<le> int (length (supported_frequencies_mhz (sa_capabilities a)))"
    "silvus_set_channel P i f a e = Some (r, a', e')"
  shows "silvus_inv a'"
proof (cases "ar_code r = CommandResultCode.Ok")
  case True
  have c: "sa_capabilities a' = sa_capabilities a" using set_channel_frame [OF assms(4)] by simp
  have "channel_ok (sa_capabilities a) (sa_state a')"
    using set_channel_outcome [OF assms(4)] True assms(2,3) findChannelIndex_Some(1,2)
    by (auto simp: channel_ok_def split: option.splits)
  then show ?thesis using assms(1) c by (simp add: silvus_inv_def)
next
  case False
  then show ?thesis
    using set_channel_outcome [OF assms(4)] set_channel_frame [OF assms(4)] assms(1)
      silvus_inv_cong [of a' a] by (simp add: same_limits_def)
qed

lemma connect_frame:
  assumes "silvus_connect P a e = Some (r, a', e')"
  shows "sa_id a' = sa_id a \<and> sa_endpoint a' = sa_endpoint a \<and>
    power_range_watts (sa_capabilities a') = power_range_watts (sa_capabilities a) \<and>
    rs_channel_index (sa_state a') = rs_channel_index (sa_state a) \<and>
    rs_power_watts (sa_state a') = rs_power_watts (sa_state a)"
  using assms unfolding silvus_connect_def Let_def
  by (auto split: silvus_splits)

lemma connect_inv:
  assumes "silvus_inv a" "rs_channel_index (sa_state a) = None" "silvus_connect P a e = Some (r, a', e')"
  shows "silvus_inv a'"
  using assms connect_frame [OF assms(3)] dbm_range_cong [of "sa_capabilities a'" "sa_capabilities a"]
  by (simp add: silvus_inv_def channel_ok_def)

interpretation silvus: radio_adapter "silvus_ops P" silvus_inv for P :: "'e platform"
proof
  fix a :: silvus_adapter and e e' :: 'e and w f :: double and i :: int and r a'
  let ?ops = "silvus_ops P"
  show "silvus_inv a \<Longrightarrow> channel_ok (op_capabilities ?ops a) (op_state ?ops a)"
    by (simp add: silvus_inv_def silvus_ops_def)
  show "silvus_inv a \<Longrightarrow> rs_channel_index (op_state ?ops a) = None \<Longrightarrow> op_connect ?ops a e = Some (r, a', e') \<Longrightarrow>
      silvus_inv a' \<and> op_id ?ops a' = op_id ?ops a \<and> rs_channel_index (op_state ?ops a') = None"
    using connect_inv [of a P e r a' e'] connect_frame [of P a e r a' e'] by (simp add: silvus_ops_def)
  show "silvus_inv a \<Longrightarrow> in_power_range (op_capabilities ?ops a) w \<Longrightarrow> w \<noteq> NaN \<Longrightarrow> op_set_power ?ops w a e \<noteq> None"
    using set_power_defined [of a w P e] by (simp add: silvus_inv_def silvus_ops_def)
  show "silvus_inv a \<Longrightarrow> op_set_power ?ops w a e = Some (r, a', e') \<Longrightarrow>
      silvus_inv a' \<and> op_id ?ops a' = op_id ?ops a \<and> same_limits (op_capabilities ?ops a') (op_capabilities ?ops a) \<and>
      rs_channel_index (op_state ?ops a') = rs_channel_index (op_state ?ops a)"
    using set_power_frame [of P w a e r a' e'] silvus_inv_cong [of a' a] by (simp add: silvus_ops_def)
  show "op_set_power ?ops w a e = Some (r, a', e') \<Longrightarrow> ar_code r = CommandResultCode.Ok \<Longrightarrow>
      rs_power_watts (op_state ?ops a') = Some w \<and> in_power_range (op_capabilities ?ops a') w"
    using set_power_outcome [of P w a e r a' e'] by (simp add: silvus_ops_def)
  show "op_set_power ?ops w a e = Some (r, a', e') \<Longrightarrow> ar_code r \<noteq> CommandResultCode.Ok \<Longrightarrow>
      rs_power_watts (op_state ?ops a') = rs_power_watts (op_state ?ops a)"
    using set_power_outcome [of P w a e r a' e'] by (simp add: silvus_ops_def)
  show "op_set_channel ?ops i f a e \<noteq> None"
    by (simp add: silvus_ops_def silvus_set_channel_def Let_def del: not_None_eq split: prod.split)
  show "silvus_inv a \<Longrightarrow> 1 \<le> i \<Longrightarrow> i \<le> int (length (supported_frequencies_mhz (op_capabilities ?ops a))) \<Longrightarrow>
      op_set_channel ?ops i f a e = Some (r, a', e') \<Longrightarrow>
      silvus_inv a' \<and> op_id ?ops a' = op_id ?ops a \<and> op_capabilities ?ops a' = op_capabilities ?ops a \<and>
      rs_power_watts (op_state ?ops a') = rs_power_watts (op_state ?ops a)"
    using set_channel_inv [of a i P f e r a' e'] set_channel_frame [of P i f a e r a' e'] by (simp add: silvus_ops_def)
  show "op_set_channel ?ops i f a e = Some (r, a', e') \<Longrightarrow> ar_code r \<noteq> CommandResultCode.Ok \<Longrightarrow>
      rs_channel_index (op_state ?ops a') = rs_channel_index (op_state ?ops a)"
    using set_channel_outcome [of P i f a e r a' e'] by (simp add: silvus_ops_def)
qed

section \<open>The recovery window\<close>

lemma recovery_refuses:
  assumes "recovering_until a \<noteq> 0" "steady_now P e = (now, e')" "now < recovering_until a"
  shows "silvus_set_power P w a e = Some (busy_recovering, set_status RadioStatus.Recovering a, e')"
    and "silvus_set_channel P i f a e = Some (busy_recovering, set_status RadioStatus.Recovering a, e')"
    and "silvus_refresh_state P a e = Some (busy_recovering, set_status RadioStatus.Recovering a, e')"
  using assms by (simp_all add: silvus_set_power_def silvus_set_channel_def silvus_refresh_state_def
      isRecoveryWindowActive_def)

lemma set_status_same [simp]: "rs_status (sa_state a) = st \<Longrightarrow> set_status st a = a"
  by (simp add: set_status_def)

lemma set_channel_window:
  assumes "silvus_set_channel P i f a e = Some (r, a', e')" "ar_code r = CommandResultCode.Ok"
  shows "\<exists>t e0. steady_now P e0 = (t, e') \<and> recovering_until a' = t + soft_boot_recovery_duration a \<and>
    rs_status (sa_state a') = RadioStatus.Recovering"
  using assms unfolding silvus_set_channel_def Let_def
  by (auto split: silvus_splits)

text \<open>C7. After an accepted change of frequency the adapter refuses every command, and exchanges
  nothing with the radio, until the soft-boot time measured from the moment of acceptance is over.\<close>

theorem recovery_window:
  assumes "silvus_set_channel P i f a e = Some (r, a1, e1)" "ar_code r = CommandResultCode.Ok"
    and "steady_now P e2 = (now, e3)" "now < recovering_until a1" "recovering_until a1 \<noteq> 0"
  shows "(\<exists>t e0. steady_now P e0 = (t, e1) \<and> recovering_until a1 = t + soft_boot_recovery_duration a) \<and>
    silvus_set_power P w a1 e2 = Some (busy_recovering, a1, e3) \<and>
    silvus_set_channel P j g a1 e2 = Some (busy_recovering, a1, e3) \<and>
    silvus_refresh_state P a1 e2 = Some (busy_recovering, a1, e3)"
  using set_channel_window [OF assms(1,2)] recovery_refuses [OF assms(5,3,4)] by auto

definition demo_adapter :: silvus_adapter where
  "demo_adapter = make_silvus_adapter ''r1'' ''http://10.0.0.1:80'' None 3000 30000000000"

lemma demo_rpc:
  "sa_endpoint a = ''http://10.0.0.1:80'' \<Longrightarrow> rpc demo a i m ps now = (RpcOk (JObject []), now)"
  by (simp add: rpc_def)

lemma demo_adapter_sel [simp]:
  "sa_endpoint demo_adapter = ''http://10.0.0.1:80''" "recovering_until demo_adapter = 0"
  "soft_boot_recovery_duration demo_adapter = 30000000000"
  "supported_frequencies_mhz (sa_capabilities demo_adapter) = [Fin 2412, Fin 2437, Fin 2462]"
  "manual_power_control_available (sa_capabilities demo_adapter)"
  "power_range_watts (sa_capabilities demo_adapter) = (dbmToWatts (Fin 0), dbmToWatts (Fin 39))"
  "sa_state demo_adapter = default_radio_state" "sa_id demo_adapter = ''r1''"
  by (simp_all add: demo_adapter_def make_silvus_adapter_def default_capability_info_def)

lemma demo_profile: "list_all whole_mhz [Fin 2412, Fin 2437, Fin 2462]"
proof -
  have "whole_mhz (Fin (of_int 2412))" "whole_mhz (Fin (of_int 2437))" "whole_mhz (Fin (of_int 2462))"
    unfolding whole_mhz_def by (rule exI [of _ "2412::int"] exI [of _ "2437::int"] exI [of _ "2462::int"], simp)+
  then show ?thesis by simp
qed

lemma demo_channel_index: "findChannelIndex (sa_capabilities demo_adapter) (Fin 2437) = Some 2"
  using find_index_own [of "sa_capabilities demo_adapter" 1] demo_profile by simp

definition demo_recovering :: "int \<Rightarrow> silvus_adapter" where
  "demo_recovering now = demo_adapter\<lparr>recovering_until := now + 30000000000,
     sa_state := default_radio_state\<lparr>rs_channel_index := Some 2, rs_status := RadioStatus.Recovering\<rparr>\<rparr>"

lemma demo_set_channel:
  "silvus_set_channel demo 2 (Fin 2437) demo_adapter now = Some (ok_result, demo_recovering now, now + 1)"
  using demo_channel_index
  by (simp add: silvus_set_channel_def isRecoveryWindowActive_def demo_rpc demo_recovering_def)

theorem recovery_window_witness:
  "silvus_set_channel demo 2 (Fin 2437) demo_adapter 1000 = Some (ok_result, demo_recovering 1000, 1001) \<and>
   silvus_set_power demo (Fin 1) (demo_recovering 1000) 30000000999 =
     Some (busy_recovering, demo_recovering 1000, 30000001000)"
  using demo_set_channel [of 1000]
    recovery_window [of demo 2 "Fin 2437" demo_adapter 1000 ok_result "demo_recovering 1000" 1001
      30000000999 30000000999 30000001000 "Fin 1"]
  by (simp add: demo_recovering_def)


lemma demo_range: "in_power_range (sa_capabilities demo_adapter) (dbmToWatts (Fin 20))"
  using dbmToWatts_mono [of "Fin 0" "Fin 20"] dbmToWatts_mono [of "Fin 20" "Fin 39"]
  by (simp add: in_power_range_def flt_def not_less)

lemma demo_enable: "readEnableMaxPower demo demo_adapter now = (None, now)"
  by (simp add: readEnableMaxPower_def demo_rpc parseBooleanResult_def first_result_def)


text \<open>While the radio reports enable_max_power, or when its last report said so, a power command is
  refused as Busy after that one question and no power_dBm request is sent.\<close>

theorem max_power_blocks_set_power:
  assumes "recovering_until a = 0" "readEnableMaxPower P a e = (m, e1)"
    and "m = Some True \<or> m = None \<and> \<not> manual_power_control_available (sa_capabilities a)"
  shows "silvus_set_power P w a e =
    Some (result CommandResultCode.Busy ''Manual power control is unavailable while enable_max_power=1''
      (Some ''{\"enable_max_power\":true}''), note_enable_max_power m a, e1)"
  using assms by (auto simp: silvus_set_power_def isRecoveryWindowActive_def note_enable_max_power_def)

definition demo_max_power :: silvus_adapter where
  "demo_max_power = note_enable_max_power (Some True) demo_adapter"

theorem max_power_blocks_set_power_witness:
  "silvus_set_power demo (Fin 1) demo_max_power 7 =
    Some (result CommandResultCode.Busy ''Manual power control is unavailable while enable_max_power=1''
      (Some ''{\"enable_max_power\":true}''), demo_max_power, 7)"
proof -
  have "readEnableMaxPower demo demo_max_power 7 = (None, 7)"
    by (simp add: readEnableMaxPower_def demo_rpc parseBooleanResult_def first_result_def demo_max_power_def)
  moreover have "\<not> manual_power_control_available (sa_capabilities demo_max_power)"
    by (simp add: demo_max_power_def note_enable_max_power_def)
  ultimately show ?thesis
    using max_power_blocks_set_power [of demo_max_power demo 7 None 7 "Fin 1"]
    by (simp add: demo_max_power_def note_enable_max_power_def)
qed


text \<open>On a profile of distinct whole megahertz, a command for the k-th channel at its advertised
  frequency asks the radio for exactly that frequency and, once the radio accepts, the stored channel
  is k and the recovery window is open; every refusal leaves the adapter as it was.\<close>

theorem set_channel_sends_frequency:
  assumes "distinct (supported_frequencies_mhz (sa_capabilities a))"
    and "\<forall>f \<in> set (supported_frequencies_mhz (sa_capabilities a)). whole_mhz f"
    and "1 \<le> k" "k \<le> int (length (supported_frequencies_mhz (sa_capabilities a)))"
    and "f = supported_frequencies_mhz (sa_capabilities a) ! nat (k - 1)" "flt (Fin 0) f"
    and "recovering_until a = 0"
  shows "silvus_set_channel P k f a e =
    Some (case rpc P a ''1'' ''freq'' [formatSilvusNumber f] e of
      (RpcOk _, e1) \<Rightarrow>
        (ok_result, a\<lparr>recovering_until := fst (steady_now P e1) + soft_boot_recovery_duration a,
           sa_state := (sa_state a)\<lparr>rs_channel_index := Some k, rs_status := RadioStatus.Recovering\<rparr>\<rparr>,
         snd (steady_now P e1))
    | (failure, e1) \<Rightarrow> (rpc_failure P failure, a, e1))"
proof -
  have "findChannelIndex (sa_capabilities a) f = Some k"
    using find_index_own [OF assms(1,2), of "nat (k - 1)"] assms(3-5) by simp
  moreover have "\<not> fle f (Fin 0)" using assms(6) by (cases f) (auto simp: fle_def flt_def)
  ultimately show ?thesis
    using assms(3,7) by (simp add: silvus_set_channel_def isRecoveryWindowActive_def split: prod.split rpc_reply.split)
qed

theorem set_channel_sends_frequency_witness:
  "silvus_set_channel demo 2 (Fin 2437) demo_adapter 9 = Some (ok_result, demo_recovering 9, 10)"
proof -
  have "\<forall>f \<in> set (supported_frequencies_mhz (sa_capabilities demo_adapter)). whole_mhz f"
    using demo_profile by simp
  note * = set_channel_sends_frequency [OF _ this, of 2 "Fin 2437" demo 9]
  have "silvus_set_channel demo 2 (Fin 2437) demo_adapter 9 = Some (ok_result,
      demo_adapter\<lparr>recovering_until := 9 + soft_boot_recovery_duration demo_adapter, sa_state :=
        (sa_state demo_adapter)\<lparr>rs_channel_index := Some 2, rs_status := RadioStatus.Recovering\<rparr>\<rparr>, 10)"
    by (subst *) (simp_all add: demo_rpc)
  then show ?thesis by (simp add: demo_recovering_def)
qed

text \<open>A frequency that no advertised channel matches within 1 kHz is refused as InvalidRange
  before anything is sent, whatever index the caller names.\<close>

theorem set_channel_rejects_unlisted:
  assumes "supported_frequencies_mhz (sa_capabilities a) \<noteq> []"
    and "\<forall>x \<in> set (supported_frequencies_mhz (sa_capabilities a)). \<not> same_channel x f"
    and "recovering_until a = 0"
  shows "\<exists>msg. silvus_set_channel P i f a e = Some (result CommandResultCode.InvalidRange msg None, a, e)"
  using assms by (auto simp: silvus_set_channel_def isRecoveryWindowActive_def simp flip: findChannelIndex_None)

theorem set_channel_rejects_unlisted_witness:
  "\<exists>msg. silvus_set_channel demo 1 (Fin 2450) demo_adapter 3 =
     Some (result CommandResultCode.InvalidRange msg None, demo_adapter, 3)"
  using set_channel_rejects_unlisted [of demo_adapter "Fin 2450" demo 1 3]
    not_same_channel_ints [of 2412 2450] not_same_channel_ints [of 2437 2450] not_same_channel_ints [of 2462 2450]
  by simp

lemma parseSupportedFrequencies_sorted:
  assumes "parseSupportedFrequencies response = Some fs" "NaN \<notin> set fs"
  shows "sorted fs \<and> distinct fs"
proof -
  have "sort_unique gs = Some fs \<Longrightarrow> sorted fs \<and> distinct fs" for gs
    using sort_unique_set [of gs fs] sort_unique_spec [of gs] assms(2) by auto
  moreover have "fs = [] \<or> (\<exists>gs. sort_unique gs = Some fs)"
    using assms(1) by (auto simp: parseSupportedFrequencies_def bind_eq_Some_conv split: option.splits json.splits)
  ultimately show ?thesis by auto
qed

text \<open>Connecting: when the radio answers, the advertised profile replaces the default one (sorted,
  without duplicates; an empty answer keeps the default), the adapter is Ready and no recovery window
  is open; when it does not, the adapter is unchanged.\<close>

theorem connect_result:
  assumes "silvus_connect P a e = Some (r, a', e')"
  shows "if ar_code r = CommandResultCode.Ok
    then \<exists>response fs. parseSupportedFrequencies response = Some fs \<and>
      supported_frequencies_mhz (sa_capabilities a') =
        (if fs = [] then supported_frequencies_mhz (sa_capabilities a) else fs) \<and>
      (NaN \<notin> set fs \<longrightarrow> sorted fs \<and> distinct fs) \<and>
      rs_status (sa_state a') = RadioStatus.Ready \<and> recovering_until a' = 0
    else a' = a"
proof (cases "rpc P a ''1'' ''supported_frequency_profiles'' [] e")
  case (Pair reply e1)
  show ?thesis
  proof (cases reply)
    case (RpcOk response)
    with assms Pair obtain fs where fs: "parseSupportedFrequencies response = Some fs"
      by (auto simp: silvus_connect_def bind_eq_Some_conv)
    define b where "b = (if fs \<noteq> [] then a\<lparr>sa_capabilities := (sa_capabilities a)\<lparr>supported_frequencies_mhz := fs\<rparr>\<rparr> else a)"
    obtain m e2 where m: "readEnableMaxPower P b e1 = (m, e2)" by fastforce
    have "r = ok_result \<and> a' = set_status RadioStatus.Ready ((note_enable_max_power m b)\<lparr>recovering_until := 0\<rparr>)"
      using assms Pair RpcOk fs m by (auto simp: silvus_connect_def Let_def simp flip: b_def)
    then have a': "r = ok_result"
        "supported_frequencies_mhz (sa_capabilities a') =
          (if fs = [] then supported_frequencies_mhz (sa_capabilities a) else fs)"
        "rs_status (sa_state a') = RadioStatus.Ready" "recovering_until a' = 0"
      by (simp_all add: b_def)
    from fs a' parseSupportedFrequencies_sorted [OF fs] show ?thesis by auto
  qed (use assms Pair in \<open>auto simp: silvus_connect_def\<close>)
qed

theorem connect_result_witness:
  "\<exists>a' e'. silvus_connect demo demo_adapter 4 = Some (ok_result, a', e') \<and>
     rs_status (sa_state a') = RadioStatus.Ready"
proof -
  have "silvus_connect demo demo_adapter 4 \<noteq> None"
    by (simp add: silvus_connect_def demo_rpc parseSupportedFrequencies_def demo_enable)
  then obtain r a' e' where step: "silvus_connect demo demo_adapter 4 = Some (r, a', e')" by auto
  have "r = ok_result"
    using step by (simp add: silvus_connect_def demo_rpc parseSupportedFrequencies_def demo_enable)
  then show ?thesis using connect_result [OF step] step by auto
qed

text \<open>A refresh stores what the radio reports: the power in watts of the integer dBm it sent, the
  channel of the frequency it sent (none when the profile lacks it), and the adapter is Ready with no
  window open. It never changes the limits.\<close>

theorem refresh_reports:
  assumes "recovering_until a = 0"
    and "rpc P a ''1'' ''power_dBm'' [] e = (RpcOk pw, e1)" "rpc P a ''2'' ''freq'' [] e1 = (RpcOk fw, e2)"
  shows "\<exists>a' e'. silvus_refresh_state P a e = Some (ok_result, a', e') \<and>
    rs_power_watts (sa_state a') = map_option (\<lambda>n. dbmToWatts (Fin (of_int n))) (parsePowerResult pw) \<and>
    rs_channel_index (sa_state a') = Option.bind (parseFrequencyResult fw) (findChannelIndex (sa_capabilities a)) \<and>
    rs_status (sa_state a') = RadioStatus.Ready \<and> recovering_until a' = 0 \<and>
    same_limits (sa_capabilities a') (sa_capabilities a)"
proof -
  have same: "rpc P (a\<lparr>sa_state := st\<rparr>) i m ps e = rpc P a i m ps e" for st i m ps e
    by (simp add: rpc_def)
  show ?thesis
    using assms by (auto simp: silvus_refresh_state_def isRecoveryWindowActive_def same same_limits_def Let_def
        split: prod.split)
qed

definition demo_saying :: "json \<Rightarrow> int platform" where
  "demo_saying j = demo\<lparr>json_parse := (\<lambda>text. Some j)\<rparr>"

lemma demo_saying_rpc:
  assumes "sa_endpoint a = ''http://10.0.0.1:80''" "json_find ''error'' j = None"
  shows "rpc (demo_saying j) a i m ps now = (RpcOk j, now)"
proof -
  have "sendHttpPost (demo_saying j) ''http://10.0.0.1:80'' body t now = (Inr ''{}'', now)" for body t
    by (simp add: sendHttpPost_def demo_saying_def)
  with assms show ?thesis by (simp add: rpc_def) (simp add: demo_saying_def)
qed

theorem refresh_reports_witness:
  "\<exists>a' e'. silvus_refresh_state (demo_saying (JObject [(''result'', JArray [JInt 20])])) demo_adapter 6 =
      Some (ok_result, a', e') \<and>
    rs_power_watts (sa_state a') = Some (dbmToWatts (Fin 20)) \<and> rs_status (sa_state a') = RadioStatus.Ready"
  using refresh_reports [of demo_adapter "demo_saying (JObject [(''result'', JArray [JInt 20])])" 6
      "JObject [(''result'', JArray [JInt 20])]" 6 "JObject [(''result'', JArray [JInt 20])]" 6]
  by (auto simp: demo_saying_rpc parsePowerResult_def first_result_def int32_of_id)

end
