(* ===== verification/Config_Types.thy ===== *)
theory Config_Types
  imports Double "HOL-Library.Word"
begin

text \<open>
  The configuration of config/types.hpp with its defaults.
\<close>

record network_config =
  bind_address :: string
  command_port :: "16 word"

record telemetry_config =
  sse_port :: "16 word"
  heartbeat_interval :: int
  event_buffer_size :: nat
  event_retention :: int
  max_sse_clients :: nat
  client_idle_timeout :: int

record security_config =
  token_secret :: string
  allow_unauthenticated_dev_access :: bool
  allowed_roles :: "string list"
  token_ttl :: int

record audit_config =
  audit_enabled :: bool
  file_path :: string
  rotate_after_bytes :: nat
  rotated_file_count :: nat

record radio_entry =
  re_id :: string
  re_adapter :: string
  re_endpoint :: string
  re_description :: "string option"
  min_power_dbm :: "double option"
  max_power_dbm :: "double option"

record timing_profile =
  normal_probe :: int
  recovering_probe :: int
  offline_probe :: int

record container_info =
  container_id :: string
  deployment :: string
  soldier_id :: string

record service_discovery_config =
  sd_enabled :: bool
  sd_port :: "16 word"
  sd_ttl :: int
  startup_burst_count :: int
  startup_burst_spacing_ms :: int
  sd_bind_address :: string
  interface_hint :: "string option"

record config =
  cfg_container :: container_info
  cfg_network :: network_config
  cfg_telemetry :: telemetry_config
  cfg_security :: security_config
  cfg_audit :: audit_config
  cfg_service_discovery :: service_discovery_config
  cfg_timing :: timing_profile
  cfg_radios :: "radio_entry list"

definition default_container :: container_info where
  "default_container = \<lparr>container_id = [], deployment = [], soldier_id = []\<rparr>"

definition default_network :: network_config where
  "default_network = \<lparr>bind_address = ''0.0.0.0'', command_port = 8080\<rparr>"

definition default_telemetry :: telemetry_config where
  "default_telemetry = \<lparr>sse_port = 0, heartbeat_interval = 30, event_buffer_size = 512,
     event_retention = 24, max_sse_clients = 8, client_idle_timeout = 60\<rparr>"

definition default_security :: security_config where
  "default_security = \<lparr>token_secret = [], allow_unauthenticated_dev_access = False,
     allowed_roles = [], token_ttl = 300\<rparr>"

definition default_audit :: audit_config where
  "default_audit = \<lparr>audit_enabled = True, file_path = ''/var/log/rcc/audit.log'',
     rotate_after_bytes = 1024 * 1024, rotated_file_count = 10\<rparr>"

definition default_timing :: timing_profile where
  "default_timing = \<lparr>normal_probe = 30, recovering_probe = 10, offline_probe = 60\<rparr>"

definition default_service_discovery :: service_discovery_config where
  "default_service_discovery = \<lparr>sd_enabled = True, sd_port = 9999, sd_ttl = 60,
     startup_burst_count = 1, startup_burst_spacing_ms = 1000,
     sd_bind_address = ''0.0.0.0'', interface_hint = None\<rparr>"

definition default_config :: config where
  "default_config = \<lparr>cfg_container = default_container, cfg_network = default_network,
     cfg_telemetry = default_telemetry, cfg_security = default_security, cfg_audit = default_audit,
     cfg_service_discovery = default_service_discovery, cfg_timing = default_timing, cfg_radios = []\<rparr>"

definition effective_sse_port :: "config \<Rightarrow> 16 word" where
  "effective_sse_port cfg =
     (if 0 < sse_port (cfg_telemetry cfg) then sse_port (cfg_telemetry cfg) else command_port (cfg_network cfg) + 1)"

end
