(* ===== verification/Radio_Manager.thy ===== *)
theory Radio_Manager
  imports Silvus_Adapter Config_Types
begin

text \<open>
  radio_manager.cpp: the radios of the configuration by id, their adapters, and the active radio.
  std::unordered_map is an association list whose order is the map's unspecified iteration order.
  An adapter is shared by reference in the code; put_adapter writes the adapter's new state back
  to the one place that holds it. The manager is generic in the adapter interface; only loading
  the configuration creates Silvus adapters.
\<close>

record 'a radio_descriptor =
  rd_id :: string
  rd_adapter_type :: string
  rd_adapter :: "'a option"
  rd_state :: radio_state

record 'a radio_manager =
  radios :: "(string \<times> 'a radio_descriptor) list"
  active_radio_id :: "string option"

definition entry_descriptor :: "radio_entry \<Rightarrow> silvus_adapter radio_descriptor" where
  "entry_descriptor radio =
     (let powerDbmRange = (case (min_power_dbm radio, max_power_dbm radio) of
               (Some lo, Some hi) \<Rightarrow> Some (lo, hi) | _ \<Rightarrow> None);
          adapter = make_silvus_adapter (re_id radio) (re_endpoint radio) powerDbmRange 3000 (30 * 10 ^ 9)
      in \<lparr>rd_id = re_id radio, rd_adapter_type = re_adapter radio, rd_adapter = Some adapter,
          rd_state = sa_state adapter\<rparr>)"

definition load_entry ::
  "(string \<times> silvus_adapter radio_descriptor) list \<Rightarrow> radio_entry \<Rightarrow> (string \<times> silvus_adapter radio_descriptor) list" where
  "load_entry ds radio =
     (if re_adapter radio = ''silvus'' then emplace (re_id radio) (entry_descriptor radio) ds else ds)"

definition load_from_config :: "config \<Rightarrow> silvus_adapter radio_manager" where
  "load_from_config cfg = \<lparr>radios = foldl load_entry [] (cfg_radios cfg), active_radio_id = None\<rparr>"

fun start_radios ::
  "('a, 'e) radio_adapter_ops \<Rightarrow> (string \<times> 'a radio_descriptor) list \<Rightarrow> 'e \<Rightarrow>
   ((string \<times> 'a radio_descriptor) list \<times> 'e) option" where
  "start_radios V [] e = Some ([], e)"
| "start_radios V ((k, d) # ds) e =
     do { a \<leftarrow> rd_adapter d;
          (r, a, e) \<leftarrow> op_connect V a e;
          let d = d\<lparr>rd_adapter := Some a\<rparr>;
          let d = (if ar_code r = CommandResultCode.Ok then d\<lparr>rd_state := op_state V a\<rparr> else d);
          (ds, e) \<leftarrow> start_radios V ds e;
          Some ((k, d) # ds, e) }"

definition manager_start ::
  "('a, 'e) radio_adapter_ops \<Rightarrow> 'a radio_manager \<Rightarrow> 'e \<Rightarrow> ('a radio_manager \<times> 'e) option" where
  "manager_start V m e = map_option (\<lambda>(ds, e). (m\<lparr>radios := ds\<rparr>, e)) (start_radios V (radios m) e)"

definition manager_stop :: "'a radio_manager \<Rightarrow> 'a radio_manager" where
  "manager_stop m = m\<lparr>active_radio_id := None\<rparr>"

definition list_radios :: "'a radio_manager \<Rightarrow> 'a radio_descriptor list" where
  "list_radios m = map snd (radios m)"

definition set_active_radio :: "string \<Rightarrow> 'a radio_manager \<Rightarrow> bool \<times> 'a radio_manager" where
  "set_active_radio radioId m =
     (if map_of (radios m) radioId = None then (False, m)
      else (True, m\<lparr>active_radio_id := Some radioId\<rparr>))"

definition get_adapter :: "'a radio_manager \<Rightarrow> string \<Rightarrow> 'a option" where
  "get_adapter m radioId = Option.bind (map_of (radios m) radioId) rd_adapter"

definition get_state :: "('a, 'e) radio_adapter_ops \<Rightarrow> 'a radio_manager \<Rightarrow> string \<Rightarrow> radio_state option" where
  "get_state V m radioId =
     (case map_of (radios m) radioId of
        None \<Rightarrow> Some default_radio_state
      | Some d \<Rightarrow> map_option (op_state V) (rd_adapter d))"

definition put_adapter :: "string \<Rightarrow> 'a \<Rightarrow> 'a radio_manager \<Rightarrow> 'a radio_manager" where
  "put_adapter radioId a m =
     m\<lparr>radios := AList.map_entry radioId (\<lambda>d. d\<lparr>rd_adapter := Some a\<rparr>) (radios m)\<rparr>"

section \<open>The invariant of the manager\<close>

definition descriptor_ok :: "('a, 'e) radio_adapter_ops \<Rightarrow> ('a \<Rightarrow> bool) \<Rightarrow> string \<times> 'a radio_descriptor \<Rightarrow> bool" where
  "descriptor_ok V ainv p \<longleftrightarrow> rd_id (snd p) = fst p \<and>
     (case rd_adapter (snd p) of Some a \<Rightarrow> ainv a \<and> op_id V a = fst p | None \<Rightarrow> False)"

definition manager_inv :: "('a, 'e) radio_adapter_ops \<Rightarrow> ('a \<Rightarrow> bool) \<Rightarrow> 'a radio_manager \<Rightarrow> bool" where
  "manager_inv V ainv m \<longleftrightarrow>
     distinct (map fst (radios m)) \<and>
     list_all (descriptor_ok V ainv) (radios m) \<and>
     (case active_radio_id m of Some k \<Rightarrow> k \<in> fst ` set (radios m) | None \<Rightarrow> True)"

lemma manager_inv_get:
  assumes "manager_inv V ainv m" "get_adapter m k = Some a"
  shows "ainv a \<and> op_id V a = k"
proof -
  obtain d where d: "map_of (radios m) k = Some d" "rd_adapter d = Some a"
    using assms(2) by (auto simp: get_adapter_def bind_eq_Some_conv)
  have "(k, d) \<in> set (radios m)" using d(1) by (rule map_of_SomeD)
  then show ?thesis using assms(1) d(2) by (fastforce simp: manager_inv_def list_all_iff descriptor_ok_def)
qed

lemma get_put_adapter:
  "get_adapter (put_adapter k a m) j =
     (if j = k \<and> map_of (radios m) k \<noteq> None then Some a else get_adapter m j)"
  by (auto simp: get_adapter_def put_adapter_def AList.map_of_map_entry split: option.split)

lemma get_adapter_known: "get_adapter m k = Some a \<Longrightarrow> map_of (radios m) k \<noteq> None"
  by (auto simp: get_adapter_def bind_eq_Some_conv)

interpretation adapters: keyed_store get_adapter put_adapter
  by unfold_locales (auto simp: get_put_adapter dest: get_adapter_known)

lemma put_adapter_frame [simp]:
  "active_radio_id (put_adapter k a m) = active_radio_id m"
  "map fst (radios (put_adapter k a m)) = map fst (radios m)"
  "fst ` set (radios (put_adapter k a m)) = fst ` set (radios m)"
  by (simp_all add: put_adapter_def map_fst_map_entry AList.dom_map_entry)

lemma put_adapter_inv:
  assumes "manager_inv V ainv m" "ainv a" "op_id V a = k"
  shows "manager_inv V ainv (put_adapter k a m)"
proof -
  have "list_all P (AList.map_entry k f xs)"
    if "list_all P xs" "\<And>d. P (k, d) \<Longrightarrow> P (k, f d)" for P f and xs :: "(string \<times> 'a radio_descriptor) list"
    using that by (induction xs) auto
  from this [of "descriptor_ok V ainv" "radios m" "\<lambda>d. d\<lparr>rd_adapter := Some a\<rparr>"] assms
  show ?thesis
    unfolding manager_inv_def put_adapter_frame
    by (simp add: put_adapter_def AList.dom_map_entry descriptor_ok_def split: option.split)
qed

lemma set_active_radio_inv:
  "manager_inv V ainv m \<Longrightarrow> set_active_radio k m = (b, m') \<Longrightarrow> manager_inv V ainv m'"
  by (auto simp: manager_inv_def set_active_radio_def split: if_splits dest!: map_of_SomeD)
    (metis fst_conv image_eqI)

lemma manager_stop_inv: "manager_inv V ainv m \<Longrightarrow> manager_inv V ainv (manager_stop m)"
  by (simp add: manager_inv_def manager_stop_def)

section \<open>Loading the configuration\<close>

definition entry_ok :: "radio_entry \<Rightarrow> bool" where
  "entry_ok e \<longleftrightarrow> (case (min_power_dbm e, max_power_dbm e) of
     (Some lo, Some hi) \<Rightarrow> (\<exists>l h. lo = Fin l \<and> hi = Fin h \<and> 0 \<le> l \<and> l \<le> h \<and> h \<le> 39)
   | _ \<Rightarrow> True)"

lemma make_silvus_adapter_inv:
  assumes "case configured of Some (lo, hi) \<Rightarrow> (\<exists>l h. lo = Fin l \<and> hi = Fin h \<and> 0 \<le> l \<and> l \<le> h \<and> h \<le> 39) | None \<Rightarrow> True"
  shows "silvus_inv (make_silvus_adapter k ep configured t d)"
proof -
  have "dbm_range (sa_capabilities (make_silvus_adapter k ep configured t d))"
  proof (cases configured)
    case None
    show ?thesis
      unfolding dbm_range_def
      by (rule exI [of _ "0 :: real"], rule exI [of _ "39 :: real"]) (simp add: make_silvus_adapter_def None)
  next
    case (Some r)
    with assms show ?thesis by (auto simp: dbm_range_def make_silvus_adapter_def)
  qed
  then show ?thesis
    by (simp add: silvus_inv_def channel_ok_def make_silvus_adapter_def default_radio_state_def)
qed

lemma entry_descriptor_ok:
  assumes "entry_ok e"
  shows "descriptor_ok (silvus_ops P) silvus_inv (re_id e, entry_descriptor e)"
proof -
  have "silvus_inv (make_silvus_adapter k ep (case (min_power_dbm e, max_power_dbm e) of
      (Some lo, Some hi) \<Rightarrow> Some (lo, hi) | _ \<Rightarrow> None) t d)" for k ep t d
    by (rule make_silvus_adapter_inv) (use assms in \<open>auto simp: entry_ok_def split: option.splits\<close>)
  then show ?thesis
    by (simp add: descriptor_ok_def entry_descriptor_def silvus_ops_def Let_def) (simp add: make_silvus_adapter_def)
qed

lemma load_entry_ok:
  assumes "entry_ok e" "list_all (descriptor_ok (silvus_ops P) silvus_inv) ds" "distinct (map fst ds)"
  shows "list_all (descriptor_ok (silvus_ops P) silvus_inv) (load_entry ds e) \<and> distinct (map fst (load_entry ds e))"
  using assms entry_descriptor_ok [OF assms(1)] set_emplace [of "re_id e" "entry_descriptor e" ds]
  by (auto simp: load_entry_def list_all_iff distinct_emplace)

lemma load_from_config_inv:
  assumes "list_all entry_ok (cfg_radios cfg)"
  shows "manager_inv (silvus_ops P) silvus_inv (load_from_config cfg)"
proof -
  have "list_all (descriptor_ok (silvus_ops P) silvus_inv) (foldl load_entry ds es) \<and> distinct (map fst (foldl load_entry ds es))"
    if "list_all entry_ok es" "list_all (descriptor_ok (silvus_ops P) silvus_inv) ds" "distinct (map fst ds)" for es ds
    using that by (induction es arbitrary: ds) (use load_entry_ok in auto)
  from this [OF assms, of "[]"] show ?thesis
    by (simp add: manager_inv_def load_from_config_def)
qed

lemma load_entry_keys:
  "fst ` set (load_entry ds e) = fst ` set ds \<union> (if re_adapter e = ''silvus'' then {re_id e} else {})"
  by (simp add: load_entry_def keys_emplace)

lemma load_from_config_keys:
  "fst ` set (radios (load_from_config cfg)) = re_id ` {e \<in> set (cfg_radios cfg). re_adapter e = ''silvus''}"
proof -
  have "fst ` set (foldl load_entry ds es) = fst ` set ds \<union> re_id ` {e \<in> set es. re_adapter e = ''silvus''}" for es ds
    by (induction es arbitrary: ds) (auto simp: load_entry_keys)
  then show ?thesis by (simp add: load_from_config_def)
qed


section \<open>Connecting the radios at start-up\<close>

definition unselected :: "('a, 'e) radio_adapter_ops \<Rightarrow> string \<times> 'a radio_descriptor \<Rightarrow> bool" where
  "unselected V p \<longleftrightarrow> (\<forall>a. rd_adapter (snd p) = Some a \<longrightarrow> rs_channel_index (op_state V a) = None)"

context radio_adapter
begin

lemma start_radios_keeps:
  "start_radios ops ds e = Some (ds', e') \<Longrightarrow> list_all (descriptor_ok ops ainv) ds \<Longrightarrow>
   list_all (unselected ops) ds \<Longrightarrow>
   list_all (descriptor_ok ops ainv) ds' \<and> list_all (unselected ops) ds' \<and> map fst ds' = map fst ds"
proof (induction ds arbitrary: e ds')
  case (Cons p ds)
  obtain k d where p: "p = (k, d)" by (cases p)
  from Cons.prems(1) obtain a r a1 e1 ds1 e2 where
    s: "rd_adapter d = Some a" "op_connect ops a e = Some (r, a1, e1)" "start_radios ops ds e1 = Some (ds1, e2)"
      "e' = e2" "ds' = (k, let d = d\<lparr>rd_adapter := Some a1\<rparr>
         in if ar_code r = CommandResultCode.Ok then d\<lparr>rd_state := op_state ops a1\<rparr> else d) # ds1"
    by (auto simp: p bind_eq_Some_conv Let_def)
  have "ainv a" "op_id ops a = k" "rs_channel_index (op_state ops a) = None" "rd_id d = k"
    using Cons.prems(2,3) s(1) by (auto simp: p descriptor_ok_def unselected_def)
  with connect_keeps [OF _ _ s(2)] show ?case
    using Cons.IH [OF s(3)[folded s(4)]] Cons.prems(2,3) s(4,5)
    by (auto simp: p descriptor_ok_def unselected_def Let_def)
qed simp

lemma manager_start_inv:
  assumes "manager_start ops m e = Some (m', e')" "manager_inv ops ainv m" "list_all (unselected ops) (radios m)"
  shows "manager_inv ops ainv m' \<and> list_all (unselected ops) (radios m')"
proof -
  from assms(1) obtain ds where ds: "start_radios ops (radios m) e = Some (ds, e')" "m' = m\<lparr>radios := ds\<rparr>"
    by (auto simp: manager_start_def)
  have keeps: "list_all (descriptor_ok ops ainv) ds \<and> list_all (unselected ops) ds \<and> map fst ds = map fst (radios m)"
    using start_radios_keeps [OF ds(1)] assms(2,3) by (simp add: manager_inv_def)
  then have "fst ` set ds = fst ` set (radios m)" by (metis list.set_map)
  with keeps show ?thesis
    using assms(2) unfolding manager_inv_def ds(2) by (simp split: option.splits)
qed

end

lemma load_entry_unselected:
  assumes "list_all (unselected (silvus_ops P)) ds"
  shows "list_all (unselected (silvus_ops P)) (load_entry ds e)"
proof -
  have "unselected (silvus_ops P) (k, entry_descriptor e)" for k
    by (simp add: unselected_def silvus_ops_def entry_descriptor_def Let_def make_silvus_adapter_def default_radio_state_def)
  with assms show ?thesis
    using set_emplace [of "re_id e" "entry_descriptor e" ds] by (auto simp: load_entry_def list_all_iff)
qed

lemma load_from_config_unselected: "list_all (unselected (silvus_ops P)) (radios (load_from_config cfg))"
proof -
  have "list_all (unselected (silvus_ops P)) (foldl load_entry ds es)"
    if "list_all (unselected (silvus_ops P)) ds" for ds es
    using that by (induction es arbitrary: ds) (simp_all add: load_entry_unselected)
  then show ?thesis by (simp add: load_from_config_def)
qed

lemma foldl_load_entry:
  "map_of (foldl load_entry ds es) k = (case map_of ds k of Some d \<Rightarrow> Some d
     | None \<Rightarrow> map_option entry_descriptor (find (\<lambda>e. re_adapter e = ''silvus'' \<and> re_id e = k) es))"
  by (induction es arbitrary: ds) (auto simp: load_entry_def map_of_emplace split: option.split)

text \<open>Loading a configuration registers exactly the entries of type silvus, the first one for each id,
  each with an adapter for its own endpoint whose power range is the entry's override or 0 to 39 dBm;
  other adapter types are skipped and no radio is active.\<close>

theorem load_registers_first_entries:
  "map_of (radios (load_from_config cfg)) k =
     map_option entry_descriptor (find (\<lambda>e. re_adapter e = ''silvus'' \<and> re_id e = k) (cfg_radios cfg)) \<and>
   active_radio_id (load_from_config cfg) = None \<and> distinct (map fst (radios (load_from_config cfg)))"
proof -
  have "distinct (map fst (foldl load_entry ds es))" if "distinct (map fst ds)" for ds es
    using that by (induction es arbitrary: ds) (simp_all add: load_entry_def distinct_emplace)
  then show ?thesis by (simp add: load_from_config_def foldl_load_entry)
qed

end
