(* ===== verification/Timestamps.thy ===== *)
theory Timestamps
  imports Cpp_Strings
begin

text \<open>
  The timestamps of telemetry_hub.cpp and api_gateway.cpp: system_clock::to_time_t, gmtime_r and
  strftime with the format %Y-%m-%dT%H:%M:%SZ. The calendar of gmtime_r is given by its rule, one
  day after (or before) another from 1 January 1970 on; years beyond int, where gmtime_r fails, are
  left aside.
\<close>

type_synonym date = "int \<times> int \<times> int"

definition leap_year :: "int \<Rightarrow> bool" where
  "leap_year y \<longleftrightarrow> y mod 4 = 0 \<and> (y mod 100 \<noteq> 0 \<or> y mod 400 = 0)"

definition month_days :: "int \<Rightarrow> int \<Rightarrow> int" where
  "month_days y m = (if m = 2 then if leap_year y then 29 else 28
     else if m = 4 \<or> m = 6 \<or> m = 9 \<or> m = 11 then 30 else 31)"

fun next_day :: "date \<Rightarrow> date" where
  "next_day (y, m, d) =
     (if d < month_days y m then (y, m, d + 1) else if m < 12 then (y, m + 1, 1) else (y + 1, 1, 1))"

fun previous_day :: "date \<Rightarrow> date" where
  "previous_day (y, m, d) =
     (if 1 < d then (y, m, d - 1) else if 1 < m then (y, m - 1, month_days y (m - 1)) else (y - 1, 12, 31))"

definition civil_date :: "int \<Rightarrow> date" where
  "civil_date n = (if 0 \<le> n then (next_day ^^ nat n) (1970, 1, 1) else (previous_day ^^ nat (- n)) (1970, 1, 1))"

record utc_time =
  utc_year :: int
  utc_month :: int
  utc_day :: int
  utc_hour :: int
  utc_minute :: int
  utc_second :: int

definition gmtime :: "int \<Rightarrow> utc_time" where
  "gmtime t = (let (y, m, d) = civil_date (t div 86400); s = t mod 86400
     in \<lparr>utc_year = y, utc_month = m, utc_day = d, utc_hour = s div 3600,
          utc_minute = s mod 3600 div 60, utc_second = s mod 60\<rparr>)"

definition two_digits :: "int \<Rightarrow> string" where
  "two_digits n = [digit_char (nat n div 10), digit_char (nat n mod 10)]"

definition strftime_utc :: "utc_time \<Rightarrow> string" where
  "strftime_utc u = show_int (utc_year u) @ ''-'' @ two_digits (utc_month u) @ ''-'' @ two_digits (utc_day u) @
     ''T'' @ two_digits (utc_hour u) @ '':'' @ two_digits (utc_minute u) @ '':'' @ two_digits (utc_second u) @ ''Z''"

text \<open>A time point of the system clock, in milliseconds, to whole seconds: duration_cast truncates.\<close>

definition to_time_t :: "int \<Rightarrow> int" where
  "to_time_t ms = (if 0 \<le> ms then ms div 1000 else - ((- ms) div 1000))"

definition iso8601_utc :: "int \<Rightarrow> string" where
  "iso8601_utc ms = strftime_utc (gmtime (to_time_t ms))"

section \<open>The calendar\<close>

fun valid_date :: "date \<Rightarrow> bool" where
  "valid_date (y, m, d) \<longleftrightarrow> 1 \<le> m \<and> m \<le> 12 \<and> 1 \<le> d \<and> d \<le> month_days y m"

fun date_less :: "date \<Rightarrow> date \<Rightarrow> bool" where
  "date_less (y, m, d) (y', m', d') \<longleftrightarrow> y < y' \<or> y = y' \<and> (m < m' \<or> m = m' \<and> d < d')"

lemma month_days_bounds: "28 \<le> month_days y m" "month_days y m \<le> 31"
  by (simp_all add: month_days_def)

lemma next_day_valid: "valid_date x \<Longrightarrow> valid_date (next_day x)"
  using month_days_bounds(1) by (cases x) (auto intro: order_trans [of _ 28])

lemma previous_day_valid: "valid_date x \<Longrightarrow> valid_date (previous_day x)"
  using month_days_bounds(1) by (cases x) (auto intro: order_trans [of _ 28], simp add: month_days_def)

lemma next_previous_day: "valid_date x \<Longrightarrow> next_day (previous_day x) = x"
  by (cases x) (auto simp: month_days_def)

lemma next_day_later: "date_less x (next_day x)"
  by (cases x) auto

lemma date_less_trans: "date_less x y \<Longrightarrow> date_less y z \<Longrightarrow> date_less x z"
  by (cases x; cases y; cases z) auto

lemma civil_date_valid: "valid_date (civil_date n)"
proof -
  have "valid_date ((f ^^ k) (1970, 1, 1))" if "\<And>x. valid_date x \<Longrightarrow> valid_date (f x)" for f k
    by (induction k) (auto simp: month_days_def intro: that)
  then show ?thesis unfolding civil_date_def using next_day_valid previous_day_valid by presburger
qed

lemma civil_date_Suc: "civil_date (n + 1) = next_day (civil_date n)"
proof (cases "0 \<le> n")
  case True
  then have "nat (n + 1) = Suc (nat n)" by simp
  with True show ?thesis by (simp add: civil_date_def)
next
  case False
  then have n: "nat (- n) = Suc (nat (- (n + 1)))" by simp
  have "civil_date n = previous_day (civil_date (n + 1))"
    using False n by (cases "n + 1 = 0") (simp_all add: civil_date_def)
  with next_previous_day [OF civil_date_valid] show ?thesis by metis
qed

lemma civil_date_less: "n < n' \<Longrightarrow> date_less (civil_date n) (civil_date n')"
proof (induction n' rule: int_gr_induct)
  case base
  then show ?case unfolding civil_date_Suc by (rule next_day_later)
next
  case (step i)
  from step.IH next_day_later show ?case unfolding civil_date_Suc by (rule date_less_trans)
qed


section \<open>Timestamps sort as the times they stand for\<close>

fun text_less :: "string \<Rightarrow> string \<Rightarrow> bool" where
  "text_less [] ys \<longleftrightarrow> ys \<noteq> []"
| "text_less (x # xs) [] \<longleftrightarrow> False"
| "text_less (x # xs) (y # ys) \<longleftrightarrow> char_code x < char_code y \<or> x = y \<and> text_less xs ys"

lemma text_less_same [simp]: "text_less (p @ xs) (p @ ys) = text_less xs ys"
  by (induction p) auto

lemma text_less_append: "length xs = length ys \<Longrightarrow> text_less xs ys \<Longrightarrow> text_less (xs @ us) (ys @ vs)"
  by (induction xs ys rule: text_less.induct) auto

fun digits_text :: "nat \<Rightarrow> nat \<Rightarrow> string" where
  "digits_text 0 n = []"
| "digits_text (Suc k) n = digits_text k (n div 10) @ [digit_char (n mod 10)]"

lemma digits_text_length [simp]: "length (digits_text k n) = k"
  by (induction k arbitrary: n) simp_all

lemma digit_char_code: "n < 10 \<Longrightarrow> char_code (digit_char n) = n + 48"
  by (simp add: digit_char_def char_code_def)

lemma digits_text_less: "n < n' \<Longrightarrow> n' < 10 ^ k \<Longrightarrow> text_less (digits_text k n) (digits_text k n')"
proof (induction k arbitrary: n n')
  case (Suc k)
  show ?case
  proof (cases "n div 10 = n' div 10")
    case True
    then have "n mod 10 < n' mod 10" using Suc.prems(1) by (metis div_mult_mod_eq nat_add_left_cancel_less)
    with True show ?thesis by (simp add: digit_char_code)
  next
    case False
    with Suc.prems(1) have "n div 10 < n' div 10" using div_le_mono [of n n' 10] by linarith
    moreover have "n' div 10 < 10 ^ k" using Suc.prems(2) by (simp add: less_mult_imp_div_less)
    ultimately show ?thesis using Suc.IH by (simp add: text_less_append)
  qed
qed simp

lemma two_digits_text: "0 \<le> n \<Longrightarrow> n < 100 \<Longrightarrow> two_digits n = digits_text 2 (nat n)"
  by (simp add: two_digits_def numeral_2_eq_2)

lemma show_nat_text: "10 ^ k \<le> n \<Longrightarrow> n < 10 ^ Suc k \<Longrightarrow> show_nat n = digits_text (Suc k) n"
proof (induction k arbitrary: n)
  case 0
  then show ?case by (subst show_nat.simps) simp
next
  case (Suc k)
  then have "10 ^ k \<le> n div 10" "n div 10 < 10 ^ Suc k"
    by (simp_all add: less_eq_div_iff_mult_less_eq less_mult_imp_div_less mult.commute)
  moreover have "10 \<le> n" using Suc.prems(1) self_le_power [of "10 :: nat" "Suc k"] by linarith
  ultimately show ?case using Suc.IH [of "n div 10"] by (subst show_nat.simps) simp
qed

lemma year_text: "1000 \<le> y \<Longrightarrow> y \<le> 9999 \<Longrightarrow> show_int y = digits_text 4 (nat y)"
  using show_nat_text [of 3 "nat y"] by (simp add: show_int_def)

definition utc_less :: "utc_time \<Rightarrow> utc_time \<Rightarrow> bool" where
  "utc_less u v \<longleftrightarrow> date_less (utc_year u, utc_month u, utc_day u) (utc_year v, utc_month v, utc_day v) \<or>
     utc_year u = utc_year v \<and> utc_month u = utc_month v \<and> utc_day u = utc_day v \<and>
     date_less (utc_hour u, utc_minute u, utc_second u) (utc_hour v, utc_minute v, utc_second v)"

definition utc_ok :: "utc_time \<Rightarrow> bool" where
  "utc_ok u \<longleftrightarrow> 0 \<le> utc_month u \<and> utc_month u < 100 \<and> 0 \<le> utc_day u \<and> utc_day u < 100 \<and>
     0 \<le> utc_hour u \<and> utc_hour u < 100 \<and> 0 \<le> utc_minute u \<and> utc_minute u < 100 \<and>
     0 \<le> utc_second u \<and> utc_second u < 100"

lemma gmtime_ok: "utc_ok (gmtime t)"
proof -
  obtain y m d where date: "civil_date (t div 86400) = (y, m, d)" by (cases "civil_date (t div 86400)")
  then have "1 \<le> m" "m \<le> 12" "1 \<le> d" "d \<le> 31"
    using civil_date_valid [of "t div 86400"] month_days_bounds(2) [of y m] by auto
  moreover have "0 \<le> t mod 86400" "t mod 86400 < 86400" by simp_all
  ultimately show ?thesis by (auto simp: gmtime_def utc_ok_def date Let_def)
qed

lemma mixed_radix_less:
  fixes h h' m m' x x' :: int
  assumes "3600 * h + 60 * m + x < 3600 * h' + 60 * m' + x'"
    and "0 \<le> m" "m < 60" "0 \<le> x" "x < 60" "0 \<le> m'" "m' < 60" "0 \<le> x'" "x' < 60"
  shows "date_less (h, m, x) (h', m', x')"
proof -
  consider "h < h'" | "h = h'" "m < m'" | "h = h'" "m = m'" | "h = h'" "m' < m" | "h' < h" by linarith
  then show ?thesis using assms by cases auto
qed

lemma clock_parts:
  fixes s :: int
  shows "3600 * (s div 3600) + 60 * (s mod 3600 div 60) + s mod 60 = s"
    and "0 \<le> s mod 3600 div 60" "s mod 3600 div 60 < 60" "0 \<le> s mod 60" "s mod 60 < 60"
proof -
  have "s mod 3600 mod 60 = s mod 60" by (rule mod_mod_cancel) simp
  with mult_div_mod_eq [of 3600 s] mult_div_mod_eq [of 60 "s mod 3600"]
  show "3600 * (s div 3600) + 60 * (s mod 3600 div 60) + s mod 60 = s" by linarith
  show "s mod 3600 div 60 < 60" using pos_mod_bound [of 3600 s] by linarith
qed simp_all

lemma clock_less:
  "s < s' \<Longrightarrow> date_less (s div 3600, s mod 3600 div 60, s mod 60) (s' div 3600, s' mod 3600 div 60, s' mod (60 :: int))"
  by (rule mixed_radix_less) (simp_all only: clock_parts)

lemma gmtime_fields:
  assumes "civil_date (t div 86400) = (y, m, d)"
  shows "gmtime t = \<lparr>utc_year = y, utc_month = m, utc_day = d, utc_hour = t mod 86400 div 3600,
    utc_minute = t mod 86400 mod 3600 div 60, utc_second = t mod 86400 mod 60\<rparr>"
  using assms by (simp only: gmtime_def Let_def prod.case)

lemma gmtime_less:
  assumes "t < t'"
  shows "utc_less (gmtime t) (gmtime t')"
proof -
  obtain y m d where u: "civil_date (t div 86400) = (y, m, d)" by (cases "civil_date (t div 86400)")
  obtain y' m' d' where v: "civil_date (t' div 86400) = (y', m', d')" by (cases "civil_date (t' div 86400)")
  have "t div 86400 \<le> t' div 86400" using assms by (intro zdiv_mono1) simp_all
  then consider "t div 86400 < t' div 86400" | "t div 86400 = t' div 86400" by (auto simp: order_le_less)
  then show ?thesis
  proof cases
    case 1
    from civil_date_less [OF this] show ?thesis
      unfolding utc_less_def gmtime_fields [OF u] gmtime_fields [OF v] utc_time.simps u v by blast
  next
    case 2
    then have "t mod 86400 < t' mod 86400" using assms by (metis add_less_cancel_left mult_div_mod_eq)
    from clock_less [OF this] 2 u v show ?thesis
      unfolding utc_less_def gmtime_fields [OF u] gmtime_fields [OF v] utc_time.simps by auto
  qed
qed

lemma strftime_digits:
  assumes "utc_ok u" "1000 \<le> utc_year u" "utc_year u \<le> 9999"
  shows "strftime_utc u = digits_text 4 (nat (utc_year u)) @ ''-'' @ digits_text 2 (nat (utc_month u)) @ ''-'' @
    digits_text 2 (nat (utc_day u)) @ ''T'' @ digits_text 2 (nat (utc_hour u)) @ '':'' @
    digits_text 2 (nat (utc_minute u)) @ '':'' @ digits_text 2 (nat (utc_second u)) @ ''Z''"
  using assms by (simp add: strftime_utc_def year_text two_digits_text utc_ok_def)

lemma digits_text_order:
  "0 \<le> a \<Longrightarrow> a < b \<Longrightarrow> b < 10 ^ k \<Longrightarrow> text_less (digits_text k (nat a) @ us) (digits_text k (nat b) @ vs)"
  by (intro text_less_append digits_text_less) (auto simp: nat_less_iff)

lemma two_digits_order:
  "0 \<le> a \<Longrightarrow> a < b \<Longrightarrow> b < 100 \<Longrightarrow> text_less (digits_text 2 (nat a) @ us) (digits_text 2 (nat b) @ vs)"
  by (rule digits_text_order) simp_all

lemma year_order:
  "1000 \<le> a \<Longrightarrow> a < b \<Longrightarrow> b \<le> 9999 \<Longrightarrow> text_less (digits_text 4 (nat a) @ us) (digits_text 4 (nat b) @ vs)"
  by (rule digits_text_order) simp_all

lemma strftime_less:
  assumes "utc_less u v" "utc_ok u" "utc_ok v" "1000 \<le> utc_year u" "utc_year u \<le> 9999" "1000 \<le> utc_year v" "utc_year v \<le> 9999"
  shows "text_less (strftime_utc u) (strftime_utc v)"
  using assms unfolding strftime_digits [OF assms(2,4,5)] strftime_digits [OF assms(3,6,7)]
  by (auto simp: utc_less_def utc_ok_def simp del: append_Cons intro: two_digits_order year_order)

lemma utc_year_from_epoch: "0 \<le> t \<Longrightarrow> 1970 \<le> utc_year (gmtime t)"
proof -
  assume "0 \<le> t"
  then consider "t div 86400 = 0" | "0 < t div 86400"
    using pos_imp_zdiv_nonneg_iff [of 86400 t] by linarith
  then show ?thesis
  proof cases
    case 2
    from civil_date_less [OF this] show ?thesis
      by (cases "civil_date (t div 86400)") (auto simp: gmtime_fields civil_date_def [of 0])
  qed (simp add: gmtime_def civil_date_def Let_def)
qed

lemma iso8601_order:
  assumes "0 \<le> ms" "ms \<le> ms'" "utc_year (gmtime (to_time_t ms')) \<le> 9999"
  shows "length (iso8601_utc ms) = 20" "length (iso8601_utc ms') = 20"
    and "if to_time_t ms = to_time_t ms' then iso8601_utc ms = iso8601_utc ms' else text_less (iso8601_utc ms) (iso8601_utc ms')"
proof -
  let ?u = "gmtime (to_time_t ms)" and ?v = "gmtime (to_time_t ms')"
  have t: "0 \<le> to_time_t ms" "to_time_t ms \<le> to_time_t ms'"
    using assms(1,2) by (simp_all add: to_time_t_def zdiv_mono1)
  have order: "?u = ?v \<or> utc_less ?u ?v" using gmtime_less t(2) by (metis order_le_less)
  then have y: "1000 \<le> utc_year ?u" "utc_year ?u \<le> 9999" "1000 \<le> utc_year ?v"
    using utc_year_from_epoch [OF t(1)] assms(3) by (auto simp: utc_less_def)
  show "length (iso8601_utc ms) = 20" "length (iso8601_utc ms') = 20"
    using strftime_digits [OF gmtime_ok y(1,2)] strftime_digits [OF gmtime_ok y(3) assms(3)]
    by (simp_all add: iso8601_utc_def)
  show "if to_time_t ms = to_time_t ms' then iso8601_utc ms = iso8601_utc ms' else text_less (iso8601_utc ms) (iso8601_utc ms')"
    using strftime_less [OF gmtime_less gmtime_ok gmtime_ok y assms(3)] t(2) by (simp add: iso8601_utc_def)
qed

lemma iso8601_epoch: "iso8601_utc 0 = ''1970-01-01T00:00:00Z''" "iso8601_utc 5097599999 = ''1970-02-28T23:59:59Z''"
  by code_simp+

end
