(* ===== verification/Telemetry_Hub.thy ===== *)
theory Telemetry_Hub
  imports Silvus_Wire Timestamps
begin

text \<open>
  telemetry_hub.cpp: the events published to the SSE stream, the remembered ready snapshot, and
  the heartbeat timer that re-emits it. The event bus and the SSE server behind publishEvent are
  dts-common's; published is the sequence of events handed to them.
\<close>

record telemetry_hub =
  published :: "(string \<times> json) list"
  last_ready_payload :: "json option"
  heartbeat_stopped :: bool
  heartbeat_ticks :: "64 word"

definition initial_hub :: telemetry_hub where
  "initial_hub = \<lparr>published = [], last_ready_payload = None, heartbeat_stopped = False, heartbeat_ticks = 0\<rparr>"

definition normalize_status :: "string \<Rightarrow> string" where
  "normalize_status status =
     (if status = ''ready'' \<or> status = ''discovering'' \<or> status = ''busy'' then ''online''
      else if status = ''recovering'' then ''recovering'' else ''offline'')"

definition power_dbm_json :: "double \<Rightarrow> json" where
  "power_dbm_json watts =
     (if fle watts (Fin 0) then JNull else JFloat (fround (wattsToDbmRaw watts)))"

definition publishEvent :: "string \<Rightarrow> json \<Rightarrow> telemetry_hub \<Rightarrow> telemetry_hub" where
  "publishEvent tag payload h = h\<lparr>published := published h @ [(tag, payload)]\<rparr>"

interpretation event_stream: append_log "\<lambda>(tag, payload). publishEvent tag payload" "\<lambda>event. event" published
  by unfold_locales (simp add: publishEvent_def split: prod.split)

definition publishReady :: "json \<Rightarrow> telemetry_hub \<Rightarrow> telemetry_hub" where
  "publishReady snapshot h =
     (let payload = JObject [(''snapshot'', snapshot)]
      in publishEvent ''ready'' payload (h\<lparr>last_ready_payload := Some payload\<rparr>))"

text \<open>The wall clock is the time authority of dts-common, in milliseconds; its text is the code's.\<close>

definition now_iso8601 :: "'e platform \<Rightarrow> 'e \<Rightarrow> string \<times> 'e" where
  "now_iso8601 P e = (let (ms, e) = authority_now P e in (iso8601_utc ms, e))"

definition state_payload :: "string \<Rightarrow> string \<Rightarrow> int \<Rightarrow> double \<Rightarrow> double \<Rightarrow> string \<Rightarrow> json" where
  "state_payload radioId status channelIndex powerWatts frequencyMHz ts =
     JObject [(''radioId'', JString radioId), (''status'', JString (normalize_status status)),
       (''powerDbm'', power_dbm_json powerWatts), (''ts'', JString ts),
       (''channelIndex'', if 0 < channelIndex then JInt channelIndex else JNull),
       (''frequencyMhz'', if flt (Fin 0) frequencyMHz then JFloat frequencyMHz else JNull)]"

definition publishRadioState ::
  "'e platform \<Rightarrow> string \<Rightarrow> string \<Rightarrow> int \<Rightarrow> double \<Rightarrow> double \<Rightarrow> telemetry_hub \<times> 'e \<Rightarrow> telemetry_hub \<times> 'e" where
  "publishRadioState P radioId status channelIndex powerWatts frequencyMHz = (\<lambda>(h, e).
     let (ts, e) = now_iso8601 P e
     in (publishEvent ''state'' (state_payload radioId status channelIndex powerWatts frequencyMHz ts) h, e))"

definition publishChannelChanged ::
  "'e platform \<Rightarrow> string \<Rightarrow> int \<Rightarrow> double \<Rightarrow> telemetry_hub \<times> 'e \<Rightarrow> telemetry_hub \<times> 'e" where
  "publishChannelChanged P radioId channelIndex frequencyMHz = (\<lambda>(h, e).
     let (ts, e) = now_iso8601 P e
     in (publishEvent ''channelChanged''
           (JObject [(''radioId'', JString radioId), (''frequencyMhz'', JFloat frequencyMHz),
              (''channelIndex'', JInt channelIndex), (''ts'', JString ts)]) h, e))"

definition publishPowerChanged ::
  "'e platform \<Rightarrow> string \<Rightarrow> double \<Rightarrow> telemetry_hub \<times> 'e \<Rightarrow> telemetry_hub \<times> 'e" where
  "publishPowerChanged P radioId watts = (\<lambda>(h, e).
     let (ts, e) = now_iso8601 P e
     in (publishEvent ''powerChanged''
           (JObject [(''radioId'', JString radioId), (''powerDbm'', power_dbm_json watts),
              (''ts'', JString ts)]) h, e))"

definition publishFault ::
  "'e platform \<Rightarrow> string \<Rightarrow> string \<Rightarrow> string \<Rightarrow> int \<Rightarrow> telemetry_hub \<times> 'e \<Rightarrow> telemetry_hub \<times> 'e" where
  "publishFault P radioId code message retryMs = (\<lambda>(h, e).
     let (ts, e) = now_iso8601 P e
     in (publishEvent ''fault''
           (JObject [(''radioId'', JString radioId), (''code'', JString code), (''message'', JString message),
              (''details'', JObject [(''retryMs'', JInt retryMs)]), (''ts'', JString ts)]) h, e))"

definition kReadyReemitPeriod :: "64 word" where
  "kReadyReemitPeriod = 12"

definition hub_start :: "telemetry_hub \<Rightarrow> telemetry_hub" where
  "hub_start h = h\<lparr>heartbeat_stopped := False\<rparr>"

definition hub_stop :: "telemetry_hub \<Rightarrow> telemetry_hub" where
  "hub_stop h = h\<lparr>heartbeat_stopped := True\<rparr>"

definition heartbeat_fired :: "bool \<Rightarrow> string \<Rightarrow> telemetry_hub \<Rightarrow> telemetry_hub \<times> bool" where
  "heartbeat_fired aborted ts h =
     (if aborted \<or> heartbeat_stopped h then (h, False)
      else
        (let h = publishEvent ''heartbeat'' (JObject [(''ts'', JString ts)]) h;
             ticks = heartbeat_ticks h + 1;
             h = h\<lparr>heartbeat_ticks := ticks\<rparr>;
             h = (if ticks mod kReadyReemitPeriod = 0
                  then (case last_ready_payload h of Some snap \<Rightarrow> publishEvent ''ready'' snap h | None \<Rightarrow> h)
                  else h)
         in (h, \<not> heartbeat_stopped h)))"

lemma power_dbm_json_round_trip:
  assumes "0 \<le> d" "d \<le> 39"
  shows "power_dbm_json (dbmToWatts (Fin (of_int d))) = JFloat (Fin (of_int d))"
  using dbmToWatts_pos [of "of_int d"] fround_dbm_round_trip [OF assms] assms
  by (simp add: power_dbm_json_def)

section \<open>Heartbeats\<close>

text \<open>The timer as asio runs it: each expiry that is not an abort is handled in turn, and a handler that
  does not re-arm the timer ends the sequence.\<close>

fun heartbeats :: "string list \<Rightarrow> telemetry_hub \<Rightarrow> telemetry_hub" where
  "heartbeats [] h = h"
| "heartbeats (ts # rest) h = (let (h', again) = heartbeat_fired False ts h in if again then heartbeats rest h' else h')"

definition tagged :: "string \<Rightarrow> telemetry_hub \<Rightarrow> nat" where
  "tagged tag h = length (filter (\<lambda>e. fst e = tag) (published h))"

lemma ticks_mod:
  assumes "n < 2 ^ 64"
  shows "((of_nat n :: 64 word) mod kReadyReemitPeriod = 0) = (n mod 12 = 0)"
proof -
  have "unat ((of_nat n :: 64 word) mod 12) = n mod 12"
    using assms by (simp add: unat_mod_distrib unat_of_nat)
  then show ?thesis unfolding kReadyReemitPeriod_def by (metis unat_eq_zero)
qed

lemma heartbeat_fired_step:
  assumes "\<not> heartbeat_stopped h" "last_ready_payload h = Some snap" "heartbeat_ticks h = of_nat n" "Suc n < 2 ^ 64"
  shows "\<exists>h'. heartbeat_fired False ts h = (h', True) \<and> \<not> heartbeat_stopped h' \<and>
    last_ready_payload h' = Some snap \<and> heartbeat_ticks h' = of_nat (Suc n) \<and>
    published h' = published h @ (''heartbeat'', JObject [(''ts'', JString ts)]) #
      (if Suc n mod 12 = 0 then [(''ready'', snap)] else [])"
  using assms ticks_mod [of "Suc n"]
  by (simp add: heartbeat_fired_def Let_def publishEvent_def add.commute)

lemma heartbeats_count:
  assumes "\<not> heartbeat_stopped h" "last_ready_payload h = Some snap" "heartbeat_ticks h = of_nat n" "n + length tss < 2 ^ 64"
  shows "tagged ''heartbeat'' (heartbeats tss h) = tagged ''heartbeat'' h + length tss \<and>
    tagged ''ready'' (heartbeats tss h) = tagged ''ready'' h + ((n + length tss) div 12 - n div 12) \<and>
    (\<forall>p. (''ready'', p) \<in> set (published (heartbeats tss h)) \<longrightarrow> (''ready'', p) \<in> set (published h) \<or> p = snap)"
  using assms
proof (induction tss arbitrary: h n)
  case (Cons ts tss)
  have "Suc n < 2 ^ 64" using Cons.prems(4) by simp
  from heartbeat_fired_step [OF Cons.prems(1-3) this, of ts] obtain h' where
    h': "heartbeat_fired False ts h = (h', True)" "\<not> heartbeat_stopped h'"
      "last_ready_payload h' = Some snap" "heartbeat_ticks h' = of_nat (Suc n)"
      "published h' = published h @ (''heartbeat'', JObject [(''ts'', JString ts)]) #
         (if Suc n mod 12 = 0 then [(''ready'', snap)] else [])" by blast
  have "(Suc n) div 12 = n div 12 + (if Suc n mod 12 = 0 then 1 else 0)" by (simp add: div_Suc)
  moreover have "(Suc n) div 12 \<le> (Suc n + length tss) div 12" by (rule div_le_mono) simp
  ultimately show ?case
    using Cons.IH [OF h'(2-4)] Cons.prems(4) h'(1,5) by (auto simp: tagged_def)
qed (simp add: tagged_def)

text \<open>C37. After the ready snapshot was published to a fresh hub, n heartbeats publish n heartbeat events
  and re-emit exactly that snapshot n div 12 times, up to the width of the 64-bit tick counter, so a
  client that joins late waits at most twelve heartbeats for it.\<close>

theorem ready_is_reemitted:
  assumes "length tss < 2 ^ 64"
  shows "let h = heartbeats tss (publishReady snapshot (hub_start initial_hub)) in
    tagged ''heartbeat'' h = length tss \<and> tagged ''ready'' h = 1 + length tss div 12 \<and>
    (\<forall>p. (''ready'', p) \<in> set (published h) \<longrightarrow> p = JObject [(''snapshot'', snapshot)])"
proof -
  let ?h = "publishReady snapshot (hub_start initial_hub)"
  have "\<not> heartbeat_stopped ?h" "last_ready_payload ?h = Some (JObject [(''snapshot'', snapshot)])"
    "heartbeat_ticks ?h = of_nat 0" "published ?h = [(''ready'', JObject [(''snapshot'', snapshot)])]"
    by (simp_all add: publishReady_def publishEvent_def hub_start_def initial_hub_def Let_def)
  with heartbeats_count [of ?h _ 0 tss] assms show ?thesis by (auto simp: tagged_def Let_def)
qed

theorem ready_is_reemitted_witness:
  "tagged ''ready'' (heartbeats (replicate 24 ''t'') (publishReady JNull (hub_start initial_hub))) = 3"
  using ready_is_reemitted [of "replicate 24 ''t''" JNull] by (simp add: Let_def)

text \<open>A stopped hub is silent: once stop was called, an expiry of the heartbeat timer publishes
  nothing and does not re-arm the timer.\<close>

theorem stopped_hub_is_silent:
  "heartbeat_fired aborted ts (hub_stop h) = (hub_stop h, False) \<and> heartbeats tss (hub_stop h) = hub_stop h"
  by (cases tss) (simp_all add: heartbeat_fired_def hub_stop_def)

section \<open>The times in the stream\<close>

text \<open>Event times sort: while the time authority does not go back, the time stamps of two events order
  as texts exactly as their seconds do, all of one length, so a client can order and compare them
  without parsing (from 1970 to the year 9999).\<close>

theorem event_times_sort:
  assumes "authority_now P e = (ms, e1)" "authority_now P e' = (ms', e1')"
    and "0 \<le> ms" "ms \<le> ms'" "utc_year (gmtime (to_time_t ms')) \<le> 9999"
  shows "let ts = fst (now_iso8601 P e); ts' = fst (now_iso8601 P e') in
    length ts = 20 \<and> length ts' = 20 \<and> (ts = ts' \<longleftrightarrow> ms div 1000 = ms' div 1000) \<and>
    (text_less ts ts' \<longleftrightarrow> ms div 1000 < ms' div 1000)"
proof -
  have irrefl: "\<not> text_less xs xs" for xs by (induction xs) auto
  have "to_time_t ms = ms div 1000" "to_time_t ms' = ms' div 1000" "ms div 1000 \<le> ms' div 1000"
    using assms(3,4) by (simp_all add: to_time_t_def zdiv_mono1)
  with iso8601_order [OF assms(3-5)] irrefl [of "iso8601_utc ms'"] show ?thesis
    by (auto simp: now_iso8601_def assms(1,2) Let_def split: if_splits)
qed

theorem event_times_sort_witness:
  "fst (now_iso8601 demo 0) = ''1970-01-01T00:00:00Z'' \<and>
   text_less (fst (now_iso8601 demo 0)) (fst (now_iso8601 demo 5097599999))"
proof -
  have "utc_year (gmtime (to_time_t 5097599999)) \<le> 9999" by code_simp
  from event_times_sort [of demo 0 0 0 5097599999 5097599999 5097599999, OF _ _ _ _ this]
  show ?thesis by (simp add: Let_def) (simp add: now_iso8601_def iso8601_epoch)
qed

end
