(* ===== verification/Audit_Logger.thy ===== *)
theory Audit_Logger
  imports Common_Types Json Rcc_Prelude
begin

text \<open>
  audit_logger.cpp: one entry of the operations log per record.
\<close>

record audit_record =
  au_actor :: string
  au_action :: string
  au_radio_id :: string
  au_parameters :: json
  au_result :: CommandResultCode
  au_message :: string

record operation_entry =
  oe_actor :: string
  oe_action :: string
  oe_result :: string
  oe_correlation :: string
  oe_details :: json

definition audit_record_entry :: "audit_record \<Rightarrow> operation_entry" where
  "audit_record_entry rec =
     \<lparr>oe_actor = au_actor rec, oe_action = au_action rec,
      oe_result = result_code_to_string (au_result rec), oe_correlation = [],
      oe_details = JObject [(''action'', JString (au_action rec)), (''radioId'', JString (au_radio_id rec)),
        (''message'', JString (au_message rec)), (''parameters'', au_parameters rec)]\<rparr>"

definition audit_record_op :: "audit_record \<Rightarrow> operation_entry list \<Rightarrow> operation_entry list" where
  "audit_record_op rec entries = entries @ [audit_record_entry rec]"

interpretation operations_log: append_log audit_record_op audit_record_entry "\<lambda>entries. entries"
  by unfold_locales (simp add: audit_record_op_def)

end
