(* ===== verification/Orchestrator.thy ===== *)
theory Orchestrator
  imports Radio_Manager Telemetry_Hub Audit_Logger
begin

text \<open>
  orchestrator.cpp: the three commands selectRadio, setPower and setChannel over the radio
  manager, the telemetry hub and the audit log. The commands are generic in the adapter interface.
\<close>

datatype Code = Ok | InvalidRange | Busy | Unavailable | InternalError | Unauthorized | NotFound

record command_result =
  cr_code :: Code
  cr_message :: string
  cr_details :: "string option"

fun mapAdapterCode :: "CommandResultCode \<Rightarrow> Code" where
  "mapAdapterCode CommandResultCode.Ok = Code.Ok"
| "mapAdapterCode CommandResultCode.InvalidRange = Code.InvalidRange"
| "mapAdapterCode CommandResultCode.Busy = Code.Busy"
| "mapAdapterCode CommandResultCode.Unavailable = Code.Unavailable"
| "mapAdapterCode CommandResultCode.InternalError = Code.InternalError"

fun resultToAuditCode :: "Code \<Rightarrow> CommandResultCode" where
  "resultToAuditCode Code.Ok = CommandResultCode.Ok"
| "resultToAuditCode Code.InvalidRange = CommandResultCode.InvalidRange"
| "resultToAuditCode Code.Busy = CommandResultCode.Busy"
| "resultToAuditCode Code.Unavailable = CommandResultCode.Unavailable"
| "resultToAuditCode Code.Unauthorized = CommandResultCode.InternalError"
| "resultToAuditCode Code.NotFound = CommandResultCode.InternalError"
| "resultToAuditCode Code.InternalError = CommandResultCode.InternalError"

record ('a, 'e) rcc_system =
  sys_radios :: "'a radio_manager"
  sys_hub :: telemetry_hub
  sys_audit :: "operation_entry list"
  sys_env :: 'e

definition command_result :: "Code \<Rightarrow> string \<Rightarrow> string option \<Rightarrow> command_result" where
  "command_result code message details = \<lparr>cr_code = code, cr_message = message, cr_details = details\<rparr>"

definition emit_audit :: "string \<Rightarrow> string \<Rightarrow> json \<Rightarrow> command_result \<Rightarrow> ('a, 'e) rcc_system \<Rightarrow> ('a, 'e) rcc_system" where
  "emit_audit action radioId parameters r s =
     s\<lparr>sys_audit := audit_record_op
         \<lparr>au_actor = ''system'', au_action = action, au_radio_id = radioId, au_parameters = parameters,
          au_result = resultToAuditCode (cr_code r), au_message = cr_message r\<rparr> (sys_audit s)\<rparr>"

definition publish ::
  "(telemetry_hub \<times> 'e \<Rightarrow> telemetry_hub \<times> 'e) \<Rightarrow> ('a, 'e) rcc_system \<Rightarrow> ('a, 'e) rcc_system" where
  "publish f s = (let (h, e) = f (sys_hub s, sys_env s) in s\<lparr>sys_hub := h, sys_env := e\<rparr>)"

definition selectRadio :: "string \<Rightarrow> ('a, 'e) rcc_system \<Rightarrow> command_result \<times> ('a, 'e) rcc_system" where
  "selectRadio radioId s =
     (let (found, m) = set_active_radio radioId (sys_radios s);
          r = (if found then command_result Code.Ok ''OK'' None
               else command_result Code.NotFound ''Radio not found'' None)
      in (r, emit_audit ''selectRadio'' radioId (JObject []) r (s\<lparr>sys_radios := m\<rparr>)))"

definition rejected :: "string \<Rightarrow> adapter_result \<Rightarrow> command_result" where
  "rejected fallback ar =
     command_result (mapAdapterCode (ar_code ar))
       (if ar_message ar = [] then fallback else ar_message ar) (ar_vendor_payload ar)"

definition setPower ::
  "('a, 'e) radio_adapter_ops \<Rightarrow> 'e platform \<Rightarrow> string \<Rightarrow> double \<Rightarrow> ('a, 'e) rcc_system \<Rightarrow>
   (command_result \<times> ('a, 'e) rcc_system) option" where
  "setPower V P radioId watts s =
     (let emitAudit = (\<lambda>r s. (r, emit_audit ''setPower'' radioId (JObject [(''powerWatts'', JFloat watts)]) r s))
      in case get_adapter (sys_radios s) radioId of
           None \<Rightarrow> Some (emitAudit (command_result Code.NotFound ''Radio not found'' None) s)
         | Some adapter \<Rightarrow>
             let caps = op_capabilities V adapter
             in if \<not> in_power_range caps watts
                then Some (emitAudit (command_result Code.InvalidRange ''Requested power is outside supported range'' None) s)
                else do {
                  (ar, adapter, e) \<leftarrow> op_set_power V watts adapter (sys_env s);
                  let s = s\<lparr>sys_radios := put_adapter radioId adapter (sys_radios s), sys_env := e\<rparr>;
                  if ar_code ar \<noteq> CommandResultCode.Ok then Some (emitAudit (rejected ''Adapter rejected setPower'' ar) s)
                  else do {
                    let st = op_state V adapter;
                    frequencyMhz \<leftarrow> (case rs_channel_index st of
                        Some c \<Rightarrow> vector_at (supported_frequencies_mhz caps) (c - 1)
                      | None \<Rightarrow> Some (Fin 0));
                    let s = publish (publishPowerChanged P radioId watts) s;
                    let s = publish (publishRadioState P radioId (status_to_string (rs_status st))
                              (case rs_channel_index st of Some c \<Rightarrow> c | None \<Rightarrow> -1) watts frequencyMhz) s;
                    Some (emitAudit (command_result Code.Ok ''OK'' None) s)
                  }
                })"

definition setChannel ::
  "('a, 'e) radio_adapter_ops \<Rightarrow> 'e platform \<Rightarrow> string \<Rightarrow> int \<Rightarrow> ('a, 'e) rcc_system \<Rightarrow>
   (command_result \<times> ('a, 'e) rcc_system) option" where
  "setChannel V P radioId channelIndex s =
     (let emitAudit = (\<lambda>r s. (r, emit_audit ''setChannel'' radioId (JObject [(''channelIndex'', JInt channelIndex)]) r s))
      in case get_adapter (sys_radios s) radioId of
           None \<Rightarrow> Some (emitAudit (command_result Code.NotFound ''Radio not found'' None) s)
         | Some adapter \<Rightarrow>
             let caps = op_capabilities V adapter
             in if channelIndex < 1 \<or> int (length (supported_frequencies_mhz caps)) < channelIndex
                then Some (emitAudit (command_result Code.InvalidRange ''Requested channelIndex is outside supported range'' None) s)
                else do {
                  frequencyMhz \<leftarrow> vector_at (supported_frequencies_mhz caps) (channelIndex - 1);
                  (ar, adapter, e) \<leftarrow> op_set_channel V channelIndex frequencyMhz adapter (sys_env s);
                  let s = s\<lparr>sys_radios := put_adapter radioId adapter (sys_radios s), sys_env := e\<rparr>;
                  if ar_code ar \<noteq> CommandResultCode.Ok then Some (emitAudit (rejected ''Adapter rejected setChannel'' ar) s)
                  else
                    (let st = op_state V adapter;
                         powerWatts = (case rs_power_watts st of Some w \<Rightarrow> w | None \<Rightarrow> Fin 0);
                         s = publish (publishChannelChanged P radioId channelIndex frequencyMhz) s;
                         s = publish (publishRadioState P radioId (status_to_string (rs_status st))
                               channelIndex powerWatts frequencyMhz) s
                     in Some (emitAudit (command_result Code.Ok ''OK'' None) s))
                })"

section \<open>The branches of a command\<close>

lemma emit_audit_frame [simp]:
  "sys_radios (emit_audit act k p r s) = sys_radios s"
  "sys_hub (emit_audit act k p r s) = sys_hub s"
  "sys_env (emit_audit act k p r s) = sys_env s"
  by (simp_all add: emit_audit_def)

definition audit_entry :: "string \<Rightarrow> string \<Rightarrow> json \<Rightarrow> command_result \<Rightarrow> operation_entry" where
  "audit_entry action radioId parameters r =
     audit_record_entry \<lparr>au_actor = ''system'', au_action = action, au_radio_id = radioId,
       au_parameters = parameters, au_result = resultToAuditCode (cr_code r), au_message = cr_message r\<rparr>"

lemma emit_audit_log [simp]:
  "sys_audit (emit_audit act k p r s) = sys_audit s @ [audit_entry act k p r]"
  by (simp add: emit_audit_def audit_entry_def operations_log.entries_write)

lemma publish_frame [simp]:
  "sys_radios (publish f s) = sys_radios s" "sys_audit (publish f s) = sys_audit s"
  by (simp_all add: publish_def split: prod.split)

lemma command_result_sel [simp]:
  "cr_code (command_result c m d) = c" "cr_message (command_result c m d) = m"
  by (simp_all add: command_result_def)

lemma mapAdapterCode_Ok [simp]: "mapAdapterCode c = Code.Ok \<longleftrightarrow> c = CommandResultCode.Ok"
  by (cases c) simp_all

lemma rejected_code [simp]: "cr_code (rejected f ar) = mapAdapterCode (ar_code ar)"
  by (simp add: rejected_def)

definition channel_of :: "radio_state \<Rightarrow> int" where
  "channel_of st = (case rs_channel_index st of Some c \<Rightarrow> c | None \<Rightarrow> -1)"

lemma setPower_cases:
  assumes "setPower V P k w s = Some (r, s')"
  obtains (not_found) "get_adapter (sys_radios s) k = None"
      "r = command_result Code.NotFound ''Radio not found'' None"
      "s' = emit_audit ''setPower'' k (JObject [(''powerWatts'', JFloat w)]) r s"
  | (out_of_range) a where "get_adapter (sys_radios s) k = Some a" "\<not> in_power_range (op_capabilities V a) w"
      "r = command_result Code.InvalidRange ''Requested power is outside supported range'' None"
      "s' = emit_audit ''setPower'' k (JObject [(''powerWatts'', JFloat w)]) r s"
  | (refused) a ar a' e where "get_adapter (sys_radios s) k = Some a" "in_power_range (op_capabilities V a) w"
      "op_set_power V w a (sys_env s) = Some (ar, a', e)" "ar_code ar \<noteq> CommandResultCode.Ok"
      "r = rejected ''Adapter rejected setPower'' ar"
      "s' = emit_audit ''setPower'' k (JObject [(''powerWatts'', JFloat w)]) r
         (s\<lparr>sys_radios := put_adapter k a' (sys_radios s), sys_env := e\<rparr>)"
  | (accepted) a ar a' e f where "get_adapter (sys_radios s) k = Some a" "in_power_range (op_capabilities V a) w"
      "op_set_power V w a (sys_env s) = Some (ar, a', e)" "ar_code ar = CommandResultCode.Ok"
      "(case rs_channel_index (op_state V a') of
          Some c \<Rightarrow> vector_at (supported_frequencies_mhz (op_capabilities V a)) (c - 1) | None \<Rightarrow> Some (Fin 0)) = Some f"
      "r = command_result Code.Ok ''OK'' None"
      "s' = emit_audit ''setPower'' k (JObject [(''powerWatts'', JFloat w)]) r
         (publish (publishRadioState P k (status_to_string (rs_status (op_state V a'))) (channel_of (op_state V a')) w f)
           (publish (publishPowerChanged P k w)
             (s\<lparr>sys_radios := put_adapter k a' (sys_radios s), sys_env := e\<rparr>)))"
proof (cases "get_adapter (sys_radios s) k")
  case None
  show thesis by (rule not_found [OF None]) (use assms None in \<open>auto simp: setPower_def Let_def\<close>)
next
  case (Some a)
  show thesis
  proof (cases "in_power_range (op_capabilities V a) w")
    case False
    show thesis by (rule out_of_range [OF Some False]) (use assms Some False in \<open>auto simp: setPower_def Let_def\<close>)
  next
    case True
    with assms Some obtain ar a' e where step: "op_set_power V w a (sys_env s) = Some (ar, a', e)"
      by (auto simp: setPower_def Let_def bind_eq_Some_conv)
    show thesis
    proof (cases "ar_code ar = CommandResultCode.Ok")
      case no: False
      show thesis
        by (rule refused [OF Some True step no]) (use assms Some True step no in \<open>auto simp: setPower_def Let_def\<close>)
    next
      case ok: True
      obtain f where f: "(case rs_channel_index (op_state V a') of
          Some c \<Rightarrow> vector_at (supported_frequencies_mhz (op_capabilities V a)) (c - 1) | None \<Rightarrow> Some (Fin 0)) = Some f"
        using assms Some True step ok by (auto simp: setPower_def Let_def bind_eq_Some_conv)
      show thesis
        by (rule accepted [OF Some True step ok f])
          (use assms Some True step ok f in \<open>auto simp: setPower_def Let_def channel_of_def\<close>)
    qed
  qed
qed

lemma setChannel_cases:
  assumes "setChannel V P k i s = Some (r, s')"
  obtains (not_found) "get_adapter (sys_radios s) k = None"
      "r = command_result Code.NotFound ''Radio not found'' None"
      "s' = emit_audit ''setChannel'' k (JObject [(''channelIndex'', JInt i)]) r s"
  | (out_of_range) a where "get_adapter (sys_radios s) k = Some a"
      "i < 1 \<or> int (length (supported_frequencies_mhz (op_capabilities V a))) < i"
      "r = command_result Code.InvalidRange ''Requested channelIndex is outside supported range'' None"
      "s' = emit_audit ''setChannel'' k (JObject [(''channelIndex'', JInt i)]) r s"
  | (refused) a ar a' e where "get_adapter (sys_radios s) k = Some a"
      "1 \<le> i" "i \<le> int (length (supported_frequencies_mhz (op_capabilities V a)))"
      "op_set_channel V i (supported_frequencies_mhz (op_capabilities V a) ! nat (i - 1)) a (sys_env s) = Some (ar, a', e)"
      "ar_code ar \<noteq> CommandResultCode.Ok"
      "r = rejected ''Adapter rejected setChannel'' ar"
      "s' = emit_audit ''setChannel'' k (JObject [(''channelIndex'', JInt i)]) r
         (s\<lparr>sys_radios := put_adapter k a' (sys_radios s), sys_env := e\<rparr>)"
  | (accepted) a ar a' e f where "get_adapter (sys_radios s) k = Some a"
      "1 \<le> i" "i \<le> int (length (supported_frequencies_mhz (op_capabilities V a)))"
      "f = supported_frequencies_mhz (op_capabilities V a) ! nat (i - 1)"
      "op_set_channel V i f a (sys_env s) = Some (ar, a', e)" "ar_code ar = CommandResultCode.Ok"
      "r = command_result Code.Ok ''OK'' None"
      "s' = emit_audit ''setChannel'' k (JObject [(''channelIndex'', JInt i)]) r
         (publish (publishRadioState P k (status_to_string (rs_status (op_state V a'))) i
             (case rs_power_watts (op_state V a') of Some w \<Rightarrow> w | None \<Rightarrow> Fin 0) f)
           (publish (publishChannelChanged P k i f)
             (s\<lparr>sys_radios := put_adapter k a' (sys_radios s), sys_env := e\<rparr>)))"
proof (cases "get_adapter (sys_radios s) k")
  case None
  show thesis by (rule not_found [OF None]) (use assms None in \<open>auto simp: setChannel_def Let_def\<close>)
next
  case (Some a)
  let ?fs = "supported_frequencies_mhz (op_capabilities V a)"
  show thesis
  proof (cases "i < 1 \<or> int (length ?fs) < i")
    case True
    show thesis by (rule out_of_range [OF Some True]) (use assms Some True in \<open>auto simp: setChannel_def Let_def\<close>)
  next
    case False
    then have i: "1 \<le> i" "i \<le> int (length ?fs)" by simp_all
    then have at: "vector_at ?fs (i - 1) = Some (?fs ! nat (i - 1))" by (simp add: vector_at_def)
    with assms Some False obtain ar a' e where step: "op_set_channel V i (?fs ! nat (i - 1)) a (sys_env s) = Some (ar, a', e)"
      by (auto simp: setChannel_def Let_def bind_eq_Some_conv)
    show thesis
    proof (cases "ar_code ar = CommandResultCode.Ok")
      case no: False
      show thesis
        by (rule refused [OF Some i step no]) (use assms Some False step at no in \<open>auto simp: setChannel_def Let_def\<close>)
    next
      case ok: True
      show thesis
        by (rule accepted [OF Some i refl step ok]) (use assms Some False step at ok in \<open>auto simp: setChannel_def Let_def\<close>)
    qed
  qed
qed

section \<open>Accepted commands\<close>

definition power_event :: "string \<Rightarrow> double \<Rightarrow> string \<Rightarrow> string \<times> json" where
  "power_event k w ts = (''powerChanged'', JObject [(''radioId'', JString k), (''powerDbm'', power_dbm_json w), (''ts'', JString ts)])"

definition channel_event :: "string \<Rightarrow> int \<Rightarrow> double \<Rightarrow> string \<Rightarrow> string \<times> json" where
  "channel_event k i f ts = (''channelChanged'', JObject [(''radioId'', JString k), (''frequencyMhz'', JFloat f),
     (''channelIndex'', JInt i), (''ts'', JString ts)])"

lemma publish_payloads [journal]:
  "\<exists>ts. published (sys_hub (publish (publishPowerChanged P k w) s)) = published (sys_hub s) @ [power_event k w ts]"
  "\<exists>ts. published (sys_hub (publish (publishChannelChanged P k i f) s)) = published (sys_hub s) @ [channel_event k i f ts]"
  "\<exists>ts. published (sys_hub (publish (publishRadioState P k st i w f) s)) =
     published (sys_hub s) @ [(''state'', state_payload k st i w f ts)]"
  by (auto simp: publish_def publishPowerChanged_def publishChannelChanged_def publishRadioState_def
      publishEvent_def power_event_def channel_event_def split: prod.split)

lemma setPower_accepted:
  assumes "setPower V P k w s = Some (r, s')" "cr_code r = Code.Ok"
  obtains a ar a' e f where "get_adapter (sys_radios s) k = Some a" "in_power_range (op_capabilities V a) w"
    "op_set_power V w a (sys_env s) = Some (ar, a', e)" "ar_code ar = CommandResultCode.Ok"
    "get_adapter (sys_radios s') k = Some a'"
    "(case rs_channel_index (op_state V a') of
        Some c \<Rightarrow> vector_at (supported_frequencies_mhz (op_capabilities V a)) (c - 1) | None \<Rightarrow> Some (Fin 0)) = Some f"
    "\<exists>t1 t2. published (sys_hub s') = published (sys_hub s) @ [power_event k w t1,
       (''state'', state_payload k (status_to_string (rs_status (op_state V a'))) (channel_of (op_state V a')) w f t2)]"
  using assms(1)
proof (cases rule: setPower_cases)
  case (accepted a ar a' e f)
  have "get_adapter (sys_radios s') k = Some a'" by (simp add: accepted(7) adapters.get_put [OF accepted(1)])
  moreover have "\<exists>t1 t2. published (sys_hub s') = published (sys_hub s) @ [power_event k w t1,
       (''state'', state_payload k (status_to_string (rs_status (op_state V a'))) (channel_of (op_state V a')) w f t2)]"
    using publish_payloads(1) [of P k w "s\<lparr>sys_radios := put_adapter k a' (sys_radios s), sys_env := e\<rparr>"]
      publish_payloads(3) unfolding accepted(7) by (auto; metis append.assoc append_Cons append_Nil)
  ultimately show thesis using that accepted(1-5) by blast
qed (use assms(2) in simp_all)

lemma setChannel_accepted:
  assumes "setChannel V P k i s = Some (r, s')" "cr_code r = Code.Ok"
  obtains a ar a' e f where "get_adapter (sys_radios s) k = Some a"
    "1 \<le> i" "i \<le> int (length (supported_frequencies_mhz (op_capabilities V a)))"
    "f = supported_frequencies_mhz (op_capabilities V a) ! nat (i - 1)"
    "op_set_channel V i f a (sys_env s) = Some (ar, a', e)" "ar_code ar = CommandResultCode.Ok"
    "get_adapter (sys_radios s') k = Some a'"
    "\<exists>w t1 t2. published (sys_hub s') = published (sys_hub s) @ [channel_event k i f t1,
       (''state'', state_payload k (status_to_string (rs_status (op_state V a'))) i w f t2)]"
  using assms(1)
proof (cases rule: setChannel_cases)
  case (accepted a ar a' e f)
  have "get_adapter (sys_radios s') k = Some a'" by (simp add: accepted(8) adapters.get_put [OF accepted(1)])
  moreover have "\<exists>w t1 t2. published (sys_hub s') = published (sys_hub s) @ [channel_event k i f t1,
       (''state'', state_payload k (status_to_string (rs_status (op_state V a'))) i w f t2)]"
    using publish_payloads(2) [of P k i f "s\<lparr>sys_radios := put_adapter k a' (sys_radios s), sys_env := e\<rparr>"]
      publish_payloads(3) unfolding accepted(8) by (auto; metis append.assoc append_Cons append_Nil)
  ultimately show thesis using that accepted(1-6) by blast
qed (use assms(2) in simp_all)

end
