(* ===== verification/Command_System.thy ===== *)
theory Command_System
  imports Orchestrator
begin

text \<open>
  The commands of the orchestrator as one datatype with one step function, and the facts that
  hold of every command: what it writes to the audit log and to the event stream, which radios it
  leaves alone, and, for any adapter that satisfies the laws of radio_adapter, that it is always
  defined and keeps the invariant of the manager.
\<close>

datatype command = SelectRadio string | SetPower string double | SetChannel string int

fun execute ::
  "('a, 'e) radio_adapter_ops \<Rightarrow> 'e platform \<Rightarrow> command \<Rightarrow> ('a, 'e) rcc_system \<Rightarrow>
   (command_result \<times> ('a, 'e) rcc_system) option" where
  "execute V P (SelectRadio k) s = Some (selectRadio k s)"
| "execute V P (SetPower k w) s = setPower V P k w s"
| "execute V P (SetChannel k i) s = setChannel V P k i s"

fun target :: "command \<Rightarrow> string" where
  "target (SelectRadio k) = k" | "target (SetPower k w) = k" | "target (SetChannel k i) = k"

fun command_audit :: "command \<Rightarrow> command_result \<Rightarrow> operation_entry" where
  "command_audit (SelectRadio k) r = audit_entry ''selectRadio'' k (JObject []) r"
| "command_audit (SetPower k w) r = audit_entry ''setPower'' k (JObject [(''powerWatts'', JFloat w)]) r"
| "command_audit (SetChannel k i) r = audit_entry ''setChannel'' k (JObject [(''channelIndex'', JInt i)]) r"

fun command_events :: "command \<Rightarrow> command_result \<Rightarrow> string list" where
  "command_events (SelectRadio k) r = []"
| "command_events (SetPower k w) r = (if cr_code r = Code.Ok then [''powerChanged'', ''state''] else [])"
| "command_events (SetChannel k i) r = (if cr_code r = Code.Ok then [''channelChanged'', ''state''] else [])"

fun well_formed :: "command \<Rightarrow> bool" where
  "well_formed (SetPower k w) = (w \<noteq> NaN)"
| "well_formed c = True"

lemma publish_events [simp, journal]:
  "map fst (published (sys_hub (publish (publishPowerChanged P k w) s))) = map fst (published (sys_hub s)) @ [''powerChanged'']"
  "map fst (published (sys_hub (publish (publishChannelChanged P k i f) s))) = map fst (published (sys_hub s)) @ [''channelChanged'']"
  "map fst (published (sys_hub (publish (publishRadioState P k st i w f) s))) = map fst (published (sys_hub s)) @ [''state'']"
  by (simp_all add: publish_def publishPowerChanged_def publishChannelChanged_def publishRadioState_def
      publishEvent_def split: prod.split)

section \<open>One case rule for all commands\<close>

lemma selectRadio_cases:
  assumes "selectRadio k s = (r, s')"
  obtains (unknown) "map_of (radios (sys_radios s)) k = None"
      "r = command_result Code.NotFound ''Radio not found'' None"
      "s' = emit_audit ''selectRadio'' k (JObject []) r s"
  | (selected) d where "map_of (radios (sys_radios s)) k = Some d" "r = command_result Code.Ok ''OK'' None"
      "s' = emit_audit ''selectRadio'' k (JObject []) r (s\<lparr>sys_radios := (sys_radios s)\<lparr>active_radio_id := Some k\<rparr>\<rparr>)"
  using assms by (cases "map_of (radios (sys_radios s)) k") (auto simp: selectRadio_def set_active_radio_def Let_def)

lemma execute_cases:
  assumes "execute V P c s = Some (r, s')"
  obtains (select) k where "c = SelectRadio k" "selectRadio k s = (r, s')"
  | (power) k w where "c = SetPower k w" "setPower V P k w s = Some (r, s')"
  | (channel) k i where "c = SetChannel k i" "setChannel V P k i s = Some (r, s')"
  using assms by (cases c) auto

lemmas branches = selectRadio_cases setPower_cases setChannel_cases

lemma get_adapter_select [simp]: "get_adapter (m\<lparr>active_radio_id := k\<rparr>) j = get_adapter m j"
  by (simp add: get_adapter_def)

section \<open>What every command does\<close>

lemma execute_audit:
  assumes "execute V P c s = Some (r, s')"
  shows "sys_audit s' = sys_audit s @ [command_audit c r]"
  using assms by (cases rule: execute_cases) (auto elim!: branches)

lemma execute_events:
  assumes "execute V P c s = Some (r, s')"
  shows "map fst (published (sys_hub s')) = map fst (published (sys_hub s)) @ command_events c r"
  using assms by (cases rule: execute_cases) (auto elim!: branches)

lemma execute_frame:
  assumes "execute V P c s = Some (r, s')" "j \<noteq> target c"
  shows "get_adapter (sys_radios s') j = get_adapter (sys_radios s) j"
  using assms by (cases rule: execute_cases) (auto elim!: branches simp: adapters.get_put_other)

lemma execute_keys:
  assumes "execute V P c s = Some (r, s')"
  shows "map fst (radios (sys_radios s')) = map fst (radios (sys_radios s))"
  using assms by (cases rule: execute_cases) (auto elim!: branches)

lemma execute_active:
  assumes "execute V P c s = Some (r, s')"
  shows "active_radio_id (sys_radios s') =
      (case c of SelectRadio k \<Rightarrow> if cr_code r = Code.Ok then Some k else active_radio_id (sys_radios s)
       | _ \<Rightarrow> active_radio_id (sys_radios s))"
  using assms by (cases rule: execute_cases) (auto elim!: branches)

lemma execute_refused_hub:
  assumes "execute V P c s = Some (r, s')" "cr_code r \<noteq> Code.Ok"
  shows "sys_hub s' = sys_hub s"
  using assms by (cases rule: execute_cases) (auto elim!: branches)

text \<open>The part of a Silvus radio's state that a client can read back.\<close>

definition settings :: "'a radio_manager \<Rightarrow> ('a \<Rightarrow> radio_state) \<Rightarrow> string \<Rightarrow> (double option \<times> int option) option" where
  "settings m st j = map_option (\<lambda>a. (rs_power_watts (st a), rs_channel_index (st a))) (get_adapter m j)"

lemma silvus_set_power_settings:
  assumes "silvus_set_power P w a e = Some (r, a', e')" "ar_code r \<noteq> CommandResultCode.Ok"
  shows "rs_power_watts (sa_state a') = rs_power_watts (sa_state a)"
    "rs_channel_index (sa_state a') = rs_channel_index (sa_state a)"
  using set_power_outcome [OF assms(1)] set_power_frame [OF assms(1)] assms(2) by simp_all

lemma silvus_set_channel_settings:
  assumes "silvus_set_channel P i f a e = Some (r, a', e')" "ar_code r \<noteq> CommandResultCode.Ok"
  shows "rs_power_watts (sa_state a') = rs_power_watts (sa_state a)"
    "rs_channel_index (sa_state a') = rs_channel_index (sa_state a)"
  using set_channel_outcome [OF assms(1)] set_channel_frame [OF assms(1)] assms(2) by simp_all

lemma execute_refused_settings:
  assumes "execute (silvus_ops P) P c s = Some (r, s')" "cr_code r \<noteq> Code.Ok"
  shows "settings (sys_radios s') sa_state j = settings (sys_radios s) sa_state j"
  using assms by (cases rule: execute_cases)
    (auto elim!: branches simp: silvus_ops_def settings_def intro!: adapters.view_put_same
      dest: silvus_set_power_settings silvus_set_channel_settings)

fun doomed :: "('a, 'e) radio_adapter_ops \<Rightarrow> 'a radio_manager \<Rightarrow> command \<Rightarrow> bool" where
  "doomed V m (SelectRadio k) \<longleftrightarrow> map_of (radios m) k = None"
| "doomed V m (SetPower k w) \<longleftrightarrow>
     (case get_adapter m k of None \<Rightarrow> True | Some a \<Rightarrow> \<not> in_power_range (op_capabilities V a) w)"
| "doomed V m (SetChannel k i) \<longleftrightarrow>
     (case get_adapter m k of None \<Rightarrow> True
      | Some a \<Rightarrow> i < 1 \<or> int (length (supported_frequencies_mhz (op_capabilities V a))) < i)"

context radio_adapter
begin

lemma vector_at_channel:
  assumes "ainv a" "op_set_power ops w a e = Some (r, a', e')"
  shows "(case rs_channel_index (op_state ops a') of
     Some c \<Rightarrow> vector_at (supported_frequencies_mhz (op_capabilities ops a)) (c - 1) | None \<Rightarrow> Some (Fin 0)) \<noteq> None"
proof -
  have "rs_channel_index (op_state ops a') = rs_channel_index (op_state ops a)"
    using set_power_keeps [OF assms] by simp
  then show ?thesis
    using inv_channel [OF assms(1)] by (auto simp: channel_ok_def vector_at_def split: option.splits)
qed

lemma execute_defined:
  assumes "manager_inv ops ainv (sys_radios s)" "well_formed c"
  shows "execute ops P c s \<noteq> None"
proof (cases c)
  case (SetPower k w)
  show ?thesis
  proof (cases "get_adapter (sys_radios s) k")
    case (Some a)
    have a: "ainv a" using manager_inv_get [OF assms(1) Some] by simp
    show ?thesis
    proof (cases "in_power_range (op_capabilities ops a) w")
      case True
      have "w \<noteq> NaN" using assms(2) SetPower by simp
      from set_power_returns [OF a True this] obtain r a' e' where
        step: "op_set_power ops w a (sys_env s) = Some (r, a', e')" .
      then show ?thesis using Some True vector_at_channel [OF a step]
        by (auto simp: SetPower setPower_def Let_def bind_eq_None_conv)
    qed (simp add: SetPower setPower_def Some Let_def)
  qed (simp add: SetPower setPower_def Let_def)
next
  case (SetChannel k i)
  have "setChannel ops P k i s \<noteq> None"
  proof (cases "get_adapter (sys_radios s) k")
    case (Some a)
    obtain r a' e' where
      "op_set_channel ops i (supported_frequencies_mhz (op_capabilities ops a) ! nat (i - 1)) a (sys_env s) = Some (r, a', e')"
      using set_channel_defined by (metis not_None_eq prod_cases3)
    then show ?thesis using Some by (simp add: setChannel_def Let_def vector_at_def)
  qed (simp add: setChannel_def Let_def)
  then show ?thesis by (simp add: SetChannel)
qed simp

lemma execute_inv:
  assumes "execute ops P c s = Some (r, s')" "manager_inv ops ainv (sys_radios s)"
  shows "manager_inv ops ainv (sys_radios s')"
  using assms(1)
proof (cases rule: execute_cases)
  case (select k)
  then show ?thesis
    using assms(2) set_active_radio_inv [OF assms(2), of k True]
    by (auto elim!: selectRadio_cases simp: set_active_radio_def)
next
  case (power k w)
  from power(2) show ?thesis
    by (cases rule: setPower_cases)
      (use assms(2) in \<open>auto intro!: put_adapter_inv dest: manager_inv_get set_power_keeps\<close>)
next
  case (channel k i)
  from channel(2) show ?thesis
    by (cases rule: setChannel_cases)
      (use assms(2) in \<open>auto intro!: put_adapter_inv dest: manager_inv_get set_channel_keeps\<close>)
qed

end

end
