(* ===== verification/Trace_Systems.thy ===== *)
theory Trace_Systems
  imports Main
begin

text \<open>
  The interfaces that the state machines of the development share: a step relation with its runs, and
  one machine refining another through an abstraction function. The service, its specification and the
  heartbeat timer are interpretations.
\<close>

locale trace_system =
  fixes step :: "'s \<Rightarrow> 'ev \<Rightarrow> 's \<Rightarrow> bool"
    and run :: "'s \<Rightarrow> 'ev list \<Rightarrow> 's \<Rightarrow> bool"
  assumes run_Nil: "run s [] s' \<longleftrightarrow> s' = s"
    and run_snoc: "run s (tr @ [ev]) s'' \<longleftrightarrow> (\<exists>s'. run s tr s' \<and> step s' ev s'')"
begin

lemma run_append: "run s (xs @ ys) s'' \<longleftrightarrow> (\<exists>s'. run s xs s' \<and> run s' ys s'')"
proof (induction ys arbitrary: s'' rule: rev_induct)
  case (snoc ev ys)
  then show ?case by (metis append_assoc run_snoc)
qed (simp add: run_Nil)

lemma run_single: "run s [ev] s' \<longleftrightarrow> step s ev s'"
  using run_snoc [of s "[]" ev s'] by (simp add: run_Nil)

lemma run_Cons: "run s (ev # tr) s'' \<longleftrightarrow> (\<exists>s'. step s ev s' \<and> run s' tr s'')"
  using run_append [of s "[ev]" tr s''] by (simp add: run_single)

lemma run_invariant:
  assumes "run s tr s'" "I s"
    and "\<And>s ev s'. step s ev s' \<Longrightarrow> ev \<in> set tr \<Longrightarrow> I s \<Longrightarrow> I s'"
  shows "I s'"
  using assms
proof (induction tr arbitrary: s' rule: rev_induct)
  case (snoc ev tr)
  from snoc.prems(1) obtain s1 where s1: "run s tr s1" "step s1 ev s'" by (auto simp: run_snoc)
  have "I s1" by (rule snoc.IH [OF s1(1) snoc.prems(2)]) (use snoc.prems(3) in auto)
  with snoc.prems(3) [OF s1(2)] show ?case by simp
qed (simp add: run_Nil)

text \<open>What every step appends, a run appends in order.\<close>

lemma run_appends:
  assumes "run s tr s'" "\<And>s ev s'. step s ev s' \<Longrightarrow> log s' = log s @ note ev"
  shows "log s' = log s @ concat (map note tr)"
  using assms(1)
proof (induction tr arbitrary: s' rule: rev_induct)
  case (snoc ev tr)
  then show ?case using assms(2) by (auto simp: run_snoc)
qed (simp add: run_Nil)

end

locale trace_refinement =
  concrete: trace_system step run + abstract: trace_system astep arun
  for step :: "'s \<Rightarrow> 'ev \<Rightarrow> 's \<Rightarrow> bool" and run and astep :: "'a \<Rightarrow> 'aev \<Rightarrow> 'a \<Rightarrow> bool" and arun +
  fixes view :: "'s \<Rightarrow> 'a" and visible_events :: "'ev \<Rightarrow> 'aev list" and inv :: "'s \<Rightarrow> bool"
  assumes step_keeps: "step s ev s' \<Longrightarrow> inv s \<Longrightarrow> inv s'"
    and step_refined: "step s ev s' \<Longrightarrow> inv s \<Longrightarrow> arun (view s) (visible_events ev) (view s')"
begin

lemma run_keeps: "run s tr s' \<Longrightarrow> inv s \<Longrightarrow> inv s'"
  using concrete.run_invariant [of s tr s' inv] step_keeps by blast

lemma run_refined:
  assumes "run s tr s'" "inv s"
  shows "arun (view s) (concat (map visible_events tr)) (view s')"
  using assms
proof (induction tr arbitrary: s' rule: rev_induct)
  case (snoc ev tr)
  then obtain s1 where s1: "run s tr s1" "step s1 ev s'" by (auto simp: concrete.run_snoc)
  from step_refined [OF s1(2) run_keeps [OF s1(1) snoc.prems(2)]] snoc.IH [OF s1(1) snoc.prems(2)]
  show ?case by (auto simp: abstract.run_append)
qed (simp add: concrete.run_Nil abstract.run_Nil)

text \<open>So an invariant of the abstract machine holds of the view of every reachable state.\<close>

lemma abstract_invariant:
  assumes "run s tr s'" "inv s" "J (view s)"
    and "\<And>a ev a'. astep a ev a' \<Longrightarrow> J a \<Longrightarrow> J a'"
  shows "J (view s')"
  using abstract.run_invariant [OF run_refined [OF assms(1,2)], of J] assms(3,4) by blast

end

end
