(* ===== verification/Application.thy ===== *)
theory Application
  imports Command_System Trace_Systems
begin

text \<open>
  application.cpp: how the service is put together. start connects the radios and starts the
  telemetry hub; the readiness poll publishes the ready snapshot once both listeners accept
  connections or asks the service to stop at its deadline; then commands, heartbeats and the
  outside world take turns. service_step is one such turn and service_run a sequence of them.
  The listeners, the service runner and discovery are dts-common's.
\<close>

section \<open>The ready snapshot\<close>

definition current_frequency :: "capability_info \<Rightarrow> radio_state \<Rightarrow> double" where
  "current_frequency caps st =
     (case rs_channel_index st of
        None \<Rightarrow> Fin 0
      | Some c \<Rightarrow> (case vector_at (supported_frequencies_mhz caps) (c - 1) of Some f \<Rightarrow> f | None \<Rightarrow> Fin 0))"

definition descriptor_view ::
  "('a, 'e) radio_adapter_ops \<Rightarrow> 'a radio_descriptor \<Rightarrow> radio_state \<times> capability_info" where
  "descriptor_view V d =
     (case rd_adapter d of
        Some a \<Rightarrow> (op_state V a, op_capabilities V a)
      | None \<Rightarrow> (rd_state d, default_capability_info))"

definition snapshot_status :: "RadioStatus \<Rightarrow> string" where
  "snapshot_status st =
     (if st = RadioStatus.Ready \<or> st = RadioStatus.Discovering \<or> st = RadioStatus.Busy then ''online''
      else if st = RadioStatus.Recovering then ''recovering'' else ''offline'')"

definition optional_json :: "('b \<Rightarrow> json) \<Rightarrow> 'b option \<Rightarrow> json" where
  "optional_json f v = (case v of Some x \<Rightarrow> f x | None \<Rightarrow> JNull)"

definition positive_json :: "double \<Rightarrow> json" where
  "positive_json f = (if flt (Fin 0) f then JFloat f else JNull)"

definition snapshot_item :: "('a, 'e) radio_adapter_ops \<Rightarrow> 'a radio_descriptor \<Rightarrow> json" where
  "snapshot_item V d =
     (let (st, caps) = descriptor_view V d
      in JObject [(''id'', JString (rd_id d)), (''model'', JString (''Silvus-'' @ rd_id d)),
           (''status'', JString (snapshot_status (rs_status st))),
           (''state'', JObject
              [(''powerDbm'', optional_json (\<lambda>w. JFloat (fround (wattsToDbmRaw w))) (rs_power_watts st)),
               (''frequencyMhz'', positive_json (current_frequency caps st))])])"

definition build_ready_snapshot :: "('a, 'e) radio_adapter_ops \<Rightarrow> 'a radio_manager \<Rightarrow> json" where
  "build_ready_snapshot V m =
     JObject [(''activeRadioId'', optional_json JString (active_radio_id m)),
       (''radios'', JArray (map (snapshot_item V) (list_radios m)))]"

section \<open>The endpoints announced by discovery\<close>

definition discovery_endpoints :: "config \<Rightarrow> string \<Rightarrow> (string \<times> string) list" where
  "discovery_endpoints cfg host =
     (let command = show_nat (unat (command_port (cfg_network cfg)));
          sse = show_nat (unat (effective_sse_port cfg))
      in [(''rest'', ''http://'' @ host @ '':'' @ command),
          (''sse'', ''http://'' @ host @ '':'' @ sse @ ''/api/v1/telemetry''),
          (''health'', ''http://'' @ host @ '':'' @ command @ ''/api/v1/health'')])"

section \<open>Start, readiness, stop\<close>

definition app_start :: "'e platform \<Rightarrow> config \<Rightarrow> 'e \<Rightarrow> (silvus_adapter, 'e) rcc_system option" where
  "app_start P cfg e =
     do { (m, e) \<leftarrow> manager_start (silvus_ops P) (load_from_config cfg) e;
          Some \<lparr>sys_radios = m, sys_hub = hub_start initial_hub, sys_audit = [], sys_env = e\<rparr> }"

definition app_stop :: "('a, 'e) rcc_system \<Rightarrow> ('a, 'e) rcc_system" where
  "app_stop s = s\<lparr>sys_radios := manager_stop (sys_radios s), sys_hub := hub_stop (sys_hub s)\<rparr>"

datatype readiness = Announced | StopRequested | Rearmed

text \<open>One readiness check: what the two listeners say, and the steady clock in milliseconds.\<close>

definition readiness_check ::
  "('a, 'e) radio_adapter_ops \<Rightarrow> bool \<Rightarrow> bool \<Rightarrow> int \<Rightarrow> int \<Rightarrow> ('a, 'e) rcc_system \<Rightarrow>
   readiness \<times> ('a, 'e) rcc_system" where
  "readiness_check V telemetryUp apiUp now deadline s =
     (if telemetryUp \<and> apiUp
      then (Announced, s\<lparr>sys_hub := publishReady (build_ready_snapshot V (sys_radios s)) (sys_hub s)\<rparr>)
      else if deadline \<le> now then (StopRequested, s)
      else (Rearmed, s))"

text \<open>The checks at the successive expiries of the 50 ms timer, until one of them settles.\<close>

fun readiness_poll ::
  "('a, 'e) radio_adapter_ops \<Rightarrow> int \<Rightarrow> (bool \<times> bool \<times> int) list \<Rightarrow> ('a, 'e) rcc_system \<Rightarrow>
   readiness \<times> ('a, 'e) rcc_system" where
  "readiness_poll V deadline [] s = (Rearmed, s)"
| "readiness_poll V deadline ((t, a, now) # obs) s =
     (case readiness_check V t a now deadline s of
        (Rearmed, s') \<Rightarrow> readiness_poll V deadline obs s'
      | settled \<Rightarrow> settled)"

section \<open>Turns of the running service\<close>

datatype service_event =
    Commanded command command_result
  | HeartbeatFired bool string
  | ReadinessChecked bool bool int int
  | WorldMoved
  | Stopped

inductive service_step ::
  "('a, 'e) radio_adapter_ops \<Rightarrow> 'e platform \<Rightarrow> ('a, 'e) rcc_system \<Rightarrow> service_event \<Rightarrow>
   ('a, 'e) rcc_system \<Rightarrow> bool"
  for V P where
  command: "execute V P c s = Some (r, s') \<Longrightarrow> service_step V P s (Commanded c r) s'"
| heartbeat: "heartbeat_fired aborted ts (sys_hub s) = (h, again) \<Longrightarrow>
    service_step V P s (HeartbeatFired aborted ts) (s\<lparr>sys_hub := h\<rparr>)"
| ready: "readiness_check V t a now deadline s = (res, s') \<Longrightarrow>
    service_step V P s (ReadinessChecked t a now deadline) s'"
| world: "service_step V P s WorldMoved (s\<lparr>sys_env := e\<rparr>)"
| stop: "service_step V P s Stopped (app_stop s)"

inductive_cases service_stepE: "service_step V P s ev s'"

inductive service_run ::
  "('a, 'e) radio_adapter_ops \<Rightarrow> 'e platform \<Rightarrow> ('a, 'e) rcc_system \<Rightarrow> service_event list \<Rightarrow>
   ('a, 'e) rcc_system \<Rightarrow> bool"
  for V P where
  idle: "service_run V P s [] s"
| turn: "service_run V P s tr s' \<Longrightarrow> service_step V P s' ev s'' \<Longrightarrow> service_run V P s (tr @ [ev]) s''"

interpretation service: trace_system "service_step V P" "service_run V P"
  for V :: "('a, 'e) radio_adapter_ops" and P :: "'e platform"
  by unfold_locales (auto elim: service_run.cases intro: service_run.intros)

lemma readiness_check_frame:
  assumes "readiness_check V t a now deadline s = (res, s')"
  shows "sys_radios s' = sys_radios s \<and> sys_audit s' = sys_audit s \<and> sys_env s' = sys_env s"
  using assms by (auto simp: readiness_check_def split: if_splits)

lemma app_stop_frame [simp]:
  "sys_radios (app_stop s) = manager_stop (sys_radios s)" "sys_audit (app_stop s) = sys_audit s"
  by (simp_all add: app_stop_def)

fun audited :: "service_event \<Rightarrow> operation_entry list" where
  "audited (Commanded c r) = [command_audit c r]"
| "audited ev = []"

lemma service_step_audit: "service_step V P s ev s' \<Longrightarrow> sys_audit s' = sys_audit s @ audited ev"
  by (auto elim!: service_stepE dest: execute_audit readiness_check_frame)

lemma manager_stop_keys [simp]: "radios (manager_stop m) = radios m"
  by (simp add: manager_stop_def)

lemma service_step_keys:
  "service_step V P s ev s' \<Longrightarrow> map fst (radios (sys_radios s')) = map fst (radios (sys_radios s))"
  by (auto elim!: service_stepE dest: execute_keys readiness_check_frame)

context radio_adapter
begin

lemma service_step_inv:
  "service_step ops P s ev s' \<Longrightarrow> manager_inv ops ainv (sys_radios s) \<Longrightarrow> manager_inv ops ainv (sys_radios s')"
  by (auto elim!: service_stepE intro: execute_inv manager_stop_inv dest: readiness_check_frame)

lemma service_run_inv:
  "service_run ops P s tr s' \<Longrightarrow> manager_inv ops ainv (sys_radios s) \<Longrightarrow> manager_inv ops ainv (sys_radios s')"
  using service.run_invariant [where I = "\<lambda>s. manager_inv ops ainv (sys_radios s)"] service_step_inv by blast

end

lemma app_start_inv:
  assumes "list_all entry_ok (cfg_radios cfg)" "app_start P cfg e = Some s"
  shows "manager_inv (silvus_ops P) silvus_inv (sys_radios s)"
proof -
  from assms(2) obtain m e' where
    "manager_start (silvus_ops P) (load_from_config cfg) e = Some (m, e')" "sys_radios s = m"
    by (auto simp: app_start_def bind_eq_Some_conv)
  with silvus.manager_start_inv [OF this(1) load_from_config_inv [OF assms(1)] load_from_config_unselected]
  show ?thesis by simp
qed

section \<open>What an accepted power command publishes\<close>

definition power_report :: "string \<Rightarrow> int \<Rightarrow> string \<Rightarrow> string \<times> json" where
  "power_report k d ts = (''powerChanged'',
     JObject [(''radioId'', JString k), (''powerDbm'', JFloat (Fin (of_int d))), (''ts'', JString ts)])"

definition power_state_report :: "string \<Rightarrow> int \<Rightarrow> radio_state \<Rightarrow> double \<Rightarrow> string \<Rightarrow> string \<times> json" where
  "power_state_report k d st f ts = (''state'',
     JObject [(''radioId'', JString k), (''status'', JString ''online''), (''powerDbm'', JFloat (Fin (of_int d))), (''ts'', JString ts),
       (''channelIndex'', case rs_channel_index st of Some c \<Rightarrow> if 0 < c then JInt c else JNull | None \<Rightarrow> JNull),
       (''frequencyMhz'', if flt (Fin 0) f then JFloat f else JNull)])"

lemma accepted_power_reports:
  assumes "setPower (silvus_ops P) P k (dbmToWatts (Fin (of_int d))) s = Some (r, s')"
    and "cr_code r = Code.Ok" "0 \<le> d" "d \<le> 39"
  obtains a a' f ts1 ts2 where "get_adapter (sys_radios s) k = Some a" "get_adapter (sys_radios s') k = Some a'"
    "rs_power_watts (sa_state a') = Some (dbmToWatts (Fin (of_int d)))"
    "(case rs_channel_index (sa_state a') of
        Some c \<Rightarrow> vector_at (supported_frequencies_mhz (sa_capabilities a)) (c - 1) | None \<Rightarrow> Some (Fin 0)) = Some f"
    "published (sys_hub s') = published (sys_hub s) @ [power_report k d ts1, power_state_report k d (sa_state a') f ts2]"
proof -
  let ?w = "dbmToWatts (Fin (of_int d))"
  from setPower_accepted [OF assms(1,2)] obtain ar a a' e f t1 t2 where
    x: "op_set_power (silvus_ops P) ?w a (sys_env s) = Some (ar, a', e)"
      "ar_code ar = CommandResultCode.Ok" "get_adapter (sys_radios s) k = Some a" "get_adapter (sys_radios s') k = Some a'"
      "(case rs_channel_index (op_state (silvus_ops P) a') of
          Some c \<Rightarrow> vector_at (supported_frequencies_mhz (op_capabilities (silvus_ops P) a)) (c - 1) | None \<Rightarrow> Some (Fin 0)) = Some f"
      "published (sys_hub s') = published (sys_hub s) @ [power_event k ?w t1,
       (''state'', state_payload k (status_to_string (rs_status (op_state (silvus_ops P) a')))
          (channel_of (op_state (silvus_ops P) a')) ?w f t2)]"
    by metis
  have a': "rs_power_watts (sa_state a') = Some ?w \<and> rs_status (sa_state a') = RadioStatus.Ready"
    using set_power_outcome [of P ?w a "sys_env s" ar a' e] x(1,2) by (simp add: silvus_ops_def)
  show thesis
    by (rule that [of a a' f t1 t2])
      (use a' x power_dbm_json_round_trip [OF assms(3,4)] in
        \<open>auto simp: power_event_def state_payload_def normalize_status_def channel_of_def silvus_ops_def
           power_report_def power_state_report_def split: option.split\<close>)
qed

section \<open>A concrete system\<close>

definition demo_config :: config where
  "demo_config = default_config\<lparr>cfg_radios := [\<lparr>re_id = ''r1'', re_adapter = ''silvus'',
     re_endpoint = ''http://10.0.0.1:80'', re_description = None, min_power_dbm = None, max_power_dbm = None\<rparr>]\<rparr>"

definition demo_ready :: silvus_adapter where
  "demo_ready = demo_adapter\<lparr>sa_state := default_radio_state\<lparr>rs_status := RadioStatus.Ready\<rparr>\<rparr>"

definition demo_system :: "(silvus_adapter, int) rcc_system" where
  "demo_system = \<lparr>sys_radios = \<lparr>radios = [(''r1'', \<lparr>rd_id = ''r1'', rd_adapter_type = ''silvus'',
       rd_adapter = Some demo_ready, rd_state = sa_state demo_ready\<rparr>)], active_radio_id = None\<rparr>,
     sys_hub = initial_hub, sys_audit = [], sys_env = 0\<rparr>"

lemma demo_connect: "silvus_connect demo demo_adapter now = Some (ok_result, demo_ready, now)"
  by (simp add: silvus_connect_def demo_rpc parseSupportedFrequencies_def demo_enable
      note_enable_max_power_def demo_ready_def set_status_def)

lemma demo_start: "app_start demo demo_config 0 = Some demo_system"
proof -
  have "load_from_config demo_config = \<lparr>radios = [(''r1'', \<lparr>rd_id = ''r1'', rd_adapter_type = ''silvus'',
       rd_adapter = Some demo_adapter, rd_state = sa_state demo_adapter\<rparr>)], active_radio_id = None\<rparr>"
    by (simp add: load_from_config_def demo_config_def load_entry_def entry_descriptor_def emplace_def demo_adapter_def Let_def)
  then show ?thesis
    by (simp add: app_start_def manager_start_def silvus_ops_def demo_connect demo_system_def
        hub_start_def initial_hub_def)
qed

lemma demo_config_ok: "list_all entry_ok (cfg_radios demo_config)"
  by (simp add: demo_config_def entry_ok_def)

lemma demo_get [simp]: "get_adapter (sys_radios demo_system) ''r1'' = Some demo_ready"
  by (simp add: demo_system_def get_adapter_def)

lemma demo_ready_sel [simp]:
  "sa_endpoint demo_ready = ''http://10.0.0.1:80''" "recovering_until demo_ready = 0"
  "sa_capabilities demo_ready = sa_capabilities demo_adapter"
  "rs_channel_index (sa_state demo_ready) = None" "sys_env demo_system = 0"
  by (simp_all add: demo_ready_def default_radio_state_def demo_system_def)

lemma demo_ready_enable: "readEnableMaxPower demo demo_ready now = (None, now)"
  by (simp add: readEnableMaxPower_def demo_rpc parseBooleanResult_def first_result_def)

lemma demo_setPower:
  "\<exists>s'. setPower (silvus_ops demo) demo ''r1'' (dbmToWatts (Fin 20)) demo_system =
     Some (command_result Code.Ok ''OK'' None, s')"
proof -
  have "silvus_set_power demo (dbmToWatts (Fin 20)) demo_ready 0 = Some (ok_result, demo_ready\<lparr>sa_state := (sa_state demo_ready)
      \<lparr>rs_power_watts := Some (dbmToWatts (Fin 20)), rs_status := RadioStatus.Ready\<rparr>\<rparr>, 0)"
    using demo_range demo_ready_enable dbm_int_round_trip [of 20]
    by (simp add: silvus_set_power_def isRecoveryWindowActive_def note_enable_max_power_def demo_rpc set_status_def)
  then show ?thesis using demo_range by (simp add: setPower_def silvus_ops_def Let_def)
qed

lemma demo_setChannel:
  "\<exists>s'. setChannel (silvus_ops demo) demo ''r1'' 2 demo_system = Some (command_result Code.Ok ''OK'' None, s')"
proof -
  have "findChannelIndex (sa_capabilities demo_ready) (Fin 2437) = Some 2" using demo_channel_index by simp
  then show ?thesis
    by (simp add: setChannel_def silvus_ops_def Let_def vector_at_def silvus_set_channel_def
        isRecoveryWindowActive_def demo_rpc)
qed

lemma demo_refused:
  "execute (silvus_ops demo) demo (SetChannel ''r1'' 4) demo_system = Some
     (command_result Code.InvalidRange ''Requested channelIndex is outside supported range'' None,
      emit_audit ''setChannel'' ''r1'' (JObject [(''channelIndex'', JInt 4)])
        (command_result Code.InvalidRange ''Requested channelIndex is outside supported range'' None) demo_system)"
  by (simp add: setChannel_def silvus_ops_def Let_def)

section \<open>The readiness poll ends\<close>

text \<open>The timer is armed for 50 ms after each check that did not settle.\<close>

fun spaced :: "int \<Rightarrow> (bool \<times> bool \<times> int) list \<Rightarrow> bool" where
  "spaced earliest [] \<longleftrightarrow> True"
| "spaced earliest ((t, a, now) # obs) \<longleftrightarrow> earliest \<le> now \<and> spaced (now + 50) obs"

lemma poll_settles:
  "spaced t obs \<Longrightarrow> start + 50 * int k \<le> t \<Longrightarrow> 41 \<le> k + length obs \<Longrightarrow> k \<le> 40 \<Longrightarrow>
   fst (readiness_poll V (start + 2000) obs s) \<noteq> Rearmed"
proof (induction t obs arbitrary: k rule: spaced.induct)
  case (2 earliest t a now obs)
  show ?case
  proof (cases "t \<and> a \<or> start + 2000 \<le> now")
    case True
    then show ?thesis by (auto simp: readiness_check_def)
  next
    case False
    then have check: "readiness_check V t a now (start + 2000) s = (Rearmed, s)"
      by (simp add: readiness_check_def)
    have k: "earliest \<le> now" "spaced (now + 50) obs" "now < start + 2000" using False 2(2) by auto
    have "fst (readiness_poll V (start + 2000) obs s) \<noteq> Rearmed"
    proof (rule 2(1) [OF k(2)])
      show "start + 50 * int (Suc k) \<le> now + 50" using k(1) 2(3) by simp
      show "Suc k \<le> 40" using k(1,3) 2(3) by linarith
      show "41 \<le> Suc k + length obs" using 2(4) unfolding list.size by linarith
    qed
    then show ?thesis by (simp add: check)
  qed
qed simp

lemma poll_frame:
  "readiness_poll V deadline obs s = (res, s') \<Longrightarrow> s' = (if res = Announced
    then s\<lparr>sys_hub := publishReady (build_ready_snapshot V (sys_radios s)) (sys_hub s)\<rparr> else s)"
proof (induction V deadline obs s rule: readiness_poll.induct)
  case (2 V deadline t a now obs s)
  then show ?case by (cases "t \<and> a"; cases "deadline \<le> now") (auto simp: readiness_check_def)
qed simp

text \<open>The readiness poll ends: with checks at least 50 ms apart from the start of the service on and
  the deadline 2 s later, one of the first 41 checks announces the service or asks it to stop, and the
  snapshot is published exactly in the first case.\<close>

theorem readiness_settles:
  assumes "spaced start obs" "41 \<le> length obs" "readiness_poll V (start + 2000) obs s = (res, s')"
  shows "res \<noteq> Rearmed \<and> s' = (if res = Announced
    then s\<lparr>sys_hub := publishReady (build_ready_snapshot V (sys_radios s)) (sys_hub s)\<rparr> else s)"
proof -
  have "fst (readiness_poll V (start + 2000) obs s) \<noteq> Rearmed"
    by (rule poll_settles [OF assms(1), where k = 0]) (use assms(2) in linarith)+
  with poll_frame [OF assms(3)] assms(3) show ?thesis by simp
qed

lemma spaced_polls: "spaced (50 * int m) (map (\<lambda>n. (False, False, 50 * int n)) [m..<m + k])"
proof (induction k arbitrary: m)
  case (Suc k)
  have "[m..<m + Suc k] = m # [Suc m..<Suc m + k]" by (simp add: upt_conv_Cons del: upt_Suc)
  moreover have "50 * int (Suc m) = 50 * int m + 50" by simp
  ultimately show ?case using Suc [of "Suc m"] by (simp del: upt_Suc of_nat_Suc)
qed simp

theorem readiness_settles_witness:
  "\<exists>s'. readiness_poll (silvus_ops demo) 2000 (map (\<lambda>n. (False, False, 50 * int n)) [0..<41]) demo_system = (StopRequested, s')"
proof -
  define obs where "obs = map (\<lambda>n. (False, False, 50 * int n)) [0..<41]"
  have never: "readiness_poll V d (map (\<lambda>n. (False, False, f n)) ns) s = (Announced, s') \<Longrightarrow> False"
    for V :: "(silvus_adapter, int) radio_adapter_ops" and d f s s' and ns :: "nat list"
    by (induction ns) (auto simp: readiness_check_def split: if_splits)
  obtain res s' where poll: "readiness_poll (silvus_ops demo) (0 + 2000) obs demo_system = (res, s')" by fastforce
  have obs: "spaced 0 obs" using spaced_polls [of 0 41] by (simp add: obs_def del: upt_Suc)
  have "length obs = 41" unfolding obs_def by (simp only: length_map length_upt)
  then have "41 \<le> length obs" by (rule eq_imp_le [OF sym])
  from readiness_settles [OF obs this poll] have "res \<noteq> Rearmed" by blast
  moreover have "res \<noteq> Announced"
    using never [of "silvus_ops demo" "0 + 2000" "\<lambda>n. 50 * int n" "[0..<41]" demo_system s'] poll
    unfolding obs_def by blast
  ultimately have "res = StopRequested" by (cases res) blast+
  with poll show ?thesis unfolding obs_def by auto
qed

section \<open>The announced endpoints are readable\<close>

lemma show_nat_plain: "c \<in> {CHR ''/'', CHR '':''} \<Longrightarrow> c \<notin> set (show_nat n)"
  using show_nat_digits [of c n] isdigit_facts(5) by (auto simp: isdigit_def char_code_def)

text \<open>The announced endpoints are readable by the HTTP client of the same code base: for a host name
  without slash or colon each of them parses into that host and a port whose text reads back as the
  configured number, with the documented paths.\<close>

theorem discovery_endpoints_parse:
  assumes "host \<noteq> []" "CHR ''/'' \<notin> set host" "CHR '':'' \<notin> set host"
  shows "map (\<lambda>(name, uri). (name, map_option (\<lambda>ep. (ep_host ep, stoi (ep_port ep), ep_path ep)) (parseEndpoint uri)))
      (discovery_endpoints cfg host) =
    [(''rest'', Some (host, Some (uint (command_port (cfg_network cfg))), ''/streamscape_api'')),
     (''sse'', Some (host, Some (uint (effective_sse_port cfg)), ''/api/v1/telemetry'')),
     (''health'', Some (host, Some (uint (command_port (cfg_network cfg))), ''/api/v1/health''))]"
proof -
  have port: "stoi (show_nat (unat p)) = Some (uint p)" for p :: "16 word"
  proof -
    have "unat p < 2 ^ LENGTH(16)" by (rule unsigned_less)
    then show ?thesis using stoi_show_nat [of "unat p"] by simp
  qed
  have parts: "parseEndpoint (''http://'' @ host @ '':'' @ show_nat n @ ''/'' @ path) =
      Some \<lparr>ep_host = host, ep_port = show_nat n, ep_path = CHR ''/'' # path\<rparr>"
    "parseEndpoint (''http://'' @ host @ '':'' @ show_nat n) =
      Some \<lparr>ep_host = host, ep_port = show_nat n, ep_path = ''/streamscape_api''\<rparr>" for n path
    using parseEndpoint_parts(1,2) [OF assms, of "show_nat n"] show_nat_plain by auto
  show ?thesis
    using parts(1) [of _ "''api/v1/telemetry''"] parts(1) [of _ "''api/v1/health''"] parts(2)
    by (simp add: discovery_endpoints_def Let_def port)
qed

theorem discovery_endpoints_parse_witness:
  "map (\<lambda>(name, uri). (name, map_option (\<lambda>ep. (ep_host ep, stoi (ep_port ep), ep_path ep)) (parseEndpoint uri)))
      (discovery_endpoints default_config ''rcc'') =
    [(''rest'', Some (''rcc'', Some 8080, ''/streamscape_api'')),
     (''sse'', Some (''rcc'', Some 8081, ''/api/v1/telemetry'')),
     (''health'', Some (''rcc'', Some 8080, ''/api/v1/health''))]"
  using discovery_endpoints_parse [of "''rcc''" default_config]
  by (simp add: default_config_def effective_sse_port_def default_network_def default_telemetry_def)

end
