(* ===== verification/Control_Spec.thy ===== *)
theory Control_Spec
  imports Application
begin

text \<open>
  The abstract specification of the service as its clients see it: a set of radios, each with the
  power and channel last commanded, its profile and its power range, and the radio that is selected.
  The detailed model refines it: every run of the service, seen through control_view and with its
  heartbeats, readiness checks and network exchanges hidden, is a run of the specification.
\<close>

record radio_view =
  rv_power :: "double option"
  rv_channel :: "int option"
  rv_profile :: "double list"
  rv_range :: "double \<times> double"

record control_spec =
  cs_active :: "string option"
  cs_radios :: "string \<rightharpoonup> radio_view"

datatype spec_event = Did command Code | Halted

definition in_limits :: "double \<times> double \<Rightarrow> double \<Rightarrow> bool" where
  "in_limits limits w \<longleftrightarrow> \<not> flt w (fst limits) \<and> \<not> flt (snd limits) w"

text \<open>The channel a request for index i is recorded as: i, or an earlier one of the same frequency.\<close>

definition names_channel :: "double list \<Rightarrow> int \<Rightarrow> int \<Rightarrow> bool" where
  "names_channel profile i c \<longleftrightarrow> 1 \<le> i \<and> i \<le> int (length profile) \<and>
     (c = i \<or> 1 \<le> c \<and> c < i \<and> same_channel (profile ! nat (c - 1)) (profile ! nat (i - 1)))"

inductive spec_step :: "control_spec \<Rightarrow> spec_event \<Rightarrow> control_spec \<Rightarrow> bool" where
  spec_select: "cs_radios \<sigma> k \<noteq> None \<Longrightarrow> spec_step \<sigma> (Did (SelectRadio k) Code.Ok) (\<sigma>\<lparr>cs_active := Some k\<rparr>)"
| spec_power: "cs_radios \<sigma> k = Some v \<Longrightarrow> in_limits (rv_range v) w \<Longrightarrow>
    spec_step \<sigma> (Did (SetPower k w) Code.Ok) (\<sigma>\<lparr>cs_radios := (cs_radios \<sigma>)(k \<mapsto> v\<lparr>rv_power := Some w\<rparr>)\<rparr>)"
| spec_channel: "cs_radios \<sigma> k = Some v \<Longrightarrow> names_channel (rv_profile v) i c \<Longrightarrow>
    spec_step \<sigma> (Did (SetChannel k i) Code.Ok) (\<sigma>\<lparr>cs_radios := (cs_radios \<sigma>)(k \<mapsto> v\<lparr>rv_channel := Some c\<rparr>)\<rparr>)"
| spec_refuse: "code \<noteq> Code.Ok \<Longrightarrow> (code = Code.NotFound) = (cs_radios \<sigma> (target c) = None) \<Longrightarrow>
    spec_step \<sigma> (Did c code) \<sigma>"
| spec_halt: "spec_step \<sigma> Halted (\<sigma>\<lparr>cs_active := None\<rparr>)"

inductive_cases spec_stepE: "spec_step \<sigma> ev \<sigma>'"

inductive spec_run :: "control_spec \<Rightarrow> spec_event list \<Rightarrow> control_spec \<Rightarrow> bool" where
  spec_idle: "spec_run \<sigma> [] \<sigma>"
| spec_turn: "spec_run \<sigma> tr \<sigma>' \<Longrightarrow> spec_step \<sigma>' ev \<sigma>'' \<Longrightarrow> spec_run \<sigma> (tr @ [ev]) \<sigma>''"

interpretation control: trace_system spec_step spec_run
  by unfold_locales (auto elim: spec_run.cases intro: spec_run.intros)

section \<open>The abstraction function\<close>

definition view_adapter :: "silvus_adapter \<Rightarrow> radio_view" where
  "view_adapter a = \<lparr>rv_power = rs_power_watts (sa_state a), rv_channel = rs_channel_index (sa_state a),
     rv_profile = supported_frequencies_mhz (sa_capabilities a), rv_range = power_range_watts (sa_capabilities a)\<rparr>"

definition control_view :: "silvus_adapter radio_manager \<Rightarrow> control_spec" where
  "control_view m = \<lparr>cs_active = active_radio_id m, cs_radios = (\<lambda>k. map_option view_adapter (get_adapter m k))\<rparr>"

fun visible :: "service_event \<Rightarrow> spec_event list" where
  "visible (Commanded c r) = [Did c (cr_code r)]"
| "visible Stopped = [Halted]"
| "visible ev = []"

lemma control_view_sel [simp]:
  "cs_active (control_view m) = active_radio_id m"
  "cs_radios (control_view m) k = map_option view_adapter (get_adapter m k)"
  by (simp_all add: control_view_def)

lemma control_view_put:
  assumes "get_adapter m k = Some a"
  shows "control_view (put_adapter k a' m) =
    (control_view m)\<lparr>cs_radios := (cs_radios (control_view m))(k \<mapsto> view_adapter a')\<rparr>"
  using adapters.view_put [OF assms, of view_adapter a'] by (simp add: control_view_def)

lemma control_view_put_same:
  assumes "get_adapter m k = Some a" "view_adapter a' = view_adapter a"
  shows "control_view (put_adapter k a' m) = control_view m"
  using adapters.view_put_same [OF assms] by (simp add: control_view_def)

lemma known_adapter:
  assumes "manager_inv V ainv m"
  shows "get_adapter m k = None \<longleftrightarrow> map_of (radios m) k = None"
proof -
  have "rd_adapter d \<noteq> None" if "map_of (radios m) k = Some d" for d
    using assms map_of_SomeD [OF that] by (force simp: manager_inv_def list_all_iff descriptor_ok_def split: option.splits)
  then show ?thesis by (cases "map_of (radios m) k") (auto simp: get_adapter_def)
qed

lemma mapAdapterCode_not_found [simp]: "mapAdapterCode c \<noteq> Code.NotFound"
  by (cases c) simp_all

lemma power_view:
  assumes "silvus_set_power P w a e = Some (ar, a', e')"
  shows "view_adapter a' = (if ar_code ar = CommandResultCode.Ok then (view_adapter a)\<lparr>rv_power := Some w\<rparr> else view_adapter a)"
  using set_power_frame [OF assms] set_power_outcome [OF assms] by (auto simp: view_adapter_def same_limits_def)

lemma same_channel_finite: "same_channel x f \<Longrightarrow> \<exists>r. f = Fin r"
proof -
  have "\<not> flt PInf (lit (1 / 1000))" using lit_milli_pos(2) by (cases "lit (1 / 1000)") (auto simp: flt_def)
  then show "same_channel x f \<Longrightarrow> \<exists>r. f = Fin r"
    by (cases x; cases f) (auto simp: same_channel_def minus_double_def)
qed

lemma channel_view:
  assumes "silvus_set_channel P i f a e = Some (ar, a', e')"
    and "1 \<le> i" "i \<le> int (length (supported_frequencies_mhz (sa_capabilities a)))"
    and "f = supported_frequencies_mhz (sa_capabilities a) ! nat (i - 1)" "ar_code ar = CommandResultCode.Ok"
  shows "\<exists>c. names_channel (rv_profile (view_adapter a)) i c \<and> view_adapter a' = (view_adapter a)\<lparr>rv_channel := Some c\<rparr>"
proof (cases "findChannelIndex (sa_capabilities a) f")
  case None
  then show ?thesis
    using set_channel_frame [OF assms(1)] set_channel_outcome [OF assms(1)] assms(2,3,5)
    by (auto simp: view_adapter_def names_channel_def)
next
  case (Some c)
  note found = findChannelIndex_Some [OF Some]
  have "c \<le> i"
  proof (rule ccontr)
    assume "\<not> c \<le> i"
    then have "nat (i - 1) < nat c - 1" using assms(2) by linarith
    then have "\<not> same_channel f f" using found(4) assms(4) by blast
    moreover have "same_channel f f" using same_channel_finite [OF found(3)] by auto
    ultimately show False by simp
  qed
  then have "names_channel (rv_profile (view_adapter a)) i c"
    using found(1,3) assms(2-4) by (auto simp: names_channel_def view_adapter_def nat_diff_distrib)
  moreover have "view_adapter a' = (view_adapter a)\<lparr>rv_channel := Some c\<rparr>"
    using set_channel_frame [OF assms(1)] set_channel_outcome [OF assms(1)] assms(5) Some by (auto simp: view_adapter_def)
  ultimately show ?thesis by blast
qed

lemma channel_view_refused:
  assumes "silvus_set_channel P i f a e = Some (ar, a', e')" "ar_code ar \<noteq> CommandResultCode.Ok"
  shows "view_adapter a' = view_adapter a"
  using set_channel_frame [OF assms(1)] set_channel_outcome [OF assms(1)] assms(2) by (auto simp: view_adapter_def)

lemma silvus_ops_sel [simp]:
  "op_set_power (silvus_ops P) = silvus_set_power P" "op_set_channel (silvus_ops P) = silvus_set_channel P"
  "op_capabilities (silvus_ops P) = sa_capabilities" "op_state (silvus_ops P) = sa_state"
  by (simp_all add: silvus_ops_def)

section \<open>Refinement\<close>

lemma select_refines:
  assumes "manager_inv V ainv (sys_radios s)" "selectRadio k s = (r, s')"
  shows "spec_step (control_view (sys_radios s)) (Did (SelectRadio k) (cr_code r)) (control_view (sys_radios s'))"
  using assms(2)
proof (cases rule: selectRadio_cases)
  case unknown
  then show ?thesis using known_adapter [OF assms(1)] by (auto intro!: spec_refuse)
next
  case (selected d)
  then have "get_adapter (sys_radios s) k \<noteq> None" using known_adapter [OF assms(1)] by auto
  then show ?thesis using spec_select [of "control_view (sys_radios s)" k] selected
    by (simp add: control_view_def)
qed

lemma power_refines:
  assumes "setPower (silvus_ops P) P k w s = Some (r, s')"
  shows "spec_step (control_view (sys_radios s)) (Did (SetPower k w) (cr_code r)) (control_view (sys_radios s'))"
  using assms
proof (cases rule: setPower_cases)
  case (refused a ar a' e)
  then show ?thesis using power_view [of P w a _ ar a' e] control_view_put_same [of "sys_radios s" k a a']
    by (auto intro!: spec_refuse)
next
  case (accepted a ar a' e f)
  then have "view_adapter a' = (view_adapter a)\<lparr>rv_power := Some w\<rparr>" using power_view [of P w a _ ar a' e] by simp
  moreover have "in_limits (rv_range (view_adapter a)) w"
    using accepted(2) by (simp add: in_limits_def in_power_range_def view_adapter_def)
  ultimately show ?thesis
    using spec_power [of "control_view (sys_radios s)" k "view_adapter a" w] accepted control_view_put [of "sys_radios s" k a a'] by simp
qed (auto intro!: spec_refuse)

lemma channel_refines:
  assumes "setChannel (silvus_ops P) P k i s = Some (r, s')"
  shows "spec_step (control_view (sys_radios s)) (Did (SetChannel k i) (cr_code r)) (control_view (sys_radios s'))"
  using assms
proof (cases rule: setChannel_cases)
  case (refused a ar a' e)
  then show ?thesis using channel_view_refused [of P i _ a _ ar a' e] control_view_put_same [of "sys_radios s" k a a']
    by (auto intro!: spec_refuse)
next
  case (accepted a ar a' e f)
  then obtain c where c: "names_channel (rv_profile (view_adapter a)) i c"
    "view_adapter a' = (view_adapter a)\<lparr>rv_channel := Some c\<rparr>" using channel_view [of P i f a _ ar a' e] by auto
  then show ?thesis
    using spec_channel [of "control_view (sys_radios s)" k "view_adapter a" i c] accepted control_view_put [of "sys_radios s" k a a'] by simp
qed (auto intro!: spec_refuse)

lemma execute_refines:
  assumes "manager_inv V ainv (sys_radios s)" "execute (silvus_ops P) P c s = Some (r, s')"
  shows "spec_step (control_view (sys_radios s)) (Did c (cr_code r)) (control_view (sys_radios s'))"
  using assms(2) by (cases rule: execute_cases) (use select_refines [OF assms(1)] power_refines channel_refines in auto)

lemma step_refines:
  assumes "manager_inv V ainv (sys_radios s)" "service_step (silvus_ops P) P s ev s'"
  shows "spec_run (control_view (sys_radios s)) (visible ev) (control_view (sys_radios s'))"
  using assms(2)
proof cases
  case (command c r)
  with execute_refines [OF assms(1) command(2)] show ?thesis by (simp add: control.run_single)
next
  case stop
  have "control_view (manager_stop (sys_radios s)) = (control_view (sys_radios s))\<lparr>cs_active := None\<rparr>"
    by (simp add: control_view_def manager_stop_def get_adapter_def)
  with stop spec_halt [of "control_view (sys_radios s)"] show ?thesis by (simp add: control.run_single)
qed (auto simp: control.run_Nil dest: readiness_check_frame)

interpretation refined: trace_refinement "service_step (silvus_ops P) P" "service_run (silvus_ops P) P" spec_step spec_run
    "\<lambda>s. control_view (sys_radios s)" visible "\<lambda>s. manager_inv (silvus_ops P) silvus_inv (sys_radios s)"
  for P :: "'e platform"
  by unfold_locales (blast intro: silvus.service_step_inv step_refines)+

text \<open>C2. The service refines its specification: every run from a state that satisfies the manager invariant
  is, through the abstraction function, a run of the specification over the same commands with the same
  codes. So a client sees only what it commanded: a radio's power and channel change by accepted
  commands for that radio alone, to the commanded power, inside the radio's range, and to the commanded
  channel or an earlier one of the same frequency; profiles and ranges never change; and NotFound is
  answered exactly for radios that do not exist.\<close>

theorem service_refines_specification:
  assumes "service_run (silvus_ops P) P s tr s'" "manager_inv (silvus_ops P) silvus_inv (sys_radios s)"
  shows "spec_run (control_view (sys_radios s)) (concat (map visible tr)) (control_view (sys_radios s'))"
  using assms by (rule refined.run_refined)

lemma demo_inv: "manager_inv (silvus_ops demo) silvus_inv (sys_radios demo_system)"
  by (rule app_start_inv [OF demo_config_ok demo_start])

theorem service_refines_specification_witness:
  "\<exists>s'. execute (silvus_ops demo) demo (SetChannel ''r1'' 2) demo_system = Some (command_result Code.Ok ''OK'' None, s') \<and>
     spec_run (control_view (sys_radios demo_system)) [Did (SetChannel ''r1'' 2) Code.Ok, Halted]
       (control_view (sys_radios (app_stop s')))"
proof -
  obtain s' where s': "execute (silvus_ops demo) demo (SetChannel ''r1'' 2) demo_system =
      Some (command_result Code.Ok ''OK'' None, s')" using demo_setChannel by auto
  have "service_run (silvus_ops demo) demo demo_system (([] @ [Commanded (SetChannel ''r1'' 2) (command_result Code.Ok ''OK'' None)]) @ [Stopped]) (app_stop s')"
    using service_run.turn [OF service_run.turn [OF service_run.idle service_step.command [OF s']] service_step.stop] .
  from service_refines_specification [OF this demo_inv] s' show ?thesis by simp
qed

text \<open>What the specification itself guarantees, and with it the service: profiles and ranges are constant.\<close>

definition limits_of :: "control_spec \<Rightarrow> string \<Rightarrow> (double list \<times> (double \<times> double)) option" where
  "limits_of \<sigma> k = map_option (\<lambda>v. (rv_profile v, rv_range v)) (cs_radios \<sigma> k)"

lemma spec_step_limits: "spec_step \<sigma> ev \<sigma>' \<Longrightarrow> limits_of \<sigma>' k = limits_of \<sigma> k"
  by (auto simp: limits_of_def elim!: spec_stepE)

lemma service_limits:
  assumes "service_run (silvus_ops P) P s tr s'" "manager_inv (silvus_ops P) silvus_inv (sys_radios s)"
  shows "limits_of (control_view (sys_radios s')) k = limits_of (control_view (sys_radios s)) k"
  by (rule refined.abstract_invariant [OF assms, where J = "\<lambda>\<sigma>. limits_of \<sigma> k = limits_of (control_view (sys_radios s)) k"])
    (simp_all add: spec_step_limits)

end
