(* ===== verification/Authenticator.thy ===== *)
theory Authenticator
  imports Config_Types
begin

text \<open>
  authenticator.cpp: who may read telemetry and who may command. The HTTP request type and the
  bearer-token validator belong to dts-common; the record token_service is what the code calls of
  the validator: validate under the configured secret, and the two scope tests. Request headers
  are a map from lower-case names, as dts-common's parser stores them.
\<close>

datatype AccessLevel = Telemetry | Control

record http_request =
  req_method :: string
  req_path :: string
  req_headers :: "string \<rightharpoonup> string"
  req_body :: string

record 'sc token_info =
  ti_valid :: bool
  ti_subject :: string
  ti_scope :: 'sc

record 'sc token_service =
  ts_validate :: "string \<Rightarrow> string \<Rightarrow> 'sc token_info"
  ts_viewer_or_higher :: "'sc token_info \<Rightarrow> bool"
  ts_operator_or_higher :: "'sc token_info \<Rightarrow> bool"

text \<open>AuthResult: the scope field is None where the code leaves its value-initialised default.\<close>

record 'sc auth_result =
  allowed :: bool
  subject :: string
  auth_message :: string
  auth_scope :: "'sc option"
  http_status :: int
  error_code :: string

record authenticator =
  validator_secret :: "string option"
  allow_unauthenticated_viewer :: bool
  allow_unauthenticated_control :: bool
  auth_allowed_roles :: "string list"

definition is_role_allowed :: "string list \<Rightarrow> string \<Rightarrow> bool" where
  "is_role_allowed roles role \<longleftrightarrow> (if roles = [] then True else role \<in> set roles)"

definition make_authenticator :: "security_config \<Rightarrow> authenticator" where
  "make_authenticator cfg =
     (let a = \<lparr>validator_secret = None, allow_unauthenticated_viewer = False,
               allow_unauthenticated_control = False, auth_allowed_roles = allowed_roles cfg\<rparr>
      in if token_secret cfg \<noteq> [] then a\<lparr>validator_secret := Some (token_secret cfg)\<rparr>
         else if allow_unauthenticated_dev_access cfg then
           (if auth_allowed_roles a = [] then a\<lparr>allow_unauthenticated_viewer := True, allow_unauthenticated_control := True\<rparr>
            else a\<lparr>allow_unauthenticated_viewer := is_role_allowed (auth_allowed_roles a) ''viewer'',
                   allow_unauthenticated_control := is_role_allowed (auth_allowed_roles a) ''controller''\<rparr>)
         else a)"

definition header_value :: "http_request \<Rightarrow> string \<Rightarrow> string" where
  "header_value request key = (case req_headers request key of None \<Rightarrow> [] | Some v \<Rightarrow> v)"

definition granted :: "string \<Rightarrow> 'sc option \<Rightarrow> 'sc auth_result" where
  "granted who scope = \<lparr>allowed = True, subject = who, auth_message = [], auth_scope = scope,
     http_status = 401, error_code = ''UNAUTHORIZED''\<rparr>"

definition denied :: "string \<Rightarrow> int \<Rightarrow> string \<Rightarrow> 'sc auth_result" where
  "denied message status code = \<lparr>allowed = False, subject = [], auth_message = message, auth_scope = None,
     http_status = status, error_code = code\<rparr>"

definition required_role :: "AccessLevel \<Rightarrow> string" where
  "required_role level = (case level of AccessLevel.Telemetry \<Rightarrow> ''viewer'' | AccessLevel.Control \<Rightarrow> ''controller'')"

definition authorize :: "'sc token_service \<Rightarrow> authenticator \<Rightarrow> http_request \<Rightarrow> AccessLevel \<Rightarrow> 'sc auth_result" where
  "authorize T a request level =
     (case validator_secret a of
        None \<Rightarrow>
          (if level = AccessLevel.Telemetry \<and> allow_unauthenticated_viewer a then granted ''anonymous'' None
           else if level = AccessLevel.Control \<and> allow_unauthenticated_control a then granted ''anonymous'' None
           else denied ''Authentication required'' 401 ''UNAUTHORIZED'')
      | Some secret \<Rightarrow>
          (let authHeader = header_value request ''authorization''
           in if authHeader = [] then denied ''Missing Authorization header'' 401 ''UNAUTHORIZED''
           else let info = ts_validate T secret authHeader
           in if \<not> ti_valid info then denied ''Invalid bearer token'' 401 ''UNAUTHORIZED''
           else let permitted = (if level = AccessLevel.Telemetry then ts_viewer_or_higher T info
                                 else ts_operator_or_higher T info)
           in if \<not> permitted then denied ''Insufficient scope'' 403 ''FORBIDDEN''
           else if auth_allowed_roles a \<noteq> [] \<and> \<not> is_role_allowed (auth_allowed_roles a) (required_role level)
           then denied ''Role not permitted by configuration'' 403 ''FORBIDDEN''
           else granted (ti_subject info) (Some (ti_scope info))))"

section \<open>What an access decision means\<close>

definition scope_suffices :: "'sc token_service \<Rightarrow> AccessLevel \<Rightarrow> 'sc token_info \<Rightarrow> bool" where
  "scope_suffices T level info \<longleftrightarrow>
     (case level of AccessLevel.Telemetry \<Rightarrow> ts_viewer_or_higher T info
      | AccessLevel.Control \<Rightarrow> ts_operator_or_higher T info)"

text \<open>The access policy of the configuration: with a secret, a valid token of sufficient scope;
  without one, only the development switch; in both cases a role list restricts the levels.\<close>

definition policy :: "'sc token_service \<Rightarrow> security_config \<Rightarrow> http_request \<Rightarrow> AccessLevel \<Rightarrow> bool" where
  "policy T cfg request level \<longleftrightarrow>
     (allowed_roles cfg = [] \<or> required_role level \<in> set (allowed_roles cfg)) \<and>
     (if token_secret cfg = [] then allow_unauthenticated_dev_access cfg
      else (\<exists>v. req_headers request ''authorization'' = Some v \<and> v \<noteq> [] \<and>
              ti_valid (ts_validate T (token_secret cfg) v) \<and>
              scope_suffices T level (ts_validate T (token_secret cfg) v)))"

lemma granted_denied_simps [simp]:
  "allowed (granted who sc)" "\<not> allowed (denied m st c)" "subject (granted who sc) = who"
  "http_status (denied m st c) = st" "error_code (denied m st c) = c" "auth_message (denied m st c) = m"
  by (simp_all add: granted_def denied_def)

lemma header_value_iff: "header_value request k = v \<and> v \<noteq> [] \<longleftrightarrow> req_headers request k = Some v \<and> v \<noteq> []"
  by (auto simp: header_value_def split: option.splits)

lemma make_authenticator_sel:
  "validator_secret (make_authenticator cfg) = (if token_secret cfg = [] then None else Some (token_secret cfg))"
  "auth_allowed_roles (make_authenticator cfg) = allowed_roles cfg"
  "allow_unauthenticated_viewer (make_authenticator cfg) \<longleftrightarrow> token_secret cfg = [] \<and>
     allow_unauthenticated_dev_access cfg \<and> is_role_allowed (allowed_roles cfg) ''viewer''"
  "allow_unauthenticated_control (make_authenticator cfg) \<longleftrightarrow> token_secret cfg = [] \<and>
     allow_unauthenticated_dev_access cfg \<and> is_role_allowed (allowed_roles cfg) ''controller''"
  by (simp_all add: make_authenticator_def Let_def is_role_allowed_def)

lemma authorize_allowed: "allowed (authorize T (make_authenticator cfg) request level) = policy T cfg request level"
  by (cases level; cases "req_headers request ''authorization''")
    (auto simp: authorize_def make_authenticator_sel policy_def Let_def is_role_allowed_def
      scope_suffices_def required_role_def header_value_def)

text \<open>C9. Access is granted exactly when the configured policy grants it: nothing but a valid token
  of sufficient scope (or the development switch when no secret is configured) opens a level, and a
  non-empty role list is enforced in both modes.\<close>

theorem authorize_iff_policy:
  "allowed (authorize T (make_authenticator cfg) request level) = policy T cfg request level"
  by (rule authorize_allowed)

definition denial_status :: "'sc token_service \<Rightarrow> security_config \<Rightarrow> http_request \<Rightarrow> int" where
  "denial_status T cfg request =
     (if token_secret cfg \<noteq> [] \<and>
         (case req_headers request ''authorization'' of None \<Rightarrow> False
            | Some v \<Rightarrow> v \<noteq> [] \<and> ti_valid (ts_validate T (token_secret cfg) v))
      then 403 else 401)"

text \<open>A denial distinguishes who the caller is from what the caller may do: 403 FORBIDDEN for a
  valid token whose scope or role does not suffice, 401 UNAUTHORIZED in every other case.\<close>

theorem authorize_denial:
  assumes "\<not> policy T cfg request level"
  shows "http_status (authorize T (make_authenticator cfg) request level) = denial_status T cfg request \<and>
    error_code (authorize T (make_authenticator cfg) request level) =
      (if denial_status T cfg request = 403 then ''FORBIDDEN'' else ''UNAUTHORIZED'')"
  using assms
  by (cases level; cases "req_headers request ''authorization''";
      auto simp: authorize_def make_authenticator_sel policy_def Let_def is_role_allowed_def
      scope_suffices_def required_role_def header_value_def denial_status_def)

text \<open>A concrete validator for the witness: the secret itself is a viewer's token.\<close>

definition demo_tokens :: "nat token_service" where
  "demo_tokens = \<lparr>ts_validate = (\<lambda>secret header. \<lparr>ti_valid = (header = secret), ti_subject = ''demo'', ti_scope = 0\<rparr>),
     ts_viewer_or_higher = (\<lambda>info. True), ts_operator_or_higher = (\<lambda>info. 1 \<le> ti_scope info)\<rparr>"

theorem authorize_denial_witness:
  "http_status (authorize demo_tokens (make_authenticator (default_security\<lparr>token_secret := ''s''\<rparr>))
     \<lparr>req_method = ''POST'', req_path = ''/'', req_headers = [''authorization'' \<mapsto> ''s''], req_body = []\<rparr>
     AccessLevel.Control) = 403"
  using authorize_denial [of demo_tokens "default_security\<lparr>token_secret := ''s''\<rparr>"
      "\<lparr>req_method = ''POST'', req_path = ''/'', req_headers = [''authorization'' \<mapsto> ''s''], req_body = []\<rparr>"
      AccessLevel.Control]
  by (simp add: policy_def denial_status_def demo_tokens_def scope_suffices_def default_security_def)

end
