(* ===== verification/Base64_Url.thy ===== *)
theory Base64_Url
  imports Cpp_Strings "HOL-Library.Word"
begin

unbundle bit_operations_syntax

text \<open>
  b64url of api_gateway.cpp: base64 with the URL alphabet and without padding. The code collects the
  input in a 64-bit accumulator that it never masks, so on long inputs the upper bits are lost; the
  lemmas show that the output only depends on the bits that remain, that it is the RFC 4648
  encoding of the input's bits in groups of six, and that decoding gives the input back.
\<close>

definition b64_table :: string where
  "b64_table = ''ABCDEFGHIJKLMNOPQRSTUVWXYZabcdefghijklmnopqrstuvwxyz0123456789+/''"

definition b64_char :: "64 word \<Rightarrow> char" where
  "b64_char x = b64_table ! unat (x AND 0x3F)"

text \<open>The inner loop: emit sextets while valb is not negative. drop_bit is >> and push_bit is <<.\<close>

function b64_emit :: "64 word \<Rightarrow> int \<Rightarrow> string \<Rightarrow> int \<times> string" where
  "b64_emit val valb out =
     (if 0 \<le> valb then b64_emit val (valb - 6) (out @ [b64_char (drop_bit (nat valb) val)]) else (valb, out))"
  by pat_completeness auto
termination
  by (relation "measure (\<lambda>(val, valb, out). nat (valb + 6))") auto

declare b64_emit.simps [simp del]

fun b64_loop :: "nat list \<Rightarrow> 64 word \<Rightarrow> int \<Rightarrow> string \<Rightarrow> 64 word \<times> int \<times> string" where
  "b64_loop [] val valb out = (val, valb, out)"
| "b64_loop (d # data) val valb out =
     (let val = push_bit 8 val + of_nat d; (valb, out) = b64_emit val (valb + 8) out
      in b64_loop data val valb out)"

definition b64_url_char :: "char \<Rightarrow> char" where
  "b64_url_char c = (if c = CHR ''+'' then CHR ''-'' else if c = CHR ''/'' then CHR ''_'' else c)"

definition b64url_bytes :: "nat list \<Rightarrow> string" where
  "b64url_bytes data =
     (let (val, valb, out) = b64_loop data 0 (-6) [];
          out = (if -6 < valb then out @ [b64_char (drop_bit (nat (valb + 8)) (push_bit 8 val))] else out)
      in map b64_url_char out)"

definition b64url :: "string \<Rightarrow> string" where
  "b64url s = b64url_bytes (map of_char s)"

section \<open>The reference encoding\<close>

definition url_table :: string where
  "url_table = ''ABCDEFGHIJKLMNOPQRSTUVWXYZabcdefghijklmnopqrstuvwxyz0123456789-_''"

definition sextet :: "nat \<Rightarrow> char" where
  "sextet n = url_table ! n"

fun rfc4648 :: "nat list \<Rightarrow> string" where
  "rfc4648 (a # b # c # rest) =
     [sextet (a div 4), sextet (a mod 4 * 16 + b div 16), sextet (b mod 16 * 4 + c div 64), sextet (c mod 64)] @ rfc4648 rest"
| "rfc4648 [a, b] = [sextet (a div 4), sextet (a mod 4 * 16 + b div 16), sextet (b mod 16 * 4)]"
| "rfc4648 [a] = [sextet (a div 4), sextet (a mod 4 * 16)]"
| "rfc4648 [] = []"

definition sextet_value :: "char \<Rightarrow> nat" where
  "sextet_value c = length (takeWhile (\<lambda>x. x \<noteq> c) url_table)"

fun decode64 :: "nat list \<Rightarrow> nat list" where
  "decode64 (p # q # r # s # rest) =
     [p * 4 + q div 16, q mod 16 * 16 + r div 4, r mod 4 * 64 + s] @ decode64 rest"
| "decode64 [p, q, r] = [p * 4 + q div 16, q mod 16 * 16 + r div 4]"
| "decode64 [p, q] = [p * 4 + q div 16]"
| "decode64 _ = []"

definition b64url_decode :: "string \<Rightarrow> nat list" where
  "b64url_decode s = decode64 (map sextet_value s)"

lemma url_table_ok: "distinct url_table" "length url_table = 64" "length b64_table = 64"
  by code_simp+

lemma url_table_map: "map b64_url_char b64_table = url_table"
  by code_simp

lemma sextet_value_sextet:
  assumes "n < 64"
  shows "sextet_value (sextet n) = n"
proof -
  have n: "n < length url_table" using assms url_table_ok(2) by simp
  have "takeWhile (\<lambda>x. x \<noteq> url_table ! n) url_table = take n url_table"
    using takeWhile_eq_take_P_nth [of n url_table "\<lambda>x. x \<noteq> url_table ! n"] n url_table_ok(1)
    by (simp add: nth_eq_iff_index_eq)
  then show ?thesis using n by (simp add: sextet_value_def sextet_def)
qed

lemma b64_char_url: "b64_url_char (b64_char x) = sextet (unat x mod 64)"
proof -
  have "x AND 0x3F = x AND mask 6" by (simp add: mask_eq_exp_minus_1)
  also have "\<dots> = take_bit 6 x" by (simp add: take_bit_eq_mask)
  finally have "unat (x AND 0x3F) = unat x mod 64"
    by (simp add: unsigned_take_bit_eq take_bit_eq_mod unat_mod_distrib)
  moreover have "unat x mod 64 < length b64_table" using url_table_ok(3) by simp
  ultimately show ?thesis
    unfolding b64_char_def sextet_def url_table_map [symmetric] by (simp add: nth_map)
qed

text \<open>The accumulator after three bytes of a group; only its low 24 bits matter.\<close>

lemma unat_shift_add:
  assumes "d < 256"
  shows "unat (push_bit 8 v + of_nat d :: 64 word) = (unat v * 256 + d) mod 2 ^ 64"
proof -
  have "push_bit 8 v = v * 256" by (simp add: push_bit_eq_mult)
  then have "push_bit 8 v + of_nat d = of_nat (unat v * 256 + d)" by simp
  then show ?thesis by (simp only: unat_of_nat) simp
qed


lemma div_mod_window:
  fixes x :: nat
  assumes "k + 6 \<le> 64"
  shows "(x mod 2 ^ 64) div 2 ^ k mod 64 = x div 2 ^ k mod 64"
proof -
  have e: "(2::nat) ^ 64 = 2 ^ k * 2 ^ (64 - k)" using assms by (simp only: flip: power_add) simp
  have "x mod (2 ^ k * 2 ^ (64 - k)) div 2 ^ k = x div 2 ^ k mod 2 ^ (64 - k)"
    by (simp add: mod_mult2_eq)
  moreover have "(2::nat) ^ 6 dvd 2 ^ (64 - k)" using assms by (intro le_imp_power_dvd) simp
  then have "(64::nat) dvd 2 ^ (64 - k)" by simp
  ultimately show ?thesis unfolding e by (simp only: mod_mod_cancel)
qed

lemma b64_char_window:
  "b64_url_char (b64_char (drop_bit k w)) = sextet (unat w div 2 ^ k mod 64)"
  by (simp only: b64_char_url unat_drop_bit_eq) (simp only: drop_bit_eq_div)

lemma b64_char_acc:
  assumes "d < 256" "k \<le> 58"
  shows "b64_url_char (b64_char (drop_bit k (push_bit 8 v + of_nat d))) = sextet ((unat v * 256 + d) div 2 ^ k mod 64)"
  using assms by (simp only: b64_char_window unat_shift_add div_mod_window)

lemma acc_windows:
  fixes x a :: nat
  assumes "a < 256"
  shows "(x * 256 + a) div 4 mod 64 = a div 4"
    "(x * 256 + a) div 16 mod 64 = x mod 4 * 16 + a div 16"
    "(x * 256 + a) div 64 mod 64 = x mod 16 * 4 + a div 64"
    "(x * 256 + a) mod 64 = a mod 64"
proof -
  have "x * 256 + a = a + x * 64 * 4" "x * 256 + a = a + x * 16 * 16" "x * 256 + a = a + x * 4 * 64" by simp_all
  then have d: "(x * 256 + a) div 4 = a div 4 + x * 64" "(x * 256 + a) div 16 = a div 16 + x * 16"
    "(x * 256 + a) div 64 = a div 64 + x * 4"
    by (simp_all only: div_mult_self1 zero_neq_numeral)
  have m: "x * 16 mod 64 = x mod 4 * 16" "x * 4 mod 64 = x mod 16 * 4"
    using mult_mod_left [of x 4 16] mult_mod_left [of x 16 4] by simp_all
  show "(x * 256 + a) div 4 mod 64 = a div 4" using assms by (simp add: d)
  have "(a div 16 + x * 16) mod 64 = (a div 16 + x mod 4 * 16) mod 64" by (metis m(1) mod_add_right_eq)
  moreover have "a div 16 + x mod 4 * 16 < 64"
  proof -
    have "a div 16 < 16" "x mod 4 < 4" using assms by auto
    then show ?thesis by linarith
  qed
  ultimately show "(x * 256 + a) div 16 mod 64 = x mod 4 * 16 + a div 16" by (simp add: d)
  have "(a div 64 + x * 4) mod 64 = (a div 64 + x mod 16 * 4) mod 64" by (metis m(2) mod_add_right_eq)
  moreover have "a div 64 + x mod 16 * 4 < 64"
  proof -
    have "a div 64 < 4" "x mod 16 < 16" using assms by auto
    then show ?thesis by linarith
  qed
  ultimately show "(x * 256 + a) div 64 mod 64 = x mod 16 * 4 + a div 64" by (simp add: d)
  show "(x * 256 + a) mod 64 = a mod 64" using mod_mult_self1 [of a "x * 4" 64] by (simp add: algebra_simps)
qed

lemma acc_residues:
  assumes "d < 256"
  shows "unat (push_bit 8 v + of_nat d :: 64 word) mod 4 = d mod 4"
    "unat (push_bit 8 v + of_nat d :: 64 word) mod 16 = d mod 16"
proof -
  have "(x * 256 + d) mod 2 ^ 64 mod 4 = d mod 4" "(x * 256 + d) mod 2 ^ 64 mod 16 = d mod 16" for x :: nat
  proof -
    have "(x * 256 + d) mod 2 ^ 64 mod 4 = (x * 256 + d) mod 4" "(x * 256 + d) mod 2 ^ 64 mod 16 = (x * 256 + d) mod 16"
      by (rule mod_mod_cancel, simp)+
    then show "(x * 256 + d) mod 2 ^ 64 mod 4 = d mod 4" "(x * 256 + d) mod 2 ^ 64 mod 16 = d mod 16"
      using mod_mult_self1 [of d "x * 64" 4] mod_mult_self1 [of d "x * 16" 16] by (simp_all add: algebra_simps)
  qed
  then show "unat (push_bit 8 v + of_nat d :: 64 word) mod 4 = d mod 4"
    "unat (push_bit 8 v + of_nat d :: 64 word) mod 16 = d mod 16"
    by (simp_all only: unat_shift_add [OF assms])
qed

lemma acc_sextets:
  assumes "d < 256"
  shows "b64_url_char (b64_char (drop_bit 2 (push_bit 8 v + of_nat d))) = sextet (d div 4)"
    "b64_url_char (b64_char (drop_bit 4 (push_bit 8 v + of_nat d))) = sextet (unat v mod 4 * 16 + d div 16)"
    "b64_url_char (b64_char (drop_bit 6 (push_bit 8 v + of_nat d))) = sextet (unat v mod 16 * 4 + d div 64)"
    "b64_url_char (b64_char (drop_bit 0 (push_bit 8 v + of_nat d))) = sextet (d mod 64)"
  using b64_char_acc [OF assms, of 2 v] b64_char_acc [OF assms, of 4 v] b64_char_acc [OF assms, of 6 v]
    b64_char_acc [OF assms, of 0 v] acc_windows [OF assms, of "unat v"] by simp_all

lemma flush_sextets:
  "b64_url_char (b64_char (drop_bit 4 (push_bit 8 v))) = sextet (unat v mod 4 * 16)"
  "b64_url_char (b64_char (drop_bit 6 (push_bit 8 v))) = sextet (unat v mod 16 * 4)"
  using acc_sextets(2,3) [of 0 v] by simp_all

lemma b64_emit_steps:
  "b64_emit w 2 out = (-4, out @ [b64_char (drop_bit 2 w)])"
  "b64_emit w 4 out = (-2, out @ [b64_char (drop_bit 4 w)])"
  "b64_emit w 6 out = (-6, out @ [b64_char (drop_bit 6 w), b64_char (drop_bit 0 w)])"
proof -
  have neg: "b64_emit w valb out = (valb, out)" if "valb < 0" for valb out
    using that by (subst b64_emit.simps) simp
  show "b64_emit w 2 out = (-4, out @ [b64_char (drop_bit 2 w)])"
    by (subst b64_emit.simps) (simp add: neg)
  show "b64_emit w 4 out = (-2, out @ [b64_char (drop_bit 4 w)])"
    by (subst b64_emit.simps) (simp add: neg)
  have "b64_emit w 0 out = (-6, out @ [b64_char (drop_bit 0 w)])" for out
    by (subst b64_emit.simps) (simp add: neg)
  then show "b64_emit w 6 out = (-6, out @ [b64_char (drop_bit 6 w), b64_char (drop_bit 0 w)])"
    by (subst b64_emit.simps) simp
qed


definition b64_finish :: "64 word \<times> int \<times> string \<Rightarrow> string" where
  "b64_finish = (\<lambda>(val, valb, out).
     map b64_url_char (if -6 < valb then out @ [b64_char (drop_bit (nat (valb + 8)) (push_bit 8 val))] else out))"

lemma b64_loop_rfc4648:
  "list_all (\<lambda>d. d < 256) data \<Longrightarrow>
   b64_finish (b64_loop data v (-6) out) = map b64_url_char out @ rfc4648 data"
proof (induction data arbitrary: v out rule: rfc4648.induct)
  case (1 a b c rest)
  then show ?case
    by (simp add: Let_def b64_emit_steps acc_sextets acc_residues del: drop_bit_0)
next
  case (2 a b)
  then show ?case
    by (simp add: Let_def b64_emit_steps acc_sextets acc_residues flush_sextets b64_finish_def)
next
  case (3 a)
  then show ?case
    by (simp add: Let_def b64_emit_steps acc_sextets acc_residues flush_sextets b64_finish_def)
qed (simp add: b64_finish_def)

lemma rfc4648_decode:
  "list_all (\<lambda>d. d < 256) data \<Longrightarrow> b64url_decode (rfc4648 data) = data"
proof (induction data rule: rfc4648.induct)
  case (1 a b c rest)
  then have "a div 4 < 64" "a mod 4 * 16 + b div 16 < 64" "b mod 16 * 4 + c div 64 < 64" "c mod 64 < 64"
    by (auto simp: list_all_iff)
  moreover have "b div 16 < 16" "c div 64 < 4" using 1 by auto
  moreover have "b div 16 * 16 + b mod 16 = b" "c div 64 * 64 + c mod 64 = c" by simp_all
  ultimately show ?case using 1 by (simp add: b64url_decode_def sextet_value_sextet)
next
  case (2 a b)
  then have "a div 4 < 64" "a mod 4 * 16 + b div 16 < 64" "b mod 16 * 4 < 64" "b div 16 < 16"
    by (auto simp: list_all_iff)
  moreover have "b div 16 * 16 + b mod 16 = b" by simp
  ultimately show ?case by (simp add: b64url_decode_def sextet_value_sextet)
next
  case (3 a)
  then show ?case by (simp add: b64url_decode_def sextet_value_sextet)
qed (simp add: b64url_decode_def)

text \<open>C34. b64url is the RFC 4648 URL encoding without padding, for inputs of any length although its
  64-bit accumulator wraps, and it loses nothing: decoding gives the input's bytes back.\<close>

theorem b64url_encodes:
  "b64url s = rfc4648 (map of_char s) \<and> b64url_decode (b64url s) = map of_char s"
proof -
  have bytes: "list_all (\<lambda>d. d < 256) (map of_char s :: nat list)"
    by (simp add: list_all_iff)
  have "b64url s = b64_finish (b64_loop (map of_char s) 0 (-6) [])"
    by (simp add: b64url_def b64url_bytes_def b64_finish_def Let_def split: prod.split)
  with b64_loop_rfc4648 [OF bytes, of 0 "[]"] rfc4648_decode [OF bytes] show ?thesis by simp
qed

end
