(* ===== verification/Api_Gateway.thy ===== *)
theory Api_Gateway
  imports Application Authenticator Base64_Url
begin

text \<open>
  api_gateway.cpp: the REST interface. A handler takes the parsed request and the state of the
  service and returns the response text and the new state; None is an exception that escapes the
  handler. The router that matches paths and the HTTP parser are dts-common's: registered_routes is
  the table the code hands to it. The record gateway_services holds what else the code takes from
  outside: the token validator, the system clock in milliseconds, OpenSSL's HMAC-SHA256, the health
  calculation of dts-common, the generated version texts and the text of the monitor page.
\<close>

record 'hs health_snapshot =
  hs_container :: 'hs
  hs_device_ready :: bool
  hs_adapter_connected :: bool
  hs_measurement_count :: nat
  hs_now :: string
  hs_version :: string
  hs_build :: string

record ('e, 'sc, 'hs) gateway_services =
  gs_tokens :: "'sc token_service"
  gs_system_ms :: "'e \<Rightarrow> int \<times> 'e"
  gs_hmac_sha256 :: "string \<Rightarrow> string \<Rightarrow> string"
  gs_calculate_health :: "bool \<Rightarrow> bool \<Rightarrow> bool \<Rightarrow> bool \<Rightarrow> 'hs"
  gs_health_json :: "'hs health_snapshot \<Rightarrow> json"
  gs_version :: string
  gs_build :: string
  gs_monitor_html :: string

record ('a, 'e) gateway =
  gw_sys :: "('a, 'e) rcc_system"
  gw_counter :: "64 word"

type_synonym ('a, 'e) handler = "http_request \<Rightarrow> ('a, 'e) gateway \<Rightarrow> (string \<times> ('a, 'e) gateway) option"

section \<open>Views of a radio\<close>

definition watts_to_dbm :: "double \<Rightarrow> double" where
  "watts_to_dbm watts = (if fle watts (Fin 0) then Fin (-100) else wattsToDbmRaw watts)"

fun channels_from :: "int \<Rightarrow> double list \<Rightarrow> json list" where
  "channels_from idx [] = []"
| "channels_from idx (f # fs) = JObject [(''index'', JInt idx), (''frequencyMhz'', JFloat f)] # channels_from (idx + 1) fs"

definition build_channels :: "double list \<Rightarrow> json" where
  "build_channels frequencies = JArray (channels_from 1 frequencies)"

definition optional_bool_json :: "bool option \<Rightarrow> json" where
  "optional_bool_json v = optional_json JBool v"

definition map_radio_status :: "string \<Rightarrow> string" where
  "map_radio_status internal =
     (if internal = ''ready'' \<or> internal = ''discovering'' \<or> internal = ''busy'' then ''online''
      else if internal = ''recovering'' then ''recovering'' else ''offline'')"

definition find_channel_index :: "capability_info \<Rightarrow> double \<Rightarrow> int option" where
  "find_channel_index caps frequencyMhz = find_index_from 0 (supported_frequencies_mhz caps) frequencyMhz"

definition power_json :: "radio_state \<Rightarrow> json" where
  "power_json st = optional_json (\<lambda>w. JFloat (fround (watts_to_dbm w))) (rs_power_watts st)"

definition build_radio_state :: "('a, 'e) radio_adapter_ops \<Rightarrow> 'a radio_descriptor \<Rightarrow> json" where
  "build_radio_state V d =
     (let (st, caps) = descriptor_view V d
      in JObject [(''powerDbm'', power_json st), (''frequencyMhz'', positive_json (current_frequency caps st))])"

definition build_radio_item :: "('a, 'e) radio_adapter_ops \<Rightarrow> 'a radio_descriptor \<Rightarrow> json" where
  "build_radio_item V d =
     (let (st, caps) = descriptor_view V d
      in JObject [(''id'', JString (rd_id d)), (''model'', JString (''Silvus-'' @ rd_id d)),
           (''status'', JString (map_radio_status (status_to_string (rs_status st)))),
           (''capabilities'', JObject
              [(''channels'', build_channels (supported_frequencies_mhz caps)),
               (''minPowerDbm'', JFloat (fround (watts_to_dbm (fst (power_range_watts caps))))),
               (''maxPowerDbm'', JFloat (fround (watts_to_dbm (snd (power_range_watts caps))))),
               (''powerRangeSource'', JString (power_range_source caps)),
               (''enableMaxPower'', optional_bool_json (enable_max_power caps)),
               (''manualPowerControl'', JBool (manual_power_control_available caps))]),
           (''state'', build_radio_state V d)])"

definition find_radio_item :: "('a, 'e) radio_adapter_ops \<Rightarrow> 'a radio_manager \<Rightarrow> string \<Rightarrow> json option" where
  "find_radio_item V m radioId = map_option (build_radio_item V) (find (\<lambda>d. rd_id d = radioId) (list_radios m))"

section \<open>HTTP responses\<close>

definition json_set :: "string \<Rightarrow> json \<Rightarrow> json \<Rightarrow> json option" where
  "json_set k v j =
     (case j of JObject kvs \<Rightarrow> Some (JObject (AList.update k v kvs)) | JNull \<Rightarrow> Some (JObject [(k, v)]) | _ \<Rightarrow> None)"

definition gateway_now_iso8601 :: "('e, 'sc, 'hs) gateway_services \<Rightarrow> 'e \<Rightarrow> string \<times> 'e" where
  "gateway_now_iso8601 S e = (let (ms, e) = gs_system_ms S e in (iso8601_utc ms, e))"

definition makeCorrelationId ::
  "('e, 'sc, 'hs) gateway_services \<Rightarrow> ('a, 'e) gateway \<Rightarrow> string \<times> ('a, 'e) gateway" where
  "makeCorrelationId S g =
     (let (now, e) = gs_system_ms S (sys_env (gw_sys g))
      in (''corr-'' @ show_int now @ ''-'' @ show_nat (unat (gw_counter g)),
          g\<lparr>gw_sys := (gw_sys g)\<lparr>sys_env := e\<rparr>, gw_counter := gw_counter g + 1\<rparr>))"

definition http_message :: "int \<Rightarrow> string \<Rightarrow> string \<Rightarrow> string \<Rightarrow> string" where
  "http_message status statusText contentType body =
     ''HTTP/1.1 '' @ show_int status @ '' '' @ statusText @ crlf @
     ''Content-Type: '' @ contentType @ crlf @
     ''Content-Length: '' @ show_nat (length body) @ crlf @
     ''Cache-Control: no-cache'' @ crlf @ crlf @ body"

definition jsonResponse ::
  "'e platform \<Rightarrow> ('e, 'sc, 'hs) gateway_services \<Rightarrow> int \<Rightarrow> string \<Rightarrow> json \<Rightarrow> ('a, 'e) gateway \<Rightarrow>
   (string \<times> ('a, 'e) gateway) option" where
  "jsonResponse P S status statusText body g =
     do { (body, g) \<leftarrow> (if json_contains body ''correlationId'' then Some (body, g)
            else let (cid, g) = makeCorrelationId S g
                 in map_option (\<lambda>b. (b, g)) (json_set ''correlationId'' (JString cid) body));
          Some (http_message status statusText ''application/json; charset=utf-8'' (json_dump P body), g) }"

definition ok_body :: "json \<Rightarrow> json" where
  "ok_body data = JObject ((''result'', JString ''ok'') # (if data = JNull then [] else [(''data'', data)]))"

definition okJson where
  "okJson P S data = jsonResponse P S 200 ''OK'' (ok_body data)"

definition err_body :: "string option \<Rightarrow> string \<Rightarrow> json option \<Rightarrow> json" where
  "err_body code message details =
     JObject ([(''result'', JString ''error'')] @ (case code of Some c \<Rightarrow> [(''code'', JString c)] | None \<Rightarrow> [])
       @ [(''message'', JString message)] @ (case details of Some d \<Rightarrow> [(''details'', d)] | None \<Rightarrow> []))"

definition details_json :: "'e platform \<Rightarrow> string option \<Rightarrow> json option" where
  "details_json P details =
     (case details of
        None \<Rightarrow> None
      | Some [] \<Rightarrow> None
      | Some text \<Rightarrow>
          (case json_parse P text of
             Some (JObject kvs) \<Rightarrow> Some (JObject kvs)
           | Some parsed \<Rightarrow> Some (JObject [(''vendorError'', parsed)])
           | None \<Rightarrow> Some (JObject [(''vendorError'', JString text)])))"

definition errMessage where
  "errMessage P S status statusText message = jsonResponse P S status statusText (err_body None message None)"

definition errJson where
  "errJson P S status statusText code message =
     jsonResponse P S status statusText (err_body (Some code) message None)"

definition errDetails where
  "errDetails P S status statusText code message details =
     jsonResponse P S status statusText (err_body (Some code) message (details_json P details))"

definition htmlResponse :: "string \<Rightarrow> string" where
  "htmlResponse html = http_message 200 ''OK'' ''text/html; charset=utf-8'' html"

fun commandCodeToSpec :: "Code \<Rightarrow> string" where
  "commandCodeToSpec Code.InvalidRange = ''INVALID_RANGE''"
| "commandCodeToSpec Code.Busy = ''BUSY''"
| "commandCodeToSpec Code.Unavailable = ''UNAVAILABLE''"
| "commandCodeToSpec Code.Unauthorized = ''UNAUTHORIZED''"
| "commandCodeToSpec Code.Ok = ''OK''"
| "commandCodeToSpec Code.InternalError = ''INTERNAL''"
| "commandCodeToSpec Code.NotFound = ''NOT_FOUND''"

fun commandCodeToHttp :: "Code \<Rightarrow> int" where
  "commandCodeToHttp Code.InvalidRange = 400"
| "commandCodeToHttp Code.Busy = 503"
| "commandCodeToHttp Code.Unavailable = 503"
| "commandCodeToHttp Code.Unauthorized = 401"
| "commandCodeToHttp Code.NotFound = 404"
| "commandCodeToHttp Code.Ok = 200"
| "commandCodeToHttp Code.InternalError = 500"

section \<open>Reading handlers\<close>

definition bad_request where
  "bad_request P S message = errJson P S 400 ''Bad Request'' ''BAD_REQUEST'' message"

definition out_of_range where
  "out_of_range P S message = errJson P S 400 ''Bad Request'' ''INVALID_RANGE'' message"

definition not_found where
  "not_found P S message = errJson P S 404 ''Not Found'' ''NOT_FOUND'' message"

definition not_allowed where
  "not_allowed P S message = errMessage P S 405 ''Method Not Allowed'' message"

definition radio_manager_of :: "('a, 'e) gateway \<Rightarrow> 'a radio_manager" where
  "radio_manager_of g = sys_radios (gw_sys g)"

definition buildRadioListResponse where
  "buildRadioListResponse V P S g =
     okJson P S (JObject [(''activeRadioId'', optional_json JString (active_radio_id (radio_manager_of g))),
       (''items'', JArray (map (build_radio_item V) (list_radios (radio_manager_of g))))]) g"

definition handleGetRadio where
  "handleGetRadio V P S radioId g =
     (case find_radio_item V (radio_manager_of g) radioId of
        None \<Rightarrow> not_found P S ''Radio not found'' g
      | Some item \<Rightarrow> okJson P S item g)"

definition handleGetRadioPower where
  "handleGetRadioPower V P S radioId g =
     (case get_adapter (radio_manager_of g) radioId of
        None \<Rightarrow> not_found P S ''Radio not found'' g
      | Some a \<Rightarrow> okJson P S (JObject [(''powerDbm'', power_json (op_state V a))]) g)"

definition handleGetRadioChannel where
  "handleGetRadioChannel V P S radioId g =
     (case get_adapter (radio_manager_of g) radioId of
        None \<Rightarrow> not_found P S ''Radio not found'' g
      | Some a \<Rightarrow> okJson P S (JObject
          [(''channelIndex'', optional_json JInt (rs_channel_index (op_state V a))),
           (''frequencyMhz'', positive_json (current_frequency (op_capabilities V a) (op_state V a)))]) g)"

section \<open>Command handlers\<close>

definition answer_command where
  "answer_command P S r ok_data g =
     (if cr_code r = Code.Ok then okJson P S ok_data g
      else errDetails P S (commandCodeToHttp (cr_code r)) ''Error'' (commandCodeToSpec (cr_code r))
             (cr_message r) (cr_details r) g)"

text \<open>body.value("id", ""): an absent key gives the empty default; a body that is not an object and an
  id that is not a string throw, outside the handler's only try block.\<close>

definition select_id :: "json \<Rightarrow> string option" where
  "select_id body =
     (case body of
        JObject kvs \<Rightarrow> (case map_of kvs ''id'' of None \<Rightarrow> Some [] | Some (JString s) \<Rightarrow> Some s | Some _ \<Rightarrow> None)
      | _ \<Rightarrow> None)"

definition handleSelect ::
  "'e platform \<Rightarrow> ('e, 'sc, 'hs) gateway_services \<Rightarrow> ('a, 'e) handler" where
  "handleSelect P S req g =
     (case json_parse P (req_body req) of
        None \<Rightarrow> bad_request P S ''Invalid JSON body'' g
      | Some body \<Rightarrow>
          do { radioId \<leftarrow> select_id body;
               if radioId = [] then bad_request P S ''Missing id'' g
               else (let (r, s) = selectRadio radioId (gw_sys g)
                     in answer_command P S r (JObject [(''activeRadioId'', JString radioId)]) (g\<lparr>gw_sys := s\<rparr>)) })"

definition handleSetPower ::
  "('a, 'e) radio_adapter_ops \<Rightarrow> 'e platform \<Rightarrow> ('e, 'sc, 'hs) gateway_services \<Rightarrow> string \<Rightarrow> ('a, 'e) handler" where
  "handleSetPower V P S radioId req g =
     (case json_parse P (req_body req) of
        None \<Rightarrow> bad_request P S ''Invalid JSON body'' g
      | Some body \<Rightarrow>
          (case Option.bind (json_find ''powerDbm'' body) json_number of
             None \<Rightarrow> bad_request P S ''Missing or invalid powerDbm'' g
           | Some dbm \<Rightarrow>
               if flt dbm (Fin 0) \<or> flt (Fin 39) dbm
               then out_of_range P S ''Power must be between 0 and 39 dBm'' g
               else do {
                 (r, s) \<leftarrow> setPower V P radioId (fpow10 (dbm / Fin 10) / Fin 1000) (gw_sys g);
                 answer_command P S r (JObject [(''powerDbm'', JFloat dbm)]) (g\<lparr>gw_sys := s\<rparr>)
               }))"

definition requested_index :: "json \<Rightarrow> int option" where
  "requested_index body = (case json_find ''channelIndex'' body of Some (JInt i) \<Rightarrow> Some (int32_of i) | _ \<Rightarrow> None)"

definition requested_frequency :: "json \<Rightarrow> double option" where
  "requested_frequency body = Option.bind (json_find ''frequencyMhz'' body) json_number"

text \<open>The channel a request names: an index, a frequency, or both when they agree; Inl is the message of
  the refusal.\<close>

definition resolve_channel :: "capability_info \<Rightarrow> int option \<Rightarrow> double option \<Rightarrow> (string + int \<times> double) option" where
  "resolve_channel caps index frequency =
     do { by_index \<leftarrow> (case index of
            None \<Rightarrow> Some (Inr (-1, Fin 0))
          | Some channelIndex \<Rightarrow>
              if channelIndex < 1 \<or> int (length (supported_frequencies_mhz caps)) < channelIndex
              then Some (Inl ''channelIndex is outside supported range'')
              else map_option (\<lambda>f. Inr (channelIndex, f)) (vector_at (supported_frequencies_mhz caps) (channelIndex - 1)));
          Some (case by_index of
            Inl message \<Rightarrow> Inl message
          | Inr (channelIndex, f) \<Rightarrow>
              (case frequency of
                 None \<Rightarrow> Inr (channelIndex, f)
               | Some frequencyMhz \<Rightarrow>
                   (case find_channel_index caps frequencyMhz of
                      None \<Rightarrow> Inl ''frequencyMhz is not supported''
                    | Some maybeIndex \<Rightarrow>
                        if index \<noteq> None \<and> channelIndex \<noteq> maybeIndex
                        then Inl ''channelIndex and frequencyMhz do not match''
                        else Inr (maybeIndex, frequencyMhz)))) }"

definition handleSetChannel ::
  "('a, 'e) radio_adapter_ops \<Rightarrow> 'e platform \<Rightarrow> ('e, 'sc, 'hs) gateway_services \<Rightarrow> string \<Rightarrow> ('a, 'e) handler" where
  "handleSetChannel V P S radioId req g =
     (case json_parse P (req_body req) of
        None \<Rightarrow> bad_request P S ''Invalid JSON body'' g
      | Some body \<Rightarrow>
          if requested_index body = None \<and> requested_frequency body = None
          then bad_request P S ''Missing channelIndex or frequencyMhz'' g
          else (case get_adapter (radio_manager_of g) radioId of
             None \<Rightarrow> not_found P S ''Radio not found'' g
           | Some a \<Rightarrow>
               do { target \<leftarrow> resolve_channel (op_capabilities V a) (requested_index body) (requested_frequency body);
                    case target of
                      Inl message \<Rightarrow> out_of_range P S message g
                    | Inr (channelIndex, frequencyMhz) \<Rightarrow>
                        do { (r, s) \<leftarrow> setChannel V P radioId channelIndex (gw_sys g);
                             answer_command P S r (JObject [(''channelIndex'', JInt channelIndex),
                               (''frequencyMhz'', positive_json frequencyMhz)]) (g\<lparr>gw_sys := s\<rparr>) } }))"

section \<open>The development token\<close>

definition makeDevToken ::
  "'e platform \<Rightarrow> ('e, 'sc, 'hs) gateway_services \<Rightarrow> string \<Rightarrow> ('a, 'e) gateway \<Rightarrow> string \<times> ('a, 'e) gateway" where
  "makeDevToken P S secret g =
     (let (now, e) = gs_system_ms S (sys_env (gw_sys g));
          iat = now div 1000;
          exp = iat + 86400 * 365;
          hdr = b64url (json_dump P (JObject [(''alg'', JString ''HS256''), (''typ'', JString ''JWT'')]));
          pay = b64url (json_dump P (JObject [(''sub'', JString ''dev-monitor''), (''scope'', JString ''operator''),
                  (''iat'', JInt iat), (''exp'', JInt exp)]));
          msg = hdr @ ''.'' @ pay
      in (msg @ ''.'' @ b64url (gs_hmac_sha256 S secret msg), g\<lparr>gw_sys := (gw_sys g)\<lparr>sys_env := e\<rparr>\<rparr>))"

section \<open>Routes\<close>

definition authErrorResponse where
  "authErrorResponse P S ar =
     errJson P S (http_status ar) (if http_status ar = 403 then ''Forbidden'' else ''Unauthorized'')
       (error_code ar) (auth_message ar)"

definition with_auth ::
  "'e platform \<Rightarrow> ('e, 'sc, 'hs) gateway_services \<Rightarrow> security_config \<Rightarrow> AccessLevel \<Rightarrow>
   ('a, 'e) handler \<Rightarrow> ('a, 'e) handler" where
  "with_auth P S cfg level handler req g =
     (let ar = authorize (gs_tokens S) (make_authenticator cfg) req level
      in if \<not> allowed ar then authErrorResponse P S ar g else handler req g)"

text \<open>The dash of the source's messages, in UTF-8.\<close>

definition em_dash :: string where
  "em_dash = [CHR 0xE2, CHR 0x80, CHR 0x94]"

definition handleDevToken ::
  "'e platform \<Rightarrow> ('e, 'sc, 'hs) gateway_services \<Rightarrow> security_config \<Rightarrow> ('a, 'e) handler" where
  "handleDevToken P S cfg req g =
     (if req_method req \<noteq> ''GET'' then not_allowed P S ''Use GET'' g
      else if token_secret cfg = [] \<and> \<not> allow_unauthenticated_dev_access cfg
      then errMessage P S 503 ''Service Unavailable'' (''token_secret not configured '' @ em_dash @
        '' set it in config.yaml or enable security.allow_unauthenticated_dev_access for bench use'') g
      else (let (token, g) = makeDevToken P S (token_secret cfg) g
            in okJson P S (JObject [(''token'', JString token), (''scope'', JString ''operator''),
                 (''note'', JString (''dev/test token '' @ em_dash @ '' not for production''))]) g))"

definition handleHealth ::
  "('a, 'e) radio_adapter_ops \<Rightarrow> 'e platform \<Rightarrow> ('e, 'sc, 'hs) gateway_services \<Rightarrow> ('a, 'e) handler" where
  "handleHealth V P S req g =
     (if req_method req \<noteq> ''GET'' then not_allowed P S ''Use GET'' g
      else (let radios = list_radios (radio_manager_of g);
                anyReady = list_ex (\<lambda>d. rs_status (fst (descriptor_view V d)) = RadioStatus.Ready) radios;
                adapterConnected = list_ex (\<lambda>d. rs_status (fst (descriptor_view V d)) \<noteq> RadioStatus.Offline) radios;
                (now, e) = gateway_now_iso8601 S (sys_env (gw_sys g));
                snapshot = \<lparr>hs_container = gs_calculate_health S anyReady True True adapterConnected,
                  hs_device_ready = anyReady, hs_adapter_connected = adapterConnected,
                  hs_measurement_count = length radios, hs_now = now,
                  hs_version = gs_version S, hs_build = gs_build S\<rparr>
            in jsonResponse P S 200 ''OK'' (gs_health_json S snapshot) (g\<lparr>gw_sys := (gw_sys g)\<lparr>sys_env := e\<rparr>\<rparr>)))"

definition handleCapabilities ::
  "'e platform \<Rightarrow> ('e, 'sc, 'hs) gateway_services \<Rightarrow> security_config \<Rightarrow> ('a, 'e) handler" where
  "handleCapabilities P S cfg req g =
     (if req_method req \<noteq> ''GET'' then not_allowed P S ''Use GET'' g
      else with_auth P S cfg AccessLevel.Telemetry (\<lambda>req. okJson P S (JObject
        [(''telemetry'', JArray [JString ''sse'']), (''commands'', JArray [JString ''http-json'']),
         (''version'', JString ''1.0.0'')])) req g)"

definition handleRadios ::
  "('a, 'e) radio_adapter_ops \<Rightarrow> 'e platform \<Rightarrow> ('e, 'sc, 'hs) gateway_services \<Rightarrow> security_config \<Rightarrow> ('a, 'e) handler" where
  "handleRadios V P S cfg req g =
     (if req_method req \<noteq> ''GET'' then not_allowed P S ''Use GET'' g
      else with_auth P S cfg AccessLevel.Telemetry (\<lambda>req. buildRadioListResponse V P S) req g)"

definition handleSelectRoute ::
  "'e platform \<Rightarrow> ('e, 'sc, 'hs) gateway_services \<Rightarrow> security_config \<Rightarrow> ('a, 'e) handler" where
  "handleSelectRoute P S cfg req g =
     (if req_method req \<noteq> ''POST'' then not_allowed P S ''Use POST'' g
      else with_auth P S cfg AccessLevel.Control (handleSelect P S) req g)"

text \<open>std::string::substr throws when the position is past the end.\<close>

definition path_suffix :: "string \<Rightarrow> string option" where
  "path_suffix path = (if length ''/api/v1/radios/'' \<le> length path then Some (drop (length ''/api/v1/radios/'') path) else None)"

definition handleRadiosPrefix ::
  "('a, 'e) radio_adapter_ops \<Rightarrow> 'e platform \<Rightarrow> ('e, 'sc, 'hs) gateway_services \<Rightarrow> security_config \<Rightarrow> ('a, 'e) handler" where
  "handleRadiosPrefix V P S cfg req g =
     do { suffix \<leftarrow> path_suffix (req_path req);
          if suffix = [] then not_found P S ''Invalid radio path'' g
          else (case str_find CHR ''/'' suffix of
            None \<Rightarrow>
              with_auth P S cfg AccessLevel.Telemetry (\<lambda>req g.
                if req_method req \<noteq> ''GET'' then not_allowed P S ''Use GET'' g
                else handleGetRadio V P S suffix g) req g
          | Some slashPos \<Rightarrow>
              (let radioId = take slashPos suffix; sub = drop (slashPos + 1) suffix
               in if sub \<noteq> ''power'' \<and> sub \<noteq> ''channel''
                  then not_found P S (''Unknown sub-resource: '' @ sub) g
                  else with_auth P S cfg
                    (if req_method req = ''GET'' then AccessLevel.Telemetry else AccessLevel.Control)
                    (\<lambda>req g.
                      if sub = ''power'' then
                        (if req_method req = ''GET'' then handleGetRadioPower V P S radioId g
                         else if req_method req \<noteq> ''POST'' then not_allowed P S ''Use POST'' g
                         else handleSetPower V P S radioId req g)
                      else
                        (if req_method req = ''GET'' then handleGetRadioChannel V P S radioId g
                         else if req_method req \<noteq> ''POST'' then not_allowed P S ''Use POST'' g
                         else handleSetChannel V P S radioId req g)) req g)) }"

datatype route = Exact string | Prefix string

definition registered_routes ::
  "('a, 'e) radio_adapter_ops \<Rightarrow> 'e platform \<Rightarrow> ('e, 'sc, 'hs) gateway_services \<Rightarrow> security_config \<Rightarrow>
   (route \<times> ('a, 'e) handler) list" where
  "registered_routes V P S cfg =
     [(Exact ''/monitor'', \<lambda>req g. Some (htmlResponse (gs_monitor_html S), g)),
      (Exact ''/api/v1/dev-token'', handleDevToken P S cfg),
      (Exact ''/api/v1/health'', handleHealth V P S),
      (Exact ''/api/v1/capabilities'', handleCapabilities P S cfg),
      (Exact ''/api/v1/radios'', handleRadios V P S cfg),
      (Exact ''/api/v1/radios/select'', handleSelectRoute P S cfg),
      (Prefix ''/api/v1/radios/'', handleRadiosPrefix V P S cfg)]"

section \<open>What a response leaves alone\<close>

text \<open>Everything but the outside world: radios, event stream and operations log.\<close>

definition same_service :: "('a, 'e) gateway \<Rightarrow> ('a, 'e) gateway \<Rightarrow> bool" where
  "same_service g g' \<longleftrightarrow> sys_radios (gw_sys g') = sys_radios (gw_sys g) \<and> sys_hub (gw_sys g') = sys_hub (gw_sys g) \<and>
     sys_audit (gw_sys g') = sys_audit (gw_sys g)"

lemma same_service_refl [simp]: "same_service g g"
  by (simp add: same_service_def)

lemma jsonResponse_same: "jsonResponse P S st t b g = Some (resp, g') \<Longrightarrow> same_service g g'"
  by (auto simp: jsonResponse_def makeCorrelationId_def same_service_def Let_def bind_eq_Some_conv
      split: prod.splits if_splits)

lemma jsonResponse_object: "jsonResponse P S st t (JObject kvs) g \<noteq> None"
  by (auto simp: jsonResponse_def json_set_def Let_def split: prod.splits)

lemmas response_defs = okJson_def errMessage_def errJson_def errDetails_def bad_request_def out_of_range_def
  not_found_def not_allowed_def ok_body_def err_body_def authErrorResponse_def

lemma responses_same:
  "okJson P S d g = Some (resp, g') \<Longrightarrow> same_service g g'"
  "errMessage P S st t m g = Some (resp, g') \<Longrightarrow> same_service g g'"
  "errJson P S st t c m g = Some (resp, g') \<Longrightarrow> same_service g g'"
  "errDetails P S st t c m ds g = Some (resp, g') \<Longrightarrow> same_service g g'"
  "bad_request P S m g = Some (resp, g') \<Longrightarrow> same_service g g'"
  "out_of_range P S m g = Some (resp, g') \<Longrightarrow> same_service g g'"
  "not_found P S m g = Some (resp, g') \<Longrightarrow> same_service g g'"
  "not_allowed P S m g = Some (resp, g') \<Longrightarrow> same_service g g'"
  "authErrorResponse P S ar g = Some (resp, g') \<Longrightarrow> same_service g g'"
  by (auto simp: okJson_def errMessage_def errJson_def errDetails_def bad_request_def out_of_range_def
      not_found_def not_allowed_def authErrorResponse_def dest: jsonResponse_same)

lemma responses_defined [simp]:
  "okJson P S d g \<noteq> None" "errMessage P S st t m g \<noteq> None" "errJson P S st t c m g \<noteq> None"
  "errDetails P S st t c m ds g \<noteq> None" "bad_request P S m g \<noteq> None" "out_of_range P S m g \<noteq> None"
  "not_found P S m g \<noteq> None" "not_allowed P S m g \<noteq> None" "authErrorResponse P S ar g \<noteq> None"
  unfolding response_defs by (simp_all add: jsonResponse_object del: not_None_eq)


section \<open>Every request runs at most one command\<close>

definition runs_command :: "('a, 'e) radio_adapter_ops \<Rightarrow> 'e platform \<Rightarrow> ('a, 'e) gateway \<Rightarrow> ('a, 'e) gateway \<Rightarrow> bool" where
  "runs_command V P g g' \<longleftrightarrow> (\<exists>c r s. execute V P c (gw_sys g) = Some (r, s) \<and> same_service (g\<lparr>gw_sys := s\<rparr>) g')"

lemma answer_command_same: "answer_command P S r d g = Some (resp, g') \<Longrightarrow> same_service g g'"
  by (auto simp: answer_command_def dest: responses_same split: if_splits)

lemma runs_commandI:
  "execute V P c (gw_sys g) = Some (r, s) \<Longrightarrow> answer_command P S r d (g\<lparr>gw_sys := s\<rparr>) = Some (resp, g') \<Longrightarrow> runs_command V P g g'"
  unfolding runs_command_def using answer_command_same by blast

lemma handleSelect_runs:
  assumes "handleSelect P S req g = Some (resp, g')"
  shows "same_service g g' \<or> runs_command V P g g'"
proof (cases "json_parse P (req_body req)")
  case None
  then show ?thesis using assms by (auto simp: handleSelect_def dest: responses_same)
next
  case (Some body)
  with assms obtain k where k: "select_id body = Some k" by (auto simp: handleSelect_def bind_eq_Some_conv)
  show ?thesis
  proof (cases "k = []")
    case True
    with assms Some k show ?thesis by (auto simp: handleSelect_def dest: responses_same)
  next
    case False
    obtain r s where sel: "selectRadio k (gw_sys g) = (r, s)" by fastforce
    with assms Some k False have "answer_command P S r (JObject [(''activeRadioId'', JString k)]) (g\<lparr>gw_sys := s\<rparr>) = Some (resp, g')"
      by (simp add: handleSelect_def)
    then show ?thesis using runs_commandI [of V P "SelectRadio k" g r s] sel by simp blast
  qed
qed

lemma handleSetPower_runs:
  assumes "handleSetPower V P S k req g = Some (resp, g')"
  shows "same_service g g' \<or> runs_command V P g g'"
proof (cases "json_parse P (req_body req)")
  case None
  then show ?thesis using assms by (auto simp: handleSetPower_def dest: responses_same)
next
  case body: (Some body)
  show ?thesis
  proof (cases "Option.bind (json_find ''powerDbm'' body) json_number")
    case None
    then show ?thesis using assms body by (auto simp: handleSetPower_def dest: responses_same)
  next
    case (Some dbm)
    note b = body Some
    show ?thesis
    proof (cases "flt dbm (Fin 0) \<or> flt (Fin 39) dbm")
      case True
      with assms b show ?thesis by (auto simp: handleSetPower_def dest: responses_same)
    next
      case False
    with assms b obtain r s where "setPower V P k (fpow10 (dbm / Fin 10) / Fin 1000) (gw_sys g) = Some (r, s)"
      "answer_command P S r (JObject [(''powerDbm'', JFloat dbm)]) (g\<lparr>gw_sys := s\<rparr>) = Some (resp, g')"
      by (auto simp: handleSetPower_def bind_eq_Some_conv)
    then show ?thesis
      using runs_commandI [of V P "SetPower k (fpow10 (dbm / Fin 10) / Fin 1000)" g r s] by simp blast
    qed
  qed
qed

lemma handleSetChannel_runs:
  assumes "handleSetChannel V P S k req g = Some (resp, g')"
  shows "same_service g g' \<or> runs_command V P g g'"
proof (cases "json_parse P (req_body req)")
  case None
  then show ?thesis using assms by (auto simp: handleSetChannel_def dest: responses_same)
next
  case (Some body)
  show ?thesis
  proof (cases "get_adapter (radio_manager_of g) k")
    case None
    then show ?thesis using assms Some by (auto simp: handleSetChannel_def dest: responses_same split: if_splits)
  next
    case a: (Some a)
    show ?thesis
    proof (cases "requested_index body = None \<and> requested_frequency body = None")
      case True
      then show ?thesis using assms Some a by (auto simp: handleSetChannel_def dest: responses_same)
    next
      case False
      with assms Some a obtain target where
        target: "resolve_channel (op_capabilities V a) (requested_index body) (requested_frequency body) = Some target"
        by (auto simp: handleSetChannel_def bind_eq_Some_conv split: if_splits)
      show ?thesis
      proof (cases target)
        case (Inl m)
        with assms Some a False target show ?thesis
          by (auto simp: handleSetChannel_def dest: responses_same split: if_splits)
      next
        case (Inr p)
        obtain i f where p: "p = (i, f)" by (cases p)
        from assms Some a False target Inr p obtain r s d where "setChannel V P k i (gw_sys g) = Some (r, s)"
          "answer_command P S r d (g\<lparr>gw_sys := s\<rparr>) = Some (resp, g')"
          by (auto simp: handleSetChannel_def bind_eq_Some_conv split: if_splits)
        then show ?thesis using runs_commandI [of V P "SetChannel k i" g r s] by simp blast
      qed
    qed
  qed
qed

lemma reading_handlers_same:
  "buildRadioListResponse V P S g = Some (resp, g') \<Longrightarrow> same_service g g'"
  "handleGetRadio V P S k g = Some (resp, g') \<Longrightarrow> same_service g g'"
  "handleGetRadioPower V P S k g = Some (resp, g') \<Longrightarrow> same_service g g'"
  "handleGetRadioChannel V P S k g = Some (resp, g') \<Longrightarrow> same_service g g'"
  by (auto simp: buildRadioListResponse_def handleGetRadio_def handleGetRadioPower_def handleGetRadioChannel_def
      dest: responses_same split: option.splits)

lemma with_auth_cases:
  assumes "with_auth P S cfg level h req g = Some (resp, g')"
  obtains "same_service g g'" | "policy (gs_tokens S) cfg req level" "h req g = Some (resp, g')"
  using assms by (auto simp: with_auth_def Let_def authorize_allowed dest: responses_same split: if_splits)

lemma same_service_env: "same_service (g\<lparr>gw_sys := (gw_sys g)\<lparr>sys_env := e\<rparr>\<rparr>) g' = same_service g g'"
  by (simp add: same_service_def)

lemma makeDevToken_same: "makeDevToken P S secret g = (t, g') \<Longrightarrow> same_service g' g'' \<Longrightarrow> same_service g g''"
  by (auto simp: makeDevToken_def Let_def same_service_env split: prod.splits)

lemma handleRadiosPrefix_runs:
  assumes "handleRadiosPrefix V P S cfg req g = Some (resp, g')"
  shows "same_service g g' \<or> req_method req = ''POST'' \<and> policy (gs_tokens S) cfg req AccessLevel.Control \<and> runs_command V P g g'"
  using assms
  by (auto simp: handleRadiosPrefix_def bind_eq_Some_conv Let_def elim!: with_auth_cases
      dest: responses_same reading_handlers_same handleSetPower_runs handleSetChannel_runs
      split: if_splits option.splits)

lemma handleDevToken_same: "handleDevToken P S cfg req g = Some (resp, g') \<Longrightarrow> same_service g g'"
  by (auto simp: handleDevToken_def Let_def dest: responses_same makeDevToken_same split: if_splits prod.splits)

lemma handleHealth_same: "handleHealth V P S req g = Some (resp, g') \<Longrightarrow> same_service g g'"
  by (auto simp: handleHealth_def Let_def same_service_env dest: responses_same dest!: jsonResponse_same
      split: if_splits prod.splits)

lemma handleCapabilities_same: "handleCapabilities P S cfg req g = Some (resp, g') \<Longrightarrow> same_service g g'"
  by (auto simp: handleCapabilities_def dest: responses_same elim!: with_auth_cases split: if_splits)

lemma handleRadios_same: "handleRadios V P S cfg req g = Some (resp, g') \<Longrightarrow> same_service g g'"
  by (auto simp: handleRadios_def dest: responses_same reading_handlers_same elim!: with_auth_cases split: if_splits)

lemma handleSelectRoute_runs:
  "handleSelectRoute P S cfg req g = Some (resp, g') \<Longrightarrow> same_service g g' \<or>
     req_method req = ''POST'' \<and> policy (gs_tokens S) cfg req AccessLevel.Control \<and> runs_command V P g g'"
  by (auto simp: handleSelectRoute_def dest: responses_same handleSelect_runs elim!: with_auth_cases split: if_splits)

lemma registered_handler_runs:
  assumes "(rt, h) \<in> set (registered_routes V P S cfg)" "h req g = Some (resp, g')"
  shows "same_service g g' \<or> req_method req = ''POST'' \<and> policy (gs_tokens S) cfg req AccessLevel.Control \<and> runs_command V P g g'"
  using assms handleDevToken_same handleHealth_same handleCapabilities_same handleRadios_same
    handleSelectRoute_runs handleRadiosPrefix_runs
  by (fastforce simp: registered_routes_def)

section \<open>Every request is answered\<close>

definition accepted_body :: "'e platform \<Rightarrow> route \<Rightarrow> http_request \<Rightarrow> bool" where
  "accepted_body P rt req \<longleftrightarrow>
     (case json_parse P (req_body req) of None \<Rightarrow> True
      | Some body \<Rightarrow> json_find ''powerDbm'' body \<noteq> Some (JFloat NaN) \<and>
          (rt = Exact ''/api/v1/radios/select'' \<longrightarrow> select_id body \<noteq> None))"

definition route_matches :: "route \<Rightarrow> string \<Rightarrow> bool" where
  "route_matches rt path = (case rt of Exact p \<Rightarrow> path = p | Prefix p \<Rightarrow> prefix p path)"

lemma answer_command_defined [simp]: "answer_command P S r d g \<noteq> None"
  by (simp add: answer_command_def del: not_None_eq)

lemma with_auth_defined: "(policy (gs_tokens S) cfg req level \<Longrightarrow> h req g \<noteq> None) \<Longrightarrow> with_auth P S cfg level h req g \<noteq> None"
  by (simp add: with_auth_def Let_def authorize_allowed del: not_None_eq)

lemma resolve_channel_defined: "resolve_channel caps i f \<noteq> None"
  by (auto simp: resolve_channel_def vector_at_def split: option.split)

lemma reading_handlers_defined [simp]:
  "buildRadioListResponse V P S g \<noteq> None" "handleGetRadio V P S k g \<noteq> None"
  "handleGetRadioPower V P S k g \<noteq> None" "handleGetRadioChannel V P S k g \<noteq> None"
  by (simp_all add: buildRadioListResponse_def handleGetRadio_def handleGetRadioPower_def
      handleGetRadioChannel_def del: not_None_eq split: option.split)

lemma json_number_not_NaN: "json_number j = Some v \<Longrightarrow> j \<noteq> JFloat NaN \<Longrightarrow> v \<noteq> NaN"
  by (cases j) (auto simp: json_number_def)

lemma handleSelect_defined:
  "accepted_body P (Exact ''/api/v1/radios/select'') req \<Longrightarrow> handleSelect P S req g \<noteq> None"
  by (auto simp: accepted_body_def handleSelect_def bind_eq_None_conv simp del: not_None_eq
      split: option.splits prod.splits)

context radio_adapter
begin

lemma handleSetPower_defined:
  assumes "manager_inv ops ainv (sys_radios (gw_sys g))" "accepted_body P rt req"
  shows "handleSetPower ops P S k req g \<noteq> None"
proof (cases "Option.bind (json_parse P (req_body req)) (json_find ''powerDbm'')")
  case None
  then show ?thesis by (cases "json_parse P (req_body req)") (auto simp: handleSetPower_def simp del: not_None_eq)
next
  case (Some j)
  then obtain body where body: "json_parse P (req_body req) = Some body" "json_find ''powerDbm'' body = Some j"
    by (auto simp: bind_eq_Some_conv)
  show ?thesis
  proof (cases "json_number j")
    case None
    then show ?thesis using body by (auto simp: handleSetPower_def simp del: not_None_eq)
  next
    case v: (Some dbm)
    have "dbm \<noteq> NaN"
      using json_number_not_NaN [OF v] assms(2) body by (auto simp: accepted_body_def)
    then have "well_formed (SetPower k (fpow10 (dbm / Fin 10) / Fin 1000))"
      by (simp add: fdiv_not_NaN fpow10_not_NaN)
    from execute_defined [OF assms(1) this, where P = P] obtain r s where
      "setPower ops P k (fpow10 (dbm / Fin 10) / Fin 1000) (gw_sys g) = Some (r, s)" by auto
    then show ?thesis using body v by (simp add: handleSetPower_def del: not_None_eq)
  qed
qed

lemma handleSetChannel_defined:
  assumes "manager_inv ops ainv (sys_radios (gw_sys g))"
  shows "handleSetChannel ops P S k req g \<noteq> None"
proof -
  have "setChannel ops P k i (gw_sys g) \<noteq> None" for i
    using execute_defined [OF assms, of "SetChannel k i"] by (simp del: not_None_eq)
  then show ?thesis
    using resolve_channel_defined
    by (auto simp: handleSetChannel_def bind_eq_None_conv iff del: not_None_eq split: option.splits sum.splits prod.splits)
qed

lemma registered_handler_defined:
  assumes "manager_inv ops ainv (sys_radios (gw_sys g))" "(rt, h) \<in> set (registered_routes ops P S cfg)"
    and "route_matches rt (req_path req)" "accepted_body P rt req" "\<And>x. \<exists>kvs. gs_health_json S x = JObject kvs"
  shows "h req g \<noteq> None"
proof -
  have health: "jsonResponse P S st t (gs_health_json S x) g' \<noteq> None" for st t x and g' :: "('a, 'e) gateway"
    using assms(5) [of x] jsonResponse_object by metis
  consider "h = (\<lambda>req g. Some (htmlResponse (gs_monitor_html S), g))" | "h = handleDevToken P S cfg"
    | "h = handleHealth ops P S" | "h = handleCapabilities P S cfg" | "h = handleRadios ops P S cfg"
    | "h = handleSelectRoute P S cfg" "rt = Exact ''/api/v1/radios/select''"
    | "h = handleRadiosPrefix ops P S cfg" "rt = Prefix ''/api/v1/radios/''"
    using assms(2) by (auto simp: registered_routes_def)
  then show ?thesis
  proof cases
    case 6
    with assms(4) show ?thesis
      by (simp add: handleSelectRoute_def with_auth_defined handleSelect_defined del: not_None_eq)
  next
    case 7
    obtain suffix where "path_suffix (req_path req) = Some suffix"
      using assms(3) 7(2) by (auto simp: route_matches_def path_suffix_def prefix_def)
    with 7(1) show ?thesis
      by (cases "str_find CHR ''/'' suffix")
        (auto simp: handleRadiosPrefix_def Let_def handleSetPower_defined [OF assms(1,4)]
          handleSetChannel_defined [OF assms(1)] simp del: str_find_None iff del: not_None_eq
          intro!: with_auth_defined split: if_splits)
  qed (simp_all add: handleDevToken_def handleHealth_def handleCapabilities_def handleRadios_def Let_def
      with_auth_defined health del: not_None_eq split: prod.split)
qed

lemma handler_keeps_inv:
  assumes "manager_inv ops ainv (sys_radios (gw_sys g))" "same_service g g' \<or> runs_command ops P g g'"
  shows "manager_inv ops ainv (sys_radios (gw_sys g'))"
  using assms execute_inv by (auto simp: same_service_def runs_command_def)

end

section \<open>Properties of the gateway\<close>

definition demo_services :: "(int, nat, unit) gateway_services" where
  "demo_services = \<lparr>gs_tokens = demo_tokens, gs_system_ms = (\<lambda>now. (1767225600000, now)),
     gs_hmac_sha256 = (\<lambda>k m. ''signature''), gs_calculate_health = (\<lambda>_ _ _ _. ()),
     gs_health_json = (\<lambda>x. JObject []), gs_version = ''1'', gs_build = '''', gs_monitor_html = ''<html>''\<rparr>"

definition demo_gateway :: "(silvus_adapter, int) gateway" where
  "demo_gateway = \<lparr>gw_sys = demo_system, gw_counter = 0\<rparr>"

definition demo_request :: "string \<Rightarrow> string \<Rightarrow> http_request" where
  "demo_request method path = \<lparr>req_method = method, req_path = path, req_headers = Map.empty, req_body = ''{}''\<rparr>"

definition demo_security :: security_config where
  "demo_security = default_security\<lparr>token_secret := ''s''\<rparr>"

lemma demo_manager_inv: "manager_inv (silvus_ops demo) silvus_inv (sys_radios (gw_sys demo_gateway))"
  using app_start_inv [OF demo_config_ok demo_start] by (simp add: demo_gateway_def)

text \<open>C10. A request runs at most one command, and only with control rights: any registered handler, given
  any request, either leaves the radios, the event stream and the operations log as they were, or the
  method is POST, the access policy grants Control to the request, and the change is that of one
  orchestrator command.\<close>

theorem request_runs_at_most_one_command:
  assumes "(rt, h) \<in> set (registered_routes V P S cfg)" "h req g = Some (resp, g')"
  shows "same_service g g' \<or>
    req_method req = ''POST'' \<and> policy (gs_tokens S) cfg req AccessLevel.Control \<and>
    (\<exists>c r s. execute V P c (gw_sys g) = Some (r, s) \<and> same_service (g\<lparr>gw_sys := s\<rparr>) g')"
  using registered_handler_runs [OF assms] by (simp add: runs_command_def)

theorem request_runs_at_most_one_command_witness:
  "\<exists>resp g'. handleSelectRoute demo demo_services demo_security (demo_request ''POST'' ''/api/v1/radios/select'') demo_gateway =
      Some (resp, g') \<and> same_service demo_gateway g'"
proof -
  let ?h = "handleSelectRoute demo demo_services demo_security" and ?req = "demo_request ''POST'' ''/api/v1/radios/select''"
  have route: "(Exact ''/api/v1/radios/select'', ?h) \<in> set (registered_routes (silvus_ops demo) demo demo_services demo_security)"
    by (simp add: registered_routes_def)
  have denied: "\<not> policy (gs_tokens demo_services) demo_security ?req AccessLevel.Control"
    by (simp add: policy_def demo_security_def demo_request_def default_security_def)
  then have "?h ?req demo_gateway \<noteq> None"
    by (simp add: handleSelectRoute_def with_auth_def authorize_allowed Let_def demo_request_def del: not_None_eq)
  then obtain resp g' where "?h ?req demo_gateway = Some (resp, g')" by auto
  with request_runs_at_most_one_command [OF route this] denied show ?thesis by blast
qed




definition demo_operator :: http_request where
  "demo_operator = (demo_request ''POST'' ''/api/v1/radios/select'')\<lparr>req_headers := Map.empty\<rparr>"

definition demo_open :: security_config where
  "demo_open = default_security\<lparr>allow_unauthenticated_dev_access := True\<rparr>"




text \<open>The channel a request names is the channel the orchestrator is asked for: an index alone is taken as
  it is, a frequency alone is looked up, and when both are present they must agree; in each accepted case
  the index is inside the profile and the reported frequency is the profile's at that index up to 1 kHz.\<close>

theorem resolved_channel_is_consistent:
  assumes "resolve_channel caps index frequency = Some (Inr (i, f))" "index \<noteq> None \<or> frequency \<noteq> None"
  shows "1 \<le> i \<and> i \<le> int (length (supported_frequencies_mhz caps)) \<and>
    (\<forall>j. index = Some j \<longrightarrow> i = j) \<and> (\<forall>v. frequency = Some v \<longrightarrow> f = v \<and> findChannelIndex caps v = Some i) \<and>
    (frequency = None \<longrightarrow> f = supported_frequencies_mhz caps ! nat (i - 1))"
proof (cases frequency)
  case None
  then show ?thesis using assms
    by (auto simp: resolve_channel_def vector_at_def split: option.splits if_splits)
next
  case (Some v)
  have "findChannelIndex caps v = Some i \<and> f = v \<and> (\<forall>j. index = Some j \<longrightarrow> i = j)"
    using assms(1) Some
    by (cases index; cases "find_index_from 0 (supported_frequencies_mhz caps) v")
      (auto simp: resolve_channel_def find_channel_index_def findChannelIndex_def vector_at_def split: if_splits)
  then show ?thesis using Some findChannelIndex_Some(1,2) by auto
qed

theorem resolved_channel_is_consistent_witness:
  "resolve_channel (sa_capabilities demo_adapter) None (Some (Fin 2437)) = Some (Inr (2, Fin 2437)) \<and> 
   (1::int) \<le> 2 \<and> 2 \<le> int (length (supported_frequencies_mhz (sa_capabilities demo_adapter)))"
proof -
  have r: "resolve_channel (sa_capabilities demo_adapter) None (Some (Fin 2437)) = Some (Inr (2, Fin 2437))"
    using demo_channel_index by (simp add: resolve_channel_def find_channel_index_def findChannelIndex_def)
  with resolved_channel_is_consistent [OF r] show ?thesis by simp
qed

text \<open>Responses are well-formed HTTP: the client of the same code base reads the body of every 200
  response back byte for byte, and sees any other status as that status.\<close>

theorem response_is_readable:
  assumes "0 \<le> status" "status < 2 ^ 31" "CHR 0x0A \<notin> set statusText" "CHR 0x0A \<notin> set contentType"
    and "body \<noteq> []" "length body < 2 ^ 64"
  shows "read_response (http_message status statusText contentType body) err =
    (if status = 200 then Inr body else Inl (''HTTP '' @ show_int status))"
proof -
  let ?line = "''HTTP/1.1 '' @ show_int status @ '' '' @ statusText"
  have num: "show_int status = show_nat (nat status)" using assms(1) by (simp add: show_int_def)
  have digits: "list_all isdigit (show_nat (nat status))" using show_nat_props by blast
  have no_nl: "CHR 0x0A \<notin> set (show_nat n)" for n
    using show_nat_digits [of "CHR 0x0A" n] by (auto simp: isdigit_def char_code_def)
  have code: "status_code ?line = status"
  proof -
    let ?n = "show_nat (nat status)"
    have "dropWhile (\<lambda>c. \<not> isspace c) (dropWhile isspace ?line) = '' '' @ ?n @ '' '' @ statusText"
      by (simp add: num isspace_def char_code_def)
    moreover have "dropWhile isspace ('' '' @ ?n @ '' '' @ statusText) = ?n @ '' '' @ statusText"
      using digits_start(1) [OF digits show_nat_ne, of "'' '' @ statusText"] by (simp add: isspace_def char_code_def)
    moreover have "split_sign (?n @ '' '' @ statusText) = (False, ?n @ '' '' @ statusText)"
      by (rule digits_start(2) [OF digits show_nat_ne])
    moreover have "takeWhile isdigit (?n @ '' '' @ statusText) = ?n"
      using takeWhile_digits [OF digits, of "'' '' @ statusText"] by (simp add: isdigit_def char_code_def)
    ultimately show ?thesis
      using assms(1,2) by (simp add: status_code_def istream_int_def del: append.simps)
  qed
  have clean: "clean_line ?line" using no_nl assms(3) by (simp add: clean_line_def num)
  have hs: "plain_headers [''Content-Type: '' @ contentType]" "plain_headers [''Cache-Control: no-cache'']"
    using assms(4) by (simp_all add: plain_headers_def clean_line_def tolower_def char_code_def)
  have msg: "http_message status statusText contentType body =
      ?line @ crlf @ header_block (framed [''Content-Type: '' @ contentType] (length body) [''Cache-Control: no-cache'']) @ body"
    by (simp add: http_message_def header_block_def framed_def)
  show ?thesis
    using read_framed_response [OF clean hs assms(6), of body err] assms(5) unfolding code msg by simp
qed

theorem response_is_readable_witness:
  "read_response (htmlResponse ''<html>'') [] = Inr ''<html>''"
  using response_is_readable [of 200 "''OK''" "''text/html; charset=utf-8''" "''<html>''" "[]"]
  by (simp add: htmlResponse_def)


text \<open>An index that does not fit int keeps only its low 32 bits before the range check.\<close>

lemma channel_index_wraps: "requested_index (JObject [(''channelIndex'', JInt 4294967297)]) = Some 1"
  by (simp add: requested_index_def int32_of_def)

end
