(* ===== verification/Config_Loader.thy ===== *)
theory Config_Loader
  imports Radio_Manager
begin

text \<open>
  The loader of the YAML configuration, config_manager.cpp. A node is a value of a type 'n that the
  model does not look into: yaml-cpp's node access and the typed readers of dts-common are the record
  yaml_lib, an argument of every loader. An exception is the left side of a sum: a ConfigError or a
  YAML exception of those libraries, or the std::runtime_error of the loader itself. An absent child
  of a node is None. Durations are numbers of seconds or hours.
\<close>

datatype config_error = LibraryError string | RuntimeError string

text \<open>The shared TelemetryConfig of dts-common, whose fields are uint32_t.\<close>

record dts_telemetry =
  heartbeatIntervalSec :: "32 word"
  eventBufferSize :: "32 word"
  eventRetentionHours :: "32 word"
  maxConcurrentClients :: "32 word"
  clientIdleTimeoutSec :: "32 word"

type_synonym ('n, 'a) scalar_reader = "'n option \<Rightarrow> string \<Rightarrow> config_error + 'a option"

record 'n yaml_lib =
  y_child :: "'n \<Rightarrow> string \<Rightarrow> config_error + 'n option"
  y_items :: "'n \<Rightarrow> 'n list"
  read_string :: "('n, string) scalar_reader"
  read_bool :: "('n, bool) scalar_reader"
  read_uint16 :: "('n, 16 word) scalar_reader"
  read_size :: "('n, nat) scalar_reader"
  read_int :: "('n, int) scalar_reader"
  read_double :: "('n, double) scalar_reader"
  read_strings :: "('n, string list) scalar_reader"
  optional_string :: "('n, string) scalar_reader"
  required_int64 :: "'n \<Rightarrow> string \<Rightarrow> config_error + int"
  positive_seconds :: "'n \<Rightarrow> string \<Rightarrow> int \<Rightarrow> string \<Rightarrow> config_error + int"
  require_child :: "'n \<Rightarrow> string \<Rightarrow> config_error + 'n"
  shared_network :: "'n \<Rightarrow> string \<times> 16 word \<Rightarrow> config_error + string \<times> 16 word"
  shared_telemetry :: "'n \<Rightarrow> dts_telemetry \<Rightarrow> config_error + dts_telemetry"

section \<open>Sequencing of loaders\<close>

fun bindE :: "config_error + 'a \<Rightarrow> ('a \<Rightarrow> config_error + 'b) \<Rightarrow> config_error + 'b" where
  "bindE (Inl err) f = Inl err"
| "bindE (Inr x) f = f x"

named_theorems loads "when a sequence of loaders succeeds"

lemma bindE_Inr [loads]: "bindE m f = Inr y \<longleftrightarrow> (\<exists>x. m = Inr x \<and> f x = Inr y)"
  by (cases m) auto

lemma bindE_Inl: "bindE m f = Inl err \<longleftrightarrow> m = Inl err \<or> (\<exists>x. m = Inr x \<and> f x = Inl err)"
  by (cases m) auto

text \<open>if (const auto value = optionalScalar...) cfg.field = *value;\<close>

fun assign :: "('a \<Rightarrow> 'c \<Rightarrow> 'c) \<Rightarrow> 'c \<Rightarrow> 'a option \<Rightarrow> 'c" where
  "assign set_field cfg None = cfg"
| "assign set_field cfg (Some v) = set_field v cfg"

definition quoted :: "string \<Rightarrow> string" where
  "quoted s = [CHR 0x27] @ s @ [CHR 0x27]"

definition joinPath :: "string \<Rightarrow> string \<Rightarrow> string" where
  "joinPath parent key = (if parent = [] then key else parent @ ''.'' @ key)"

definition optionalScalar ::
  "'n yaml_lib \<Rightarrow> ('n, 'a) scalar_reader \<Rightarrow> 'n \<Rightarrow> string \<Rightarrow> string \<Rightarrow> config_error + 'a option" where
  "optionalScalar L reader node key parentPath =
     bindE (y_child L node key) (\<lambda>c. reader c (joinPath parentPath key))"

definition set_optional where
  "set_optional L reader node key parentPath set_field cfg =
     bindE (optionalScalar L reader node key parentPath) (\<lambda>v. Inr (assign set_field cfg v))"

definition readPositiveDurationHours ::
  "'n yaml_lib \<Rightarrow> 'n \<Rightarrow> string \<Rightarrow> int \<Rightarrow> string \<Rightarrow> config_error + int" where
  "readPositiveDurationHours L node key fallback parentPath =
     bindE (y_child L node key) (\<lambda>c. case c of None \<Rightarrow> Inr fallback | Some child \<Rightarrow>
       bindE (required_int64 L child (joinPath parentPath key)) (\<lambda>hours.
         if hours \<le> 0
         then Inl (LibraryError (''Duration for '' @ quoted (joinPath parentPath key) @ '' must be positive''))
         else Inr hours))"

section \<open>The sections of the file\<close>

definition loadContainerInfo :: "'n yaml_lib \<Rightarrow> 'n \<Rightarrow> config_error + container_info" where
  "loadContainerInfo L node =
     bindE (set_optional L (read_string L) node ''id'' ''container'' (\<lambda>v c. c\<lparr>container_id := v\<rparr>) default_container) (\<lambda>c.
     bindE (set_optional L (read_string L) node ''deployment'' ''container'' (\<lambda>v c. c\<lparr>deployment := v\<rparr>) c) (\<lambda>c.
     set_optional L (read_string L) node ''soldier_id'' ''container'' (\<lambda>v c. c\<lparr>soldier_id := v\<rparr>) c))"

definition loadNetworkConfigCompat :: "'n yaml_lib \<Rightarrow> 'n \<Rightarrow> config_error + network_config" where
  "loadNetworkConfigCompat L node =
     bindE (shared_network L node (bind_address default_network, command_port default_network)) (\<lambda>(address, port).
     bindE (set_optional L (read_string L) node ''bind_address'' ''network'' (\<lambda>v c. c\<lparr>bind_address := v\<rparr>)
              (default_network\<lparr>bind_address := address, command_port := port\<rparr>)) (\<lambda>c.
     set_optional L (read_uint16 L) node ''command_port'' ''network'' (\<lambda>v c. c\<lparr>command_port := v\<rparr>) c))"

definition telemetry_defaults :: "telemetry_config \<Rightarrow> dts_telemetry" where
  "telemetry_defaults c = \<lparr>heartbeatIntervalSec = word_of_int (heartbeat_interval c), eventBufferSize = of_nat (event_buffer_size c),
     eventRetentionHours = word_of_int (event_retention c), maxConcurrentClients = of_nat (max_sse_clients c),
     clientIdleTimeoutSec = word_of_int (client_idle_timeout c)\<rparr>"

definition apply_shared_telemetry :: "dts_telemetry \<Rightarrow> telemetry_config \<Rightarrow> telemetry_config" where
  "apply_shared_telemetry d c = c\<lparr>heartbeat_interval := uint (heartbeatIntervalSec d), event_buffer_size := unat (eventBufferSize d),
     event_retention := uint (eventRetentionHours d), max_sse_clients := unat (maxConcurrentClients d),
     client_idle_timeout := uint (clientIdleTimeoutSec d)\<rparr>"

text \<open>if (node[key]) cfg.field = read(node, key, cfg.field, parent);\<close>

definition set_present where
  "set_present L reader node key parentPath get_field set_field cfg =
     bindE (y_child L node key) (\<lambda>c. case c of None \<Rightarrow> Inr cfg
       | Some _ \<Rightarrow> bindE (reader node key (get_field cfg) parentPath) (\<lambda>v. Inr (set_field v cfg)))"

definition loadTelemetryConfigCompat :: "'n yaml_lib \<Rightarrow> 'n \<Rightarrow> config_error + telemetry_config" where
  "loadTelemetryConfigCompat L node =
     bindE (shared_telemetry L node (telemetry_defaults default_telemetry)) (\<lambda>shared.
     bindE (set_optional L (read_uint16 L) node ''sse_port'' ''telemetry'' (\<lambda>v c. c\<lparr>sse_port := v\<rparr>)
              (apply_shared_telemetry shared default_telemetry)) (\<lambda>c.
     bindE (set_present L (positive_seconds L) node ''heartbeat_interval_sec'' ''telemetry'' heartbeat_interval
              (\<lambda>v c. c\<lparr>heartbeat_interval := v\<rparr>) c) (\<lambda>c.
     bindE (set_optional L (read_size L) node ''event_buffer_size'' ''telemetry'' (\<lambda>v c. c\<lparr>event_buffer_size := v\<rparr>) c) (\<lambda>c.
     bindE (set_present L (readPositiveDurationHours L) node ''event_retention_hours'' ''telemetry'' event_retention
              (\<lambda>v c. c\<lparr>event_retention := v\<rparr>) c) (\<lambda>c.
     bindE (set_optional L (read_size L) node ''max_sse_clients'' ''telemetry'' (\<lambda>v c. c\<lparr>max_sse_clients := v\<rparr>) c) (\<lambda>c.
     set_present L (positive_seconds L) node ''client_idle_timeout_sec'' ''telemetry'' client_idle_timeout
       (\<lambda>v c. c\<lparr>client_idle_timeout := v\<rparr>) c))))))"

definition loadSecurityConfig :: "'n yaml_lib \<Rightarrow> 'n \<Rightarrow> config_error + security_config" where
  "loadSecurityConfig L node =
     bindE (set_optional L (read_string L) node ''token_secret'' ''security'' (\<lambda>v c. c\<lparr>token_secret := v\<rparr>) default_security) (\<lambda>c.
     bindE (set_optional L (read_bool L) node ''allow_unauthenticated_dev_access'' ''security''
              (\<lambda>v c. c\<lparr>allow_unauthenticated_dev_access := v\<rparr>) c) (\<lambda>c.
     bindE (set_optional L (read_strings L) node ''allowed_roles'' ''security'' (\<lambda>v c. c\<lparr>allowed_roles := v\<rparr>) c) (\<lambda>c.
     bindE (positive_seconds L node ''token_ttl_sec'' (token_ttl c) ''security'') (\<lambda>ttl. Inr (c\<lparr>token_ttl := ttl\<rparr>)))))"

definition loadAuditConfig :: "'n yaml_lib \<Rightarrow> 'n option \<Rightarrow> config_error + audit_config" where
  "loadAuditConfig L n =
     (case n of None \<Rightarrow> Inr default_audit | Some node \<Rightarrow>
       bindE (set_optional L (read_bool L) node ''enabled'' ''audit'' (\<lambda>v c. c\<lparr>audit_enabled := v\<rparr>) default_audit) (\<lambda>c.
       bindE (set_optional L (read_string L) node ''file_path'' ''audit'' (\<lambda>v c. c\<lparr>file_path := v\<rparr>) c) (\<lambda>c.
       bindE (set_optional L (read_size L) node ''rotate_after_bytes'' ''audit'' (\<lambda>v c. c\<lparr>rotate_after_bytes := v\<rparr>) c) (\<lambda>c.
       set_optional L (read_size L) node ''rotated_file_count'' ''audit'' (\<lambda>v c. c\<lparr>rotated_file_count := v\<rparr>) c))))"

definition loadTimingProfile :: "'n yaml_lib \<Rightarrow> 'n \<Rightarrow> config_error + timing_profile" where
  "loadTimingProfile L node =
     bindE (positive_seconds L node ''normal_probe_sec'' (normal_probe default_timing) ''timing'') (\<lambda>n.
     bindE (positive_seconds L node ''recovering_probe_sec'' (recovering_probe default_timing) ''timing'') (\<lambda>r.
     bindE (positive_seconds L node ''offline_probe_sec'' (offline_probe default_timing) ''timing'') (\<lambda>off.
     Inr \<lparr>normal_probe = n, recovering_probe = r, offline_probe = off\<rparr>)))"

definition default_radio_entry :: radio_entry where
  "default_radio_entry = \<lparr>re_id = [], re_adapter = [], re_endpoint = [], re_description = None,
     min_power_dbm = None, max_power_dbm = None\<rparr>"

text \<open>The checks of an entry, in the order the loader makes them.\<close>

definition check_radio_entry :: "radio_entry \<Rightarrow> config_error + radio_entry" where
  "check_radio_entry r =
     (if (min_power_dbm r \<noteq> None) \<noteq> (max_power_dbm r \<noteq> None)
      then Inl (RuntimeError (''Radio power overrides require both '' @ quoted ''min_power_dbm'' @ '' and '' @ quoted ''max_power_dbm''))
      else if (case (min_power_dbm r, max_power_dbm r) of
                (Some low, Some high) \<Rightarrow> flt low (Fin 0) \<or> flt (Fin 39) high \<or> flt high low
              | _ \<Rightarrow> False)
      then Inl (RuntimeError ''Radio power overrides must satisfy 0 <= min_power_dbm <= max_power_dbm <= 39'')
      else if re_id r = [] \<or> re_adapter r = [] \<or> re_endpoint r = []
      then Inl (RuntimeError (''Radio entries require '' @ quoted ''id'' @ '', '' @ quoted ''adapter'' @ '', and '' @ quoted ''endpoint''))
      else Inr r)"

definition load_radio_entry :: "'n yaml_lib \<Rightarrow> 'n \<Rightarrow> config_error + radio_entry" where
  "load_radio_entry L node =
     bindE (set_optional L (read_string L) node ''id'' ''radios[].id'' (\<lambda>v r. r\<lparr>re_id := v\<rparr>) default_radio_entry) (\<lambda>r.
     bindE (set_optional L (read_string L) node ''adapter'' ''radios[].adapter'' (\<lambda>v r. r\<lparr>re_adapter := v\<rparr>) r) (\<lambda>r.
     bindE (set_optional L (read_string L) node ''endpoint'' ''radios[].endpoint'' (\<lambda>v r. r\<lparr>re_endpoint := v\<rparr>) r) (\<lambda>r.
     bindE (y_child L node ''description'') (\<lambda>d.
     bindE (optional_string L d ''radios[].description'') (\<lambda>description.
     bindE (optionalScalar L (read_double L) node ''min_power_dbm'' ''radios[].min_power_dbm'') (\<lambda>low.
     bindE (optionalScalar L (read_double L) node ''max_power_dbm'' ''radios[].max_power_dbm'') (\<lambda>high.
     check_radio_entry (r\<lparr>re_description := description, min_power_dbm := low, max_power_dbm := high\<rparr>))))))))"

fun load_entries :: "'n yaml_lib \<Rightarrow> 'n list \<Rightarrow> config_error + radio_entry list" where
  "load_entries L [] = Inr []"
| "load_entries L (node # nodes) =
     bindE (load_radio_entry L node) (\<lambda>r. bindE (load_entries L nodes) (\<lambda>rs. Inr (r # rs)))"

definition loadRadioEntries :: "'n yaml_lib \<Rightarrow> 'n option \<Rightarrow> config_error + radio_entry list" where
  "loadRadioEntries L n = (case n of None \<Rightarrow> Inr [] | Some node \<Rightarrow> load_entries L (y_items L node))"

definition loadServiceDiscoveryConfig :: "'n yaml_lib \<Rightarrow> 'n option \<Rightarrow> config_error + service_discovery_config" where
  "loadServiceDiscoveryConfig L n =
     (case n of None \<Rightarrow> Inr default_service_discovery | Some node \<Rightarrow>
       bindE (set_optional L (read_bool L) node ''enabled'' ''serviceDiscovery'' (\<lambda>v c. c\<lparr>sd_enabled := v\<rparr>)
                default_service_discovery) (\<lambda>c.
       bindE (set_optional L (read_uint16 L) node ''port'' ''serviceDiscovery'' (\<lambda>v c. c\<lparr>sd_port := v\<rparr>) c) (\<lambda>c.
       bindE (set_optional L (read_int L) node ''ttl'' ''serviceDiscovery'' (\<lambda>v c. c\<lparr>sd_ttl := v\<rparr>) c) (\<lambda>c.
       bindE (set_optional L (read_int L) node ''startupBurstCount'' ''serviceDiscovery'' (\<lambda>v c. c\<lparr>startup_burst_count := v\<rparr>) c) (\<lambda>c.
       bindE (set_optional L (read_int L) node ''startupBurstSpacingMs'' ''serviceDiscovery'' (\<lambda>v c. c\<lparr>startup_burst_spacing_ms := v\<rparr>) c) (\<lambda>c.
       bindE (set_optional L (read_string L) node ''bindAddress'' ''serviceDiscovery'' (\<lambda>v c. c\<lparr>sd_bind_address := v\<rparr>) c) (\<lambda>c.
       bindE (y_child L node ''interfaceHint'') (\<lambda>h.
       bindE (optional_string L h ''serviceDiscovery.interfaceHint'') (\<lambda>hint. Inr (c\<lparr>interface_hint := hint\<rparr>))))))))))"

text \<open>if (const auto child = doc[key]) cfg.section = load(child);\<close>

definition optional_section where
  "optional_section L doc key fallback load =
     bindE (y_child L doc key) (\<lambda>c. case c of None \<Rightarrow> Inr fallback | Some node \<Rightarrow> load node)"

definition parseConfig :: "'n yaml_lib \<Rightarrow> 'n \<Rightarrow> config_error + config" where
  "parseConfig L doc =
     bindE (require_child L doc ''container'') (\<lambda>containerNode.
     bindE (loadContainerInfo L containerNode) (\<lambda>container.
     bindE (optional_section L doc ''network'' default_network (loadNetworkConfigCompat L)) (\<lambda>network.
     bindE (optional_section L doc ''telemetry'' default_telemetry (loadTelemetryConfigCompat L)) (\<lambda>telemetry.
     bindE (require_child L doc ''security'') (\<lambda>securityNode.
     bindE (loadSecurityConfig L securityNode) (\<lambda>security.
     bindE (y_child L doc ''audit'') (\<lambda>auditNode.
     bindE (loadAuditConfig L auditNode) (\<lambda>audit.
     bindE (y_child L doc ''serviceDiscovery'') (\<lambda>discoveryNode.
     bindE (loadServiceDiscoveryConfig L discoveryNode) (\<lambda>discovery.
     bindE (optional_section L doc ''timing'' default_timing (loadTimingProfile L)) (\<lambda>timing.
     bindE (y_child L doc ''radios'') (\<lambda>radiosNode.
     bindE (loadRadioEntries L radiosNode) (\<lambda>radios.
     Inr \<lparr>cfg_container = container, cfg_network = network, cfg_telemetry = telemetry, cfg_security = security,
       cfg_audit = audit, cfg_service_discovery = discovery, cfg_timing = timing, cfg_radios = radios\<rparr>)))))))))))))"

section \<open>The configuration manager\<close>

text \<open>load_document stands for YamlDocument::load: it reads the file at the path and parses it.\<close>

record config_manager =
  cm_path :: string
  cm_config :: config

definition loadFromFile where
  "loadFromFile L load_document path e =
     (case load_document path e of (d, e') \<Rightarrow> (bindE d (parseConfig L), e'))"

definition make_config_manager where
  "make_config_manager L load_document path e =
     (case loadFromFile L load_document path e of
        (Inl err, e') \<Rightarrow> (Inl err, e')
      | (Inr cfg, e') \<Rightarrow> (Inr \<lparr>cm_path = path, cm_config = cfg\<rparr>, e'))"

definition config_current :: "config_manager \<Rightarrow> config" where
  "config_current m = cm_config m"

definition config_reload ::
  "'n yaml_lib \<Rightarrow> (string \<Rightarrow> 'e \<Rightarrow> (config_error + 'n) \<times> 'e) \<Rightarrow> config_manager \<Rightarrow> 'e \<Rightarrow>
   config_error option \<times> config_manager \<times> 'e" where
  "config_reload L load_document m e =
     (case loadFromFile L load_document (cm_path m) e of
        (Inl err, e') \<Rightarrow> (Some err, m, e')
      | (Inr updated, e') \<Rightarrow> (None, m\<lparr>cm_config := updated\<rparr>, e'))"

section \<open>What a loaded configuration satisfies\<close>

definition entry_checked :: "radio_entry \<Rightarrow> bool" where
  "entry_checked r \<longleftrightarrow> re_id r \<noteq> [] \<and> re_adapter r \<noteq> [] \<and> re_endpoint r \<noteq> [] \<and>
     (min_power_dbm r = None) = (max_power_dbm r = None)"

definition nan_free :: "radio_entry \<Rightarrow> bool" where
  "nan_free r \<longleftrightarrow> min_power_dbm r \<noteq> Some NaN \<and> max_power_dbm r \<noteq> Some NaN"

lemma in_dbm_range:
  assumes "\<not> flt low (Fin 0)" "\<not> flt (Fin 39) high" "\<not> flt high low" "low \<noteq> NaN" "high \<noteq> NaN"
  shows "\<exists>l h. low = Fin l \<and> high = Fin h \<and> 0 \<le> l \<and> l \<le> h \<and> h \<le> 39"
  using assms by (cases low; cases high) (auto simp: flt_def)

lemma check_radio_entry_ok:
  assumes "check_radio_entry r = Inr r'"
  shows "r' = r \<and> entry_checked r \<and> (nan_free r \<longrightarrow> entry_ok r)"
proof -
  have r: "r' = r" "entry_checked r"
    using assms by (auto simp: check_radio_entry_def entry_checked_def split: if_splits)
  moreover have "entry_ok r" if "nan_free r"
  proof (cases "min_power_dbm r"; cases "max_power_dbm r")
    fix low high
    assume b: "min_power_dbm r = Some low" "max_power_dbm r = Some high"
    then have "\<not> flt low (Fin 0)" "\<not> flt (Fin 39) high" "\<not> flt high low"
      using assms by (auto simp: check_radio_entry_def split: if_splits)
    from in_dbm_range [OF this] that b show ?thesis by (auto simp: nan_free_def entry_ok_def)
  qed (use r in \<open>auto simp: entry_ok_def entry_checked_def\<close>)
  ultimately show ?thesis by blast
qed

text \<open>What the entry of one item says, field by field, in terms of the typed readers.\<close>

definition entry_read :: "'n yaml_lib \<Rightarrow> 'n \<Rightarrow> radio_entry \<Rightarrow> bool" where
  "entry_read L item r \<longleftrightarrow>
     optionalScalar L (read_string L) item ''id'' ''radios[].id'' = Inr (Some (re_id r)) \<and>
     optionalScalar L (read_string L) item ''adapter'' ''radios[].adapter'' = Inr (Some (re_adapter r)) \<and>
     optionalScalar L (read_string L) item ''endpoint'' ''radios[].endpoint'' = Inr (Some (re_endpoint r)) \<and>
     (\<exists>d. y_child L item ''description'' = Inr d \<and> optional_string L d ''radios[].description'' = Inr (re_description r)) \<and>
     optionalScalar L (read_double L) item ''min_power_dbm'' ''radios[].min_power_dbm'' = Inr (min_power_dbm r) \<and>
     optionalScalar L (read_double L) item ''max_power_dbm'' ''radios[].max_power_dbm'' = Inr (max_power_dbm r)"

lemma assign_option: "assign f cfg v = (case v of None \<Rightarrow> cfg | Some x \<Rightarrow> f x cfg)"
  by (cases v) simp_all

lemma load_radio_entry_ok:
  assumes "load_radio_entry L node = Inr r"
  shows "entry_checked r" "nan_free r \<longrightarrow> entry_ok r" "entry_read L node r"
proof -
  from assms obtain i a p d description low high where reads:
    "optionalScalar L (read_string L) node ''id'' ''radios[].id'' = Inr i"
    "optionalScalar L (read_string L) node ''adapter'' ''radios[].adapter'' = Inr a"
    "optionalScalar L (read_string L) node ''endpoint'' ''radios[].endpoint'' = Inr p"
    "y_child L node ''description'' = Inr d" "optional_string L d ''radios[].description'' = Inr description"
    "optionalScalar L (read_double L) node ''min_power_dbm'' ''radios[].min_power_dbm'' = Inr low"
    "optionalScalar L (read_double L) node ''max_power_dbm'' ''radios[].max_power_dbm'' = Inr high"
    and check: "check_radio_entry ((assign (\<lambda>v r. r\<lparr>re_endpoint := v\<rparr>) (assign (\<lambda>v r. r\<lparr>re_adapter := v\<rparr>)
      (assign (\<lambda>v r. r\<lparr>re_id := v\<rparr>) default_radio_entry i) a) p)
      \<lparr>re_description := description, min_power_dbm := low, max_power_dbm := high\<rparr>) = Inr r"
    unfolding load_radio_entry_def set_optional_def loads by fast
  note checked = check_radio_entry_ok [OF check]
  then show "entry_checked r" "nan_free r \<longrightarrow> entry_ok r" by simp_all
  then have "i = Some (re_id r)" "a = Some (re_adapter r)" "p = Some (re_endpoint r)"
    "description = re_description r" "low = min_power_dbm r" "high = max_power_dbm r"
    using checked by (auto simp: entry_checked_def assign_option default_radio_entry_def split: option.splits)
  with reads show "entry_read L node r" by (simp add: entry_read_def)
qed

lemma load_entries_ok:
  "load_entries L nodes = Inr rs \<Longrightarrow>
   list_all2 (entry_read L) nodes rs \<and> list_all entry_checked rs \<and> (list_all nan_free rs \<longrightarrow> list_all entry_ok rs)"
  by (induction nodes arbitrary: rs) (auto simp: loads dest: load_radio_entry_ok)

lemma loadRadioEntries_ok:
  "loadRadioEntries L n = Inr rs \<Longrightarrow>
   list_all2 (entry_read L) (case n of None \<Rightarrow> [] | Some node \<Rightarrow> y_items L node) rs \<and>
   list_all entry_checked rs \<and> (list_all nan_free rs \<longrightarrow> list_all entry_ok rs)"
  by (auto simp: loadRadioEntries_def split: option.splits dest: load_entries_ok)

lemma parseConfig_radios:
  assumes "parseConfig L doc = Inr cfg"
  shows "\<exists>n. y_child L doc ''radios'' = Inr n \<and> loadRadioEntries L n = Inr (cfg_radios cfg)"
  using assms by (auto simp: parseConfig_def loads)

text \<open>C17. A configuration that loads keeps exactly one entry per item of the list of radios, the i-th entry with
  the id, adapter, endpoint, description and power bounds that the i-th item states; each entry has an id, an
  adapter and an endpoint and both power bounds or none; and when no bound is NaN, every
  radio manager built from it satisfies the invariant the commands rely on.\<close>

theorem loaded_configuration_is_sound:
  assumes "parseConfig L doc = Inr cfg"
  shows "(\<exists>n. y_child L doc ''radios'' = Inr n \<and>
      list_all2 (entry_read L) (case n of None \<Rightarrow> [] | Some node \<Rightarrow> y_items L node) (cfg_radios cfg)) \<and>
    list_all entry_checked (cfg_radios cfg) \<and>
    (list_all nan_free (cfg_radios cfg) \<longrightarrow>
       list_all entry_ok (cfg_radios cfg) \<and> manager_inv (silvus_ops P) silvus_inv (load_from_config cfg))"
  using parseConfig_radios [OF assms] loadRadioEntries_ok load_from_config_inv by blast

text \<open>C40. A power bound of NaN passes every check of the loader, and an upper bound of NaN removes the
  ceiling: the adapter of that entry then takes every power from the lower bound up as within range.\<close>

theorem nan_bound_removes_ceiling:
  assumes "re_id r \<noteq> []" "re_adapter r \<noteq> []" "re_endpoint r \<noteq> []" "0 \<le> l"
    and "min_power_dbm r = Some (Fin l)" "max_power_dbm r = Some NaN"
    and "rd_adapter (entry_descriptor r) = Some a" "dbmToWatts (Fin l) \<le> w"
  shows "check_radio_entry r = Inr r \<and> \<not> entry_ok r \<and> in_power_range (sa_capabilities a) w"
proof -
  have "a = make_silvus_adapter (re_id r) (re_endpoint r) (Some (Fin l, NaN)) 3000 (30 * 10 ^ 9)"
    using assms(5-7) by (simp add: entry_descriptor_def Let_def)
  moreover have "dbmToWatts NaN = NaN" by (simp add: dbmToWatts_def)
  ultimately have "power_range_watts (sa_capabilities a) = (dbmToWatts (Fin l), NaN)"
    by (simp add: make_silvus_adapter_def default_capability_info_def)
  then have "in_power_range (sa_capabilities a) w" using assms(8) by (auto simp: in_power_range_def flt_def)
  moreover have "check_radio_entry r = Inr r" using assms by (simp add: check_radio_entry_def)
  moreover have "\<not> entry_ok r" using assms by (simp add: entry_ok_def)
  ultimately show ?thesis by blast
qed

definition nan_entry :: radio_entry where
  "nan_entry = \<lparr>re_id = ''r1'', re_adapter = ''silvus'', re_endpoint = ''http://10.0.0.1:80'', re_description = None,
     min_power_dbm = Some (Fin 0), max_power_dbm = Some NaN\<rparr>"

theorem nan_bound_removes_ceiling_witness:
  "\<exists>a. rd_adapter (entry_descriptor nan_entry) = Some a \<and> check_radio_entry nan_entry = Inr nan_entry \<and>
     in_power_range (sa_capabilities a) (dbmToWatts (Fin 60))"
proof -
  obtain a where a: "rd_adapter (entry_descriptor nan_entry) = Some a" by (simp add: entry_descriptor_def Let_def)
  from nan_bound_removes_ceiling [OF _ _ _ _ _ _ this, of 0 "dbmToWatts (Fin 60)"] a dbmToWatts_mono [of "Fin 0" "Fin 60"]
  show ?thesis by (auto simp: nan_entry_def)
qed

section \<open>Precedence of the two key styles\<close>

lemma set_optional_Inr [loads]:
  "set_optional L reader node key parent f cfg = Inr c \<longleftrightarrow>
     (\<exists>v. optionalScalar L reader node key parent = Inr v \<and> c = assign f cfg v)"
  by (auto simp: set_optional_def loads)

lemma set_present_Inr [loads]:
  "set_present L reader node key parent g f cfg = Inr c \<longleftrightarrow>
     (y_child L node key = Inr None \<and> c = cfg \<or>
      (\<exists>n v. y_child L node key = Inr (Some n) \<and> reader node key (g cfg) parent = Inr v \<and> c = f v cfg))"
  by (auto simp: set_present_def loads split: option.splits)

lemma readPositiveDurationHours_pos: "readPositiveDurationHours L node key fallback parent = Inr h \<Longrightarrow> 0 < fallback \<Longrightarrow> 0 < h"
  by (auto simp: readPositiveDurationHours_def loads split: option.splits if_splits)

lemma network_key_precedence:
  assumes "loadNetworkConfigCompat L node = Inr net"
  shows "(\<exists>address port bind command. shared_network L node (''0.0.0.0'', 8080) = Inr (address, port) \<and>
      optionalScalar L (read_string L) node ''bind_address'' ''network'' = Inr bind \<and>
      optionalScalar L (read_uint16 L) node ''command_port'' ''network'' = Inr command \<and>
      bind_address net = (case bind of None \<Rightarrow> address | Some v \<Rightarrow> v) \<and>
      command_port net = (case command of None \<Rightarrow> port | Some v \<Rightarrow> v))"
proof -
  obtain address port bind command where n: "shared_network L node (''0.0.0.0'', 8080) = Inr (address, port)"
    "optionalScalar L (read_string L) node ''bind_address'' ''network'' = Inr bind"
    "optionalScalar L (read_uint16 L) node ''command_port'' ''network'' = Inr command"
    "net = assign (\<lambda>v c. c\<lparr>command_port := v\<rparr>) (assign (\<lambda>v c. c\<lparr>bind_address := v\<rparr>)
       (default_network\<lparr>bind_address := address, command_port := port\<rparr>) bind) command"
    using assms by (auto simp: loadNetworkConfigCompat_def loads default_network_def)
  have "bind_address net = (case bind of None \<Rightarrow> address | Some v \<Rightarrow> v)"
    "command_port net = (case command of None \<Rightarrow> port | Some v \<Rightarrow> v)"
    unfolding n(4) by (simp_all add: assign_option split: option.split)
  with n(1-3) show ?thesis by blast
qed

lemma telemetry_key_precedence:
  assumes "loadTelemetryConfigCompat L node = Inr tel"
  shows "(\<exists>shared sse buffer clients. shared_telemetry L node (telemetry_defaults default_telemetry) = Inr shared \<and>
      optionalScalar L (read_uint16 L) node ''sse_port'' ''telemetry'' = Inr sse \<and>
      optionalScalar L (read_size L) node ''event_buffer_size'' ''telemetry'' = Inr buffer \<and>
      optionalScalar L (read_size L) node ''max_sse_clients'' ''telemetry'' = Inr clients \<and>
      sse_port tel = (case sse of None \<Rightarrow> 0 | Some v \<Rightarrow> v) \<and>
      event_buffer_size tel = (case buffer of None \<Rightarrow> unat (eventBufferSize shared) | Some v \<Rightarrow> v) \<and>
      max_sse_clients tel = (case clients of None \<Rightarrow> unat (maxConcurrentClients shared) | Some v \<Rightarrow> v) \<and>
      (0 < eventRetentionHours shared \<longrightarrow> 0 < event_retention tel))"
proof -
  obtain shared sse c1 buffer c2 c3 clients where c:
    "shared_telemetry L node (telemetry_defaults default_telemetry) = Inr shared"
    "optionalScalar L (read_uint16 L) node ''sse_port'' ''telemetry'' = Inr sse"
    "set_present L (positive_seconds L) node ''heartbeat_interval_sec'' ''telemetry'' heartbeat_interval
        (\<lambda>v c. c\<lparr>heartbeat_interval := v\<rparr>) (assign (\<lambda>v c. c\<lparr>sse_port := v\<rparr>) (apply_shared_telemetry shared default_telemetry) sse) = Inr c1"
    "optionalScalar L (read_size L) node ''event_buffer_size'' ''telemetry'' = Inr buffer"
    "set_present L (readPositiveDurationHours L) node ''event_retention_hours'' ''telemetry'' event_retention
        (\<lambda>v c. c\<lparr>event_retention := v\<rparr>) (assign (\<lambda>v c. c\<lparr>event_buffer_size := v\<rparr>) c1 buffer) = Inr c2"
    "optionalScalar L (read_size L) node ''max_sse_clients'' ''telemetry'' = Inr clients"
    "set_present L (positive_seconds L) node ''client_idle_timeout_sec'' ''telemetry'' client_idle_timeout
        (\<lambda>v c. c\<lparr>client_idle_timeout := v\<rparr>) (assign (\<lambda>v c. c\<lparr>max_sse_clients := v\<rparr>) c2 clients) = Inr tel"
    using assms unfolding loadTelemetryConfigCompat_def bindE_Inr set_optional_Inr by blast
  have 1: "sse_port c1 = (case sse of None \<Rightarrow> 0 | Some v \<Rightarrow> v)" "event_buffer_size c1 = unat (eventBufferSize shared)"
    "max_sse_clients c1 = unat (maxConcurrentClients shared)" "event_retention c1 = uint (eventRetentionHours shared)"
    using c(3) by (auto simp: set_present_Inr assign_option apply_shared_telemetry_def default_telemetry_def split: option.splits)
  have 2: "sse_port c2 = sse_port c1" "event_buffer_size c2 = (case buffer of None \<Rightarrow> event_buffer_size c1 | Some v \<Rightarrow> v)"
    "max_sse_clients c2 = max_sse_clients c1" "0 < event_retention c1 \<longrightarrow> 0 < event_retention c2"
    using c(5) by (auto simp: set_present_Inr assign_option split: option.splits dest: readPositiveDurationHours_pos)
  have 3: "sse_port tel = sse_port c2" "event_buffer_size tel = event_buffer_size c2"
    "max_sse_clients tel = (case clients of None \<Rightarrow> max_sse_clients c2 | Some v \<Rightarrow> v)" "event_retention tel = event_retention c2"
    using c(7) by (auto simp: set_present_Inr assign_option split: option.splits)
  have "0 < eventRetentionHours shared \<Longrightarrow> 0 < uint (eventRetentionHours shared)" by (simp add: word_less_alt)
  then have "0 < eventRetentionHours shared \<longrightarrow> 0 < event_retention tel" using 1(4) 2(4) 3(4) by simp
  moreover have "event_buffer_size tel = (case buffer of None \<Rightarrow> unat (eventBufferSize shared) | Some v \<Rightarrow> v)"
    "max_sse_clients tel = (case clients of None \<Rightarrow> unat (maxConcurrentClients shared) | Some v \<Rightarrow> v)"
    "sse_port tel = (case sse of None \<Rightarrow> 0 | Some v \<Rightarrow> v)"
    unfolding 3 2 1 by (rule refl)+
  ultimately show ?thesis using c(1,2,4,6) by blast
qed

text \<open>Precedence of the two key styles: in a section that loads, the older snake_case key of a field
  wins when it is present, then what dts-common read from the shared key, starting from the defaults;
  and the retention time is a positive number of hours when the shared reader gives one.\<close>

theorem section_key_precedence:
  assumes "loadNetworkConfigCompat L node = Inr net" "loadTelemetryConfigCompat L node = Inr tel"
  shows "(\<exists>address port bind command. shared_network L node (''0.0.0.0'', 8080) = Inr (address, port) \<and>
      optionalScalar L (read_string L) node ''bind_address'' ''network'' = Inr bind \<and>
      optionalScalar L (read_uint16 L) node ''command_port'' ''network'' = Inr command \<and>
      bind_address net = (case bind of None \<Rightarrow> address | Some v \<Rightarrow> v) \<and>
      command_port net = (case command of None \<Rightarrow> port | Some v \<Rightarrow> v)) \<and>
    (\<exists>shared sse buffer clients. shared_telemetry L node (telemetry_defaults default_telemetry) = Inr shared \<and>
      optionalScalar L (read_uint16 L) node ''sse_port'' ''telemetry'' = Inr sse \<and>
      optionalScalar L (read_size L) node ''event_buffer_size'' ''telemetry'' = Inr buffer \<and>
      optionalScalar L (read_size L) node ''max_sse_clients'' ''telemetry'' = Inr clients \<and>
      sse_port tel = (case sse of None \<Rightarrow> 0 | Some v \<Rightarrow> v) \<and>
      event_buffer_size tel = (case buffer of None \<Rightarrow> unat (eventBufferSize shared) | Some v \<Rightarrow> v) \<and>
      max_sse_clients tel = (case clients of None \<Rightarrow> unat (maxConcurrentClients shared) | Some v \<Rightarrow> v) \<and>
      (0 < eventRetentionHours shared \<longrightarrow> 0 < event_retention tel))"
  using network_key_precedence [OF assms(1)] telemetry_key_precedence [OF assms(2)] by blast

section \<open>A concrete file\<close>

text \<open>A YAML library over JSON trees, for evaluating the loader on concrete input.\<close>

definition demo_text :: "(json, string) scalar_reader" where
  "demo_text c path = (case c of Some (JString s) \<Rightarrow> Inr (Some s) | None \<Rightarrow> Inr None | _ \<Rightarrow> Inl (LibraryError path))"

definition demo_number :: "(int \<Rightarrow> 'a) \<Rightarrow> (json, 'a) scalar_reader" where
  "demo_number f c path = (case c of Some (JInt i) \<Rightarrow> Inr (Some (f i)) | None \<Rightarrow> Inr None | _ \<Rightarrow> Inl (LibraryError path))"

definition demo_yaml :: "json yaml_lib" where
  "demo_yaml = \<lparr>y_child = (\<lambda>n k. Inr (json_find k n)),
     y_items = (\<lambda>n. case n of JArray js \<Rightarrow> js | _ \<Rightarrow> []),
     read_string = demo_text,
     read_bool = (\<lambda>c path. case c of Some (JBool b) \<Rightarrow> Inr (Some b) | None \<Rightarrow> Inr None | _ \<Rightarrow> Inl (LibraryError path)),
     read_uint16 = demo_number of_int, read_size = demo_number nat, read_int = demo_number (\<lambda>i. i),
     read_double = demo_number (\<lambda>i. Fin (of_int i)),
     read_strings = (\<lambda>c path. Inr None), optional_string = demo_text,
     required_int64 = (\<lambda>n path. case n of JInt i \<Rightarrow> Inr i | _ \<Rightarrow> Inl (LibraryError path)),
     positive_seconds = (\<lambda>n key fallback path. case json_find key n of None \<Rightarrow> Inr fallback
        | Some (JInt i) \<Rightarrow> if 0 < i then Inr i else Inl (LibraryError path) | Some _ \<Rightarrow> Inl (LibraryError path)),
     require_child = (\<lambda>n k. case json_find k n of None \<Rightarrow> Inl (LibraryError k) | Some c \<Rightarrow> Inr c),
     shared_network = (\<lambda>n d. Inr d), shared_telemetry = (\<lambda>n d. Inr d)\<rparr>"

definition demo_file :: json where
  "demo_file = JObject [(''container'', JObject []), (''security'', JObject []),
     (''radios'', JArray [JObject [(''id'', JString ''r1''), (''adapter'', JString ''silvus''),
        (''endpoint'', JString ''http://10.0.0.1:80''), (''min_power_dbm'', JInt 0), (''max_power_dbm'', JInt 33)]])]"

definition demo_loaded :: config where
  "demo_loaded = default_config\<lparr>cfg_radios := [\<lparr>re_id = ''r1'', re_adapter = ''silvus'', re_endpoint = ''http://10.0.0.1:80'',
     re_description = None, min_power_dbm = Some (Fin 0), max_power_dbm = Some (Fin 33)\<rparr>]\<rparr>"

lemmas demo_loaders = parseConfig_def demo_yaml_def loadContainerInfo_def loadSecurityConfig_def loadAuditConfig_def
  loadServiceDiscoveryConfig_def optional_section_def loadRadioEntries_def load_radio_entry_def
  set_optional_def optionalScalar_def demo_text_def demo_number_def

lemma demo_parse: "parseConfig demo_yaml demo_file = Inr demo_loaded"
  by (simp add: demo_loaders demo_file_def demo_loaded_def default_config_def default_radio_entry_def check_radio_entry_def)

theorem loaded_configuration_is_sound_witness:
  "manager_inv (silvus_ops demo) silvus_inv (load_from_config demo_loaded)"
  using loaded_configuration_is_sound [OF demo_parse, of demo] by (simp add: demo_loaded_def nan_free_def)

definition demo_section :: json where
  "demo_section = JObject [(''bind_address'', JString ''127.0.0.1''), (''event_retention_hours'', JInt 6), (''sse_port'', JInt 8081)]"

theorem section_key_precedence_witness:
  "\<exists>net tel. loadNetworkConfigCompat demo_yaml demo_section = Inr net \<and> bind_address net = ''127.0.0.1'' \<and>
     loadTelemetryConfigCompat demo_yaml demo_section = Inr tel \<and> 0 < event_retention tel \<and> event_retention tel = 6"
proof -
  have steps: "\<exists>net. loadNetworkConfigCompat demo_yaml demo_section = Inr net"
    "\<exists>tel. loadTelemetryConfigCompat demo_yaml demo_section = Inr tel \<and> event_retention tel = 6"
    by (simp_all add: loadNetworkConfigCompat_def loadTelemetryConfigCompat_def demo_loaders demo_section_def
        set_present_def readPositiveDurationHours_def)
  then obtain net tel where l: "loadNetworkConfigCompat demo_yaml demo_section = Inr net"
    "loadTelemetryConfigCompat demo_yaml demo_section = Inr tel" "event_retention tel = 6" by blast
  have "optionalScalar demo_yaml (read_string demo_yaml) demo_section ''bind_address'' ''network'' = Inr (Some ''127.0.0.1'')"
    by (simp add: demo_loaders demo_section_def)
  then have "bind_address net = ''127.0.0.1''" using section_key_precedence [OF l(1,2)] by auto
  with l show ?thesis by auto
qed

text \<open>Reloading: a file that no longer loads leaves the configuration in force, so the current one is
  always the result of a successful load.\<close>

inductive config_run :: "'n yaml_lib \<Rightarrow> (string \<Rightarrow> 'e \<Rightarrow> (config_error + 'n) \<times> 'e) \<Rightarrow> config_manager \<Rightarrow> bool"
  for L load_document where
  constructed: "make_config_manager L load_document path e = (Inr m, e') \<Longrightarrow> config_run L load_document m"
| reloaded: "config_run L load_document m \<Longrightarrow> config_reload L load_document m e = (err, m', e') \<Longrightarrow> config_run L load_document m'"

lemma current_was_loaded: "config_run L load_document m \<Longrightarrow> \<exists>doc. parseConfig L doc = Inr (config_current m)"
proof (induction rule: config_run.induct)
  case (constructed path e m e')
  then show ?case
    by (auto simp: make_config_manager_def loadFromFile_def config_current_def bindE_Inr split: prod.splits sum.splits)
next
  case (reloaded m e err m' e')
  then show ?case
    by (auto simp: config_reload_def loadFromFile_def config_current_def bindE_Inr split: prod.splits sum.splits)
qed

end
