(* ===== verification/Service_Wiring.thy ===== *)
theory Service_Wiring
  imports Api_Gateway Config_Loader
begin

text \<open>
  Application::initialize: how a configuration file becomes the parts of the service, which secret
  guards which interface, which ports they listen on, and what the discovery sockets are told. The
  responder, the listener, the SSE server and the time authority are dts-common's; the model holds
  what the code passes to them.
\<close>

definition effective_sse_secret :: "'e platform \<Rightarrow> config \<Rightarrow> 'e \<Rightarrow> string \<times> 'e" where
  "effective_sse_secret P cfg e =
     (if token_secret (cfg_security cfg) \<noteq> [] \<or> allow_unauthenticated_dev_access (cfg_security cfg)
      then (token_secret (cfg_security cfg), e)
      else (let (seed, e) = steady_now P e in (''__rcc-disabled-auth-'' @ show_int seed, e)))"

record responder_config =
  rc_enabled :: bool
  rc_port :: "16 word"
  rc_startup_burst_count :: int
  rc_startup_burst_spacing_ms :: int

record service_descriptor =
  sv_service :: string
  sv_version :: string
  sv_ttl :: int
  sv_bind_address :: string
  sv_interface_hint :: "string option"
  sv_endpoints :: "string \<Rightarrow> (string \<times> string) list"

record listener_config =
  lc_enabled :: bool
  lc_port :: "16 word"
  lc_bind_address :: string

definition make_responder_config :: "config \<Rightarrow> responder_config" where
  "make_responder_config cfg = (let d = cfg_service_discovery cfg in
     \<lparr>rc_enabled = sd_enabled d, rc_port = sd_port d, rc_startup_burst_count = startup_burst_count d,
      rc_startup_burst_spacing_ms = startup_burst_spacing_ms d\<rparr>)"

definition make_service_descriptor :: "string \<Rightarrow> config \<Rightarrow> service_descriptor" where
  "make_service_descriptor version cfg = (let d = cfg_service_discovery cfg in
     \<lparr>sv_service = ''radio-service'', sv_version = version, sv_ttl = sd_ttl d, sv_bind_address = sd_bind_address d,
      sv_interface_hint = interface_hint d, sv_endpoints = discovery_endpoints cfg\<rparr>)"

definition make_listener_config :: "config \<Rightarrow> listener_config" where
  "make_listener_config cfg = (let d = cfg_service_discovery cfg in
     \<lparr>lc_enabled = sd_enabled d, lc_port = sd_port d, lc_bind_address = sd_bind_address d\<rparr>)"

text \<open>The two observers: what is reported to the time authority, as its time, source, peer and quality.\<close>

record 'q discovery_message =
  dm_service :: string
  dm_time :: "string option"
  dm_quality :: 'q

type_synonym 'q observation = "(string \<times> string \<times> string \<times> 'q) option"

definition request_observer :: "'q discovery_message \<Rightarrow> string \<Rightarrow> 'q observation" where
  "request_observer request peerAddress =
     (case dm_time request of
        None \<Rightarrow> None
      | Some t \<Rightarrow> if t = [] then None else Some (t, ''dts.discover'', peerAddress, dm_quality request))"

definition announcement_observer :: "'q discovery_message \<Rightarrow> string \<Rightarrow> 'q observation" where
  "announcement_observer announcement peerAddress =
     (if dm_service announcement = ''radio-service'' then None
      else case dm_time announcement of
        None \<Rightarrow> None
      | Some t \<Rightarrow> if t = [] then None else Some (t, dm_service announcement, peerAddress, dm_quality announcement))"

definition config_path :: "string list \<Rightarrow> string" where
  "config_path argv = (case argv of _ # path # _ \<Rightarrow> path | _ \<Rightarrow> ''/etc/rcc/config.yaml'')"

datatype startup_warning = InsecureBenchMode | RequestsRejected

definition startup_warning :: "security_config \<Rightarrow> startup_warning option" where
  "startup_warning sec =
     (if token_secret sec = [] then Some (if allow_unauthenticated_dev_access sec then InsecureBenchMode else RequestsRejected)
      else None)"

record wired_service =
  w_config :: config_manager
  w_warning :: "startup_warning option"
  w_authenticator :: authenticator
  w_sse_secret :: string
  w_sse_bind :: "string \<times> 16 word"
  w_hub :: telemetry_hub
  w_radios :: "silvus_adapter radio_manager"
  w_rest_port :: "16 word"
  w_rest_security :: "string \<times> bool"
  w_responder :: responder_config
  w_descriptor :: service_descriptor
  w_listener :: listener_config

definition app_initialize ::
  "'n yaml_lib \<Rightarrow> (string \<Rightarrow> 'e \<Rightarrow> (config_error + 'n) \<times> 'e) \<Rightarrow> 'e platform \<Rightarrow> string \<Rightarrow> string list \<Rightarrow> 'e \<Rightarrow>
   (config_error + wired_service) \<times> 'e" where
  "app_initialize L load_document P version argv e =
     (case make_config_manager L load_document (config_path argv) e of
        (Inl err, e) \<Rightarrow> (Inl err, e)
      | (Inr cm, e) \<Rightarrow>
          (let cfg = config_current cm; sec = cfg_security cfg; (secret, e) = effective_sse_secret P cfg e
           in (Inr \<lparr>w_config = cm, w_warning = startup_warning sec, w_authenticator = make_authenticator sec,
                 w_sse_secret = secret, w_sse_bind = (bind_address (cfg_network cfg), effective_sse_port cfg),
                 w_hub = initial_hub, w_radios = load_from_config cfg,
                 w_rest_port = command_port (cfg_network cfg),
                 w_rest_security = (token_secret sec, allow_unauthenticated_dev_access sec),
                 w_responder = make_responder_config cfg, w_descriptor = make_service_descriptor version cfg,
                 w_listener = make_listener_config cfg\<rparr>, e)))"

section \<open>A service that starts is closed unless it was opened\<close>

lemma initialize_config:
  assumes "app_initialize L load_document P version argv e = (Inr w, e')"
  shows "\<exists>e1. make_config_manager L load_document (config_path argv) e = (Inr (w_config w), e1) \<and>
    effective_sse_secret P (config_current (w_config w)) e1 = (w_sse_secret w, e') \<and>
    w_authenticator w = make_authenticator (cfg_security (config_current (w_config w))) \<and>
    w_warning w = startup_warning (cfg_security (config_current (w_config w))) \<and>
    w_radios w = load_from_config (config_current (w_config w))"
  using assms by (auto simp: app_initialize_def Let_def split: prod.splits sum.splits)

text \<open>C11. Closed unless opened: a service initialised from a file without a token secret and without the
  development switch warns, denies every request at every level, and guards the event stream with a
  non-empty secret; with the switch it is open and says so; with a token secret, the event stream and the
  commands are guarded by that one secret. Its radios are those of a configuration that loaded.\<close>

theorem closed_unless_opened:
  assumes "app_initialize L load_document P version argv e = (Inr w, e')"
    and "sec = cfg_security (config_current (w_config w))"
  shows "(\<exists>doc. parseConfig L doc = Inr (config_current (w_config w))) \<and>
    w_radios w = load_from_config (config_current (w_config w)) \<and>
    (if token_secret sec \<noteq> []
     then w_warning w = None \<and> validator_secret (w_authenticator w) = Some (token_secret sec) \<and>
       w_sse_secret w = token_secret sec
     else if allow_unauthenticated_dev_access sec
     then w_warning w = Some InsecureBenchMode \<and> w_sse_secret w = [] \<and>
       (\<forall>request level. allowed (authorize T (w_authenticator w) request level) \<longleftrightarrow>
          allowed_roles sec = [] \<or> required_role level \<in> set (allowed_roles sec))
     else w_warning w = Some RequestsRejected \<and> w_sse_secret w \<noteq> [] \<and>
       (\<forall>request level. authorize T (w_authenticator w) request level = denied ''Authentication required'' 401 ''UNAUTHORIZED''))"
proof -
  obtain e1 where w: "make_config_manager L load_document (config_path argv) e = (Inr (w_config w), e1)"
    "effective_sse_secret P (config_current (w_config w)) e1 = (w_sse_secret w, e')"
    "w_authenticator w = make_authenticator sec" "w_warning w = startup_warning sec"
    "w_radios w = load_from_config (config_current (w_config w))"
    using initialize_config [OF assms(1)] assms(2) by blast
  have "\<exists>doc. parseConfig L doc = Inr (config_current (w_config w))"
    using current_was_loaded [OF config_run.constructed [OF w(1)]] .
  moreover have "allowed (authorize T (w_authenticator w) request level) \<longleftrightarrow> policy T sec request level" for request level
    unfolding w(3) by (rule authorize_allowed)
  moreover have "authorize T (w_authenticator w) request level = denied ''Authentication required'' 401 ''UNAUTHORIZED''"
    if "token_secret sec = []" "\<not> allow_unauthenticated_dev_access sec" for request level
    unfolding w(3) using that by (simp add: authorize_def make_authenticator_sel)
  ultimately show ?thesis
    using w(2,4,5) assms(2)
    by (auto simp: startup_warning_def effective_sse_secret_def w(3) make_authenticator_sel policy_def split: prod.splits)
qed

definition demo_document :: "string \<Rightarrow> int \<Rightarrow> (config_error + json) \<times> int" where
  "demo_document path now = (Inr demo_file, now)"

theorem closed_unless_opened_witness:
  "\<exists>w. app_initialize demo_yaml demo_document demo ''1'' [''rcc''] 5 = (Inr w, 6) \<and> w_warning w = Some RequestsRejected \<and>
     w_sse_secret w \<noteq> []"
proof -
  have "make_config_manager demo_yaml demo_document (config_path [''rcc'']) 5 =
      (Inr \<lparr>cm_path = ''/etc/rcc/config.yaml'', cm_config = demo_loaded\<rparr>, 5)"
    by (simp add: make_config_manager_def loadFromFile_def demo_document_def demo_parse config_path_def)
  moreover have "effective_sse_secret demo demo_loaded 5 = (''__rcc-disabled-auth-'' @ show_int 5, 6)"
    by (simp add: effective_sse_secret_def demo_loaded_def default_config_def default_security_def)
  ultimately have "\<exists>w. app_initialize demo_yaml demo_document demo ''1'' [''rcc''] 5 = (Inr w, 6) \<and> config_current (w_config w) = demo_loaded"
    by (simp add: app_initialize_def config_current_def Let_def)
  then obtain w where w: "app_initialize demo_yaml demo_document demo ''1'' [''rcc''] 5 = (Inr w, 6)"
    "config_current (w_config w) = demo_loaded" by blast
  from closed_unless_opened [OF w(1) refl, of demo_tokens] w show ?thesis
    by (auto simp: demo_loaded_def default_config_def default_security_def)
qed

text \<open>The telemetry port that follows the command port wraps: after 65535 comes 0, which a socket takes as
  "any port" and which discovery announces as it is.\<close>

lemma sse_port_wraps:
  assumes "sse_port (cfg_telemetry cfg) = 0" "command_port (cfg_network cfg) = 65535"
  shows "effective_sse_port cfg = 0"
    and "map_of (discovery_endpoints cfg host) ''sse'' = Some (''http://'' @ host @ '':'' @ show_nat 0 @ ''/api/v1/telemetry'')"
  using assms by (simp_all add: effective_sse_port_def discovery_endpoints_def Let_def)

section \<open>Application::start\<close>

text \<open>After the telemetry hub, the radios and the gateway have started, the discovery sockets are opened
  when the configuration asks for them; the notes are what the code writes to the console about it. How
  the sockets open is a parameter.\<close>

datatype discovery_note = ResponderStarted "16 word" | ResponderFailedOpen | ListenerFailedOpen

definition start_discovery ::
  "config \<Rightarrow> ('e \<Rightarrow> bool \<times> 'e) \<Rightarrow> ('e \<Rightarrow> bool \<times> 'e) \<Rightarrow> 'e \<Rightarrow> discovery_note list \<times> 'e" where
  "start_discovery cfg start_responder start_listener e =
     (let d = cfg_service_discovery cfg in
      if sd_enabled d
      then (let (up, e) = start_responder e; (listening, e) = start_listener e
            in ((if up then ResponderStarted (sd_port d) else ResponderFailedOpen) #
                (if listening then [] else [ListenerFailedOpen]), e))
      else ([], e))"

definition application_start ::
  "'e platform \<Rightarrow> config \<Rightarrow> ('e \<Rightarrow> bool \<times> 'e) \<Rightarrow> ('e \<Rightarrow> bool \<times> 'e) \<Rightarrow> 'e \<Rightarrow>
   (discovery_note list \<times> (silvus_adapter, 'e) rcc_system) option" where
  "application_start P cfg start_responder start_listener e =
     do { s \<leftarrow> app_start P cfg e;
          let (notes, e) = start_discovery cfg start_responder start_listener (sys_env s);
          Some (notes, s\<lparr>sys_env := e\<rparr>) }"

text \<open>Discovery fails open: whatever its sockets do, the service that starts is the same.\<close>

lemma discovery_fails_open:
  assumes "application_start P cfg R L e = Some (notes, s)"
  obtains s0 e' where "app_start P cfg e = Some s0" "s = s0\<lparr>sys_env := e'\<rparr>"
proof -
  obtain s0 where s0: "app_start P cfg e = Some s0" using assms by (auto simp: application_start_def bind_eq_Some_conv)
  with assms have "s = s0\<lparr>sys_env := snd (start_discovery cfg R L (sys_env s0))\<rparr>"
    by (simp add: application_start_def Let_def split: prod.splits)
  with s0 show ?thesis by (rule that)
qed

end
