(* ===== verification/Silvus_Mock.thy ===== *)
theory Silvus_Mock
  imports Silvus_Adapter
begin

text \<open>
  The simulated radio, silvus-mock/src/silvus_mock.cpp, http_server.cpp and maintenance_server.cpp: the JSON-RPC methods over
  the state of one radio, with the blackout that follows a change of frequency. A reply is the JSON
  the code returns, or Threw for a nlohmann exception that leaves handle_jsonrpc (its caller turns it
  into an internal error). None is undefined behaviour: a floating-point parameter that no int holds.
  Times are nanoseconds of the steady clock. what is the text of a nlohmann exception.
\<close>

record mock_profile =
  mp_frequencies :: "string list"
  mp_bandwidth :: string
  mp_antenna_mask :: string

record silvus_mock =
  current_frequency_text :: string
  current_power_dBm :: int
  mock_enable_max_power :: bool
  max_link_distance_m :: int
  gps_lat :: string
  gps_lon :: string
  gps_alt :: string
  gps_mode :: string
  gps_time :: string
  blackout_until :: int
  soft_boot_duration :: int
  power_change_duration :: int
  radio_reset_duration :: int
  mock_profiles :: "mock_profile list"

definition make_mock :: "string \<Rightarrow> silvus_mock" where
  "make_mock now_text =
     \<lparr>current_frequency_text = ''4700.0'', current_power_dBm = 30, mock_enable_max_power = False,
      max_link_distance_m = 10000, gps_lat = ''0.0'', gps_lon = ''0.0'', gps_alt = ''0.0'',
      gps_mode = ''unlocked'', gps_time = now_text, blackout_until = 0,
      soft_boot_duration = 30 * 10 ^ 9, power_change_duration = 0, radio_reset_duration = 60 * 10 ^ 9,
      mock_profiles =
        [\<lparr>mp_frequencies = [''2200:20:2380'', ''4700''], mp_bandwidth = ''-1'', mp_antenna_mask = ''15''\<rparr>,
         \<lparr>mp_frequencies = [''4420:40:4700''], mp_bandwidth = ''-1'', mp_antenna_mask = ''3''\<rparr>,
         \<lparr>mp_frequencies = [''4700:20:4980''], mp_bandwidth = ''-1'', mp_antenna_mask = ''12''\<rparr>]\<rparr>"

definition profile_json :: "mock_profile \<Rightarrow> json" where
  "profile_json p = JObject [(''frequencies'', JArray (map JString (mp_frequencies p))),
     (''bandwidth'', JString (mp_bandwidth p)), (''antenna_mask'', JString (mp_antenna_mask p))]"

definition almost_equal :: "double \<Rightarrow> double \<Rightarrow> bool" where
  "almost_equal a b \<longleftrightarrow> flt \<bar>a - b\<bar> (lit (1 / 1000000))"

fun split_colon :: "string \<Rightarrow> string list" where
  "split_colon [] = [[]]"
| "split_colon (c # s) = (if c = CHR '':'' then [] # split_colon s
     else (case split_colon s of [] \<Rightarrow> [[c]] | part # parts \<Rightarrow> (c # part) # parts))"

definition frequency_matches_profile :: "double \<Rightarrow> string \<Rightarrow> bool" where
  "frequency_matches_profile freq profile =
     (if CHR '':'' \<notin> set profile then (case stod profile of None \<Rightarrow> False | Some value \<Rightarrow> almost_equal freq value)
      else (case split_colon profile of
        [a, b, c] \<Rightarrow>
          (case (stod a, stod b, stod c) of
            (Some low, Some step, Some high) \<Rightarrow>
              (if fle step (Fin 0) \<or> flt high low then False
               else if flt freq (low - lit (1 / 1000000)) \<or> flt (high + lit (1 / 1000000)) freq then False
               else (let delta = freq - low; steps = fround (delta / step); candidate = low + steps * step
                     in almost_equal candidate freq))
          | _ \<Rightarrow> False)
      | _ \<Rightarrow> False))"

definition validate_frequency :: "silvus_mock \<Rightarrow> string \<Rightarrow> bool" where
  "validate_frequency m freqStr =
     (case stod freqStr of None \<Rightarrow> False
      | Some freq \<Rightarrow> list_ex (\<lambda>p. list_ex (frequency_matches_profile freq) (mp_frequencies p)) (mock_profiles m))"

definition to_mw :: "int \<Rightarrow> double" where
  "to_mw dbm = fpow10 (Fin (of_int dbm) / Fin 10)"

definition parse_double_in_range :: "json \<Rightarrow> double \<Rightarrow> double \<Rightarrow> bool" where
  "parse_double_in_range value low high =
     (case (case json_number value of Some d \<Rightarrow> Some d
            | None \<Rightarrow> (case value of JString s \<Rightarrow> stod s | _ \<Rightarrow> None)) of
        None \<Rightarrow> False
      | Some parsed \<Rightarrow> fle low parsed \<and> fle parsed high)"

definition make_error :: "int \<Rightarrow> string \<Rightarrow> string \<Rightarrow> json \<Rightarrow> json" where
  "make_error code message data rid =
     JObject [(''jsonrpc'', JString ''2.0''),
       (''error'', JObject ([(''code'', JInt code), (''message'', JString message)] @
          (if data = [] then [] else [(''data'', JString data)]))),
       (''id'', rid)]"

definition make_result :: "json list \<Rightarrow> json \<Rightarrow> json" where
  "make_result payload rid = JObject [(''jsonrpc'', JString ''2.0''), (''result'', JArray payload), (''id'', rid)]"

definition invalid_range :: "string \<Rightarrow> json \<Rightarrow> json" where
  "invalid_range data rid = make_error (-32002) ''INVALID_RANGE'' data rid"

definition read_only :: "string \<Rightarrow> json list \<Rightarrow> json \<Rightarrow> json list \<Rightarrow> json" where
  "read_only method params rid payload =
     (if params = [] then make_result payload rid
      else make_error (-32602) ''INVALID_RANGE'' (method @ '' is read-only'') rid)"

definition acknowledged :: "json \<Rightarrow> json" where
  "acknowledged rid = make_result [JString []] rid"

definition param_text :: "'e platform \<Rightarrow> json \<Rightarrow> string" where
  "param_text P j = (case j of JString s \<Rightarrow> s | _ \<Rightarrow> json_dump P j)"

text \<open>params[0].is_number() ? get<int>() : stoi(get<string>()): the inner option is the caught exception.\<close>

definition param_int :: "json \<Rightarrow> int option option" where
  "param_int j =
     (case j of
        JInt i \<Rightarrow> Some (Some (int32_of i))
      | JFloat d \<Rightarrow> map_option Some (to_int32 d)
      | JString s \<Rightarrow> Some (stoi s)
      | _ \<Rightarrow> Some None)"

definition mock_freq where
  "mock_freq P params rid m e =
     (case params of
        [] \<Rightarrow> (make_result [JString (current_frequency_text m)] rid, m, e)
      | p # _ \<Rightarrow>
          (let value = param_text P p
           in if \<not> validate_frequency m value then (invalid_range [] rid, m, e)
              else (let (now, e) = steady_now P e
                    in (acknowledged rid, m\<lparr>current_frequency_text := value, blackout_until := now + soft_boot_duration m\<rparr>, e))))"

definition mock_power where
  "mock_power P params rid m e =
     (case params of
        [] \<Rightarrow> Some (make_result [JString (show_int (current_power_dBm m))] rid, m, e)
      | p # _ \<Rightarrow>
          do { v \<leftarrow> param_int p;
               Some (case v of
                 None \<Rightarrow> (invalid_range [] rid, m, e)
               | Some pw \<Rightarrow>
                   if pw < 0 \<or> 39 < pw then (invalid_range [] rid, m, e)
                   else (let m = (if \<not> mock_enable_max_power m then m\<lparr>current_power_dBm := pw\<rparr> else m)
                         in if 0 < power_change_duration m
                            then (let (now, e) = steady_now P e
                                  in (acknowledged rid, m\<lparr>blackout_until := now + power_change_duration m\<rparr>, e))
                            else (acknowledged rid, m, e))) })"

definition mock_enable where
  "mock_enable P params rid m =
     (case params of
        [] \<Rightarrow> (make_result [JString (if mock_enable_max_power m then ''1'' else ''0'')] rid, m)
      | p # _ \<Rightarrow>
          (let value = param_text P p
           in if value = ''1'' \<or> value = ''true'' \<or> value = ''on'' then (acknowledged rid, m\<lparr>mock_enable_max_power := True\<rparr>)
              else if value = ''0'' \<or> value = ''false'' \<or> value = ''off'' then (acknowledged rid, m\<lparr>mock_enable_max_power := False\<rparr>)
              else (invalid_range ''enable_max_power expects 0 or 1'' rid, m)))"

definition mock_distance where
  "mock_distance params rid m =
     (case params of
        [] \<Rightarrow> Some (make_result [JString (show_int (max_link_distance_m m))] rid, m)
      | p # _ \<Rightarrow>
          do { v \<leftarrow> param_int p;
               Some (case v of
                 None \<Rightarrow> (invalid_range ''Invalid distance'' rid, m)
               | Some d \<Rightarrow> if d < 0 \<or> 1000000 < d then (invalid_range ''Distance out of range'' rid, m)
                           else (acknowledged rid, m\<lparr>max_link_distance_m := d\<rparr>)) })"

definition mock_gps where
  "mock_gps P params rid m =
     (case params of
        [] \<Rightarrow> (make_result [JString (gps_lat m), JString (gps_lon m), JString (gps_alt m)] rid, m)
      | [lat, lon, alt] \<Rightarrow>
          if \<not> parse_double_in_range lat (Fin (-90)) (Fin 90) \<or> \<not> parse_double_in_range lon (Fin (-180)) (Fin 180) \<or>
             \<not> parse_double_in_range alt (Fin (-12400)) (Fin 42000)
          then (invalid_range ''GPS coordinate out of range'' rid, m)
          else (acknowledged rid, m\<lparr>gps_lat := param_text P lat, gps_lon := param_text P lon, gps_alt := param_text P alt\<rparr>)
      | _ \<Rightarrow> (make_error (-32602) ''INVALID_RANGE'' ''gps_coordinates requires three parameters'' rid, m))"

definition factory_defaults :: "silvus_mock \<Rightarrow> silvus_mock" where
  "factory_defaults m = m\<lparr>current_frequency_text := ''2490.0'', current_power_dBm := 30, mock_enable_max_power := False\<rparr>"

definition mock_method ::
  "'e platform \<Rightarrow> string \<Rightarrow> json list \<Rightarrow> json \<Rightarrow> silvus_mock \<Rightarrow> 'e \<Rightarrow> (json \<times> silvus_mock \<times> 'e) option" where
  "mock_method P method params rid m e =
     (let pure = (\<lambda>(r, m). Some (r, m, e))
      in if method = ''freq'' then Some (mock_freq P params rid m e)
      else if method = ''power_dBm'' then mock_power P params rid m e
      else if method = ''enable_max_power'' then pure (mock_enable P params rid m)
      else if method = ''supported_frequency_profiles'' then
        pure (read_only method params rid (map profile_json (mock_profiles m)), m)
      else if method = ''read_power_dBm'' then
        pure (read_only method params rid [JString (show_int (current_power_dBm m))], m)
      else if method = ''read_power_mw'' then
        (if params \<noteq> [] then pure (read_only method params rid [], m)
         else do { mw \<leftarrow> to_int32 (fround (to_mw (current_power_dBm m)));
                   pure (make_result [JString (show_int mw)] rid, m) })
      else if method = ''max_link_distance'' then Option.bind (mock_distance params rid m) pure
      else if method = ''gps_coordinates'' then pure (mock_gps P params rid m)
      else if method = ''gps_mode'' then pure (read_only method params rid [JString (gps_mode m)], m)
      else if method = ''gps_time'' then pure (read_only method params rid [JString (gps_time m)], m)
      else if method = ''zeroize'' then pure (acknowledged rid, (factory_defaults m)\<lparr>blackout_until := 0\<rparr>)
      else if method = ''radio_reset'' then
        (let (now, e) = steady_now P e in Some (acknowledged rid, m\<lparr>blackout_until := now + radio_reset_duration m\<rparr>, e))
      else if method = ''factory_reset'' then pure (acknowledged rid, factory_defaults m)
      else pure (make_error (-32601) ''Method not found'' [] rid, m))"

definition is_available :: "'e platform \<Rightarrow> silvus_mock \<Rightarrow> 'e \<Rightarrow> bool \<times> 'e" where
  "is_available P m e = (let (now, e) = steady_now P e in (blackout_until m \<le> now, e))"

datatype mock_reply = Reply json | Threw

definition params_of :: "json \<Rightarrow> json list" where
  "params_of req = (case json_find ''params'' req of None \<Rightarrow> [] | Some (JArray ps) \<Rightarrow> ps | Some j \<Rightarrow> [j])"

text \<open>The guard of line 158: req.value("jsonrpc", "") throws for a value that is not a string, and
  req.value("id", nullptr) for a request that is not an object or an id that is not null.\<close>

definition invalid_request :: "json \<Rightarrow> mock_reply" where
  "invalid_request req =
     (case req of
        JObject kvs \<Rightarrow> (case map_of kvs ''id'' of
            None \<Rightarrow> Reply (make_error (-32600) ''Invalid Request'' [] JNull)
          | Some JNull \<Rightarrow> Reply (make_error (-32600) ''Invalid Request'' [] JNull)
          | Some _ \<Rightarrow> Threw)
      | _ \<Rightarrow> Threw)"

datatype request_shape = Malformed | ThrowsOnVersion | Wellformed json

definition request_shape :: "json \<Rightarrow> request_shape" where
  "request_shape req =
     (case req of
        JObject kvs \<Rightarrow>
          (case map_of kvs ''jsonrpc'' of
             Some (JString v) \<Rightarrow>
               (if v \<noteq> ''2.0'' then Malformed
                else (case map_of kvs ''method'' of None \<Rightarrow> Malformed | Some meth \<Rightarrow> Wellformed meth))
           | None \<Rightarrow> Malformed
           | Some _ \<Rightarrow> ThrowsOnVersion)
      | _ \<Rightarrow> Malformed)"

definition handle_jsonrpc ::
  "string \<Rightarrow> 'e platform \<Rightarrow> json \<Rightarrow> silvus_mock \<Rightarrow> 'e \<Rightarrow> (mock_reply \<times> silvus_mock \<times> 'e) option" where
  "handle_jsonrpc what P req m e =
     (case request_shape req of
        Malformed \<Rightarrow> Some (invalid_request req, m, e)
      | ThrowsOnVersion \<Rightarrow> Some (Threw, m, e)
      | Wellformed meth \<Rightarrow>
          (let rid = (case json_find ''id'' req of None \<Rightarrow> JNull | Some j \<Rightarrow> j)
           in case meth of
                JString method \<Rightarrow>
                  (let (available, e) = is_available P m e
                   in if \<not> available then Some (Reply (make_error (-32000) ''UNAVAILABLE'' [] rid), m, e)
                      else map_option (\<lambda>(r, m, e). (Reply r, m, e)) (mock_method P method (params_of req) rid m e))
              | _ \<Rightarrow> Some (Reply (make_error (-32603) (''Internal error: '' @ what) [] rid), m, e)))"

fun handle_batch ::
  "string \<Rightarrow> 'e platform \<Rightarrow> json list \<Rightarrow> silvus_mock \<Rightarrow> 'e \<Rightarrow> (json list option \<times> silvus_mock \<times> 'e) option" where
  "handle_batch what P [] m e = Some (Some [], m, e)"
| "handle_batch what P (req # reqs) m e =
     do { (r, m, e) \<leftarrow> handle_jsonrpc what P req m e;
          case r of
            Threw \<Rightarrow> Some (None, m, e)
          | Reply j \<Rightarrow> do { (js, m, e) \<leftarrow> handle_batch what P reqs m e;
                            Some (map_option (\<lambda>js. j # js) js, m, e) } }"

definition internal_error :: "string \<Rightarrow> json" where
  "internal_error what = make_error (-32603) (''Internal error: '' @ what) [] JNull"

definition handle_jsonrpc_text ::
  "string \<Rightarrow> 'e platform \<Rightarrow> string \<Rightarrow> silvus_mock \<Rightarrow> 'e \<Rightarrow> (string \<times> silvus_mock \<times> 'e) option" where
  "handle_jsonrpc_text what P payload m e =
     (case json_parse P payload of
        None \<Rightarrow> Some (json_dump P (make_error (-32700) ''Parse error'' [] JNull), m, e)
      | Some (JArray reqs) \<Rightarrow>
          do { (rs, m, e) \<leftarrow> handle_batch what P reqs m e;
               Some (json_dump P (case rs of Some js \<Rightarrow> JArray js | None \<Rightarrow> internal_error what), m, e) }
      | Some req \<Rightarrow>
          do { (r, m, e) \<leftarrow> handle_jsonrpc what P req m e;
               Some (json_dump P (case r of Reply j \<Rightarrow> j | Threw \<Rightarrow> internal_error what), m, e) })"

definition get_status :: "'e platform \<Rightarrow> silvus_mock \<Rightarrow> 'e \<Rightarrow> json \<times> 'e" where
  "get_status P m e =
     (let (now, e) = steady_now P e;
          remaining = (if blackout_until m - now < 0 then 0 else (blackout_until m - now) div 10 ^ 9);
          (available, e) = is_available P m e
      in (JObject [(''frequency'', JString (current_frequency_text m)), (''power_dBm'', JInt (current_power_dBm m)),
            (''enable_max_power'', JBool (mock_enable_max_power m)), (''available'', JBool available),
            (''blackoutUntil'', JInt remaining), (''max_link_distance_m'', JInt (max_link_distance_m m)),
            (''gps_coordinates'', JObject [(''lat'', JString (gps_lat m)), (''lon'', JString (gps_lon m)), (''alt'', JString (gps_alt m))]),
            (''gps_mode'', JString (gps_mode m)), (''gps_time'', JString (gps_time m)),
            (''supported_frequency_profiles'', JArray (map profile_json (mock_profiles m)))], e))"

definition make_http_response :: "string \<Rightarrow> string \<Rightarrow> string" where
  "make_http_response body contentType =
     ''HTTP/1.1 200 OK'' @ crlf @ ''Content-Type: '' @ contentType @ crlf @
     ''Content-Length: '' @ show_nat (length body) @ crlf @ ''Connection: close'' @ crlf @ crlf @ body"

definition serve_api ::
  "string \<Rightarrow> 'e platform \<Rightarrow> string \<Rightarrow> silvus_mock \<Rightarrow> 'e \<Rightarrow> (string \<times> silvus_mock \<times> 'e) option" where
  "serve_api what P body m e =
     (if body = [] then
        Some (make_http_response ''{\"jsonrpc\":\"2.0\",\"error\":{\"code\":-32600,\"message\":\"Invalid Request\"},\"id\":null}''
                ''application/json'', m, e)
      else do { (response, m, e) \<leftarrow> handle_jsonrpc_text what P body m e;
                Some (make_http_response response ''application/json'', m, e) })"


definition serve_status :: "'e platform \<Rightarrow> silvus_mock \<Rightarrow> 'e \<Rightarrow> string \<times> 'e" where
  "serve_status P m e = (case get_status P m e of (status, e') \<Rightarrow> (make_http_response (json_dump P status) ''application/json'', e'))"

text \<open>The routes of the HTTP port; index_html stands for the text of the page of web_assets.cpp.\<close>

definition mock_route ::
  "string \<Rightarrow> 'e platform \<Rightarrow> string \<Rightarrow> string \<Rightarrow>
   (string \<Rightarrow> silvus_mock \<Rightarrow> 'e \<Rightarrow> (string \<times> silvus_mock \<times> 'e) option) option" where
  "mock_route what P index_html path =
     (if path = ''/streamscape_api'' then Some (serve_api what P)
      else if path = ''/status'' then Some (\<lambda>body m e. let (response, e) = serve_status P m e in Some (response, m, e))
      else if path = ''/'' \<or> path = ''/index.html''
      then Some (\<lambda>body m e. Some (make_http_response index_html ''text/html'', m, e))
      else None)"

text \<open>The maintenance port, maintenance_server.cpp: one request per connection, the first line received,
  answered by one line. The outer option of the response is None when nothing is sent: an empty line, or
  a connection that closes before its newline, where read_until throws and the handler gives up.\<close>

definition handle_connection ::
  "string \<Rightarrow> 'e platform \<Rightarrow> string \<Rightarrow> silvus_mock \<Rightarrow> 'e \<Rightarrow> (string option \<times> silvus_mock \<times> 'e) option" where
  "handle_connection what P received m e =
     (if CHR 0x0A \<notin> set received then Some (None, m, e)
      else (let payload = takeWhile (\<lambda>c. c \<noteq> CHR 0x0A) received
            in if payload = [] then Some (None, m, e)
            else do { (response, m, e) \<leftarrow> handle_jsonrpc_text what P payload m e;
                      Some (Some (if response = [] \<or> last response \<noteq> CHR 0x0A then response @ [CHR 0x0A] else response), m, e) }))"

text \<open>The ports of main.cpp, from the environment.\<close>

definition env_port :: "string option \<Rightarrow> int \<Rightarrow> int" where
  "env_port value fallback = (case value of None \<Rightarrow> fallback | Some v \<Rightarrow> (case stoi v of Some n \<Rightarrow> n | None \<Rightarrow> fallback))"

section \<open>What every request keeps\<close>

text \<open>The constants of the constructor: no method changes them.\<close>

definition same_setup :: "silvus_mock \<Rightarrow> silvus_mock \<Rightarrow> bool" where
  "same_setup m m' \<longleftrightarrow> mock_profiles m' = mock_profiles m \<and> soft_boot_duration m' = soft_boot_duration m \<and>
     power_change_duration m' = power_change_duration m \<and> radio_reset_duration m' = radio_reset_duration m"

lemma validate_frequency_cong: "mock_profiles m' = mock_profiles m \<Longrightarrow> validate_frequency m' = validate_frequency m"
  by (simp add: fun_eq_iff validate_frequency_def cong: option.case_cong)

lemma validate_frequency_update [simp]:
  "validate_frequency (m\<lparr>blackout_until := t\<rparr>) = validate_frequency m"
  "validate_frequency (m\<lparr>mock_enable_max_power := b\<rparr>) = validate_frequency m"
  "validate_frequency (m\<lparr>gps_lat := la, gps_lon := lo, gps_alt := al\<rparr>) = validate_frequency m"
  "validate_frequency (m\<lparr>current_frequency_text := f, blackout_until := t\<rparr>) = validate_frequency m"
  "validate_frequency (m\<lparr>current_frequency_text := f\<rparr>) = validate_frequency m"
  "validate_frequency (m\<lparr>current_power_dBm := p\<rparr>) = validate_frequency m"
  "validate_frequency (m\<lparr>current_power_dBm := p, blackout_until := t\<rparr>) = validate_frequency m"
  "validate_frequency (m\<lparr>max_link_distance_m := d\<rparr>) = validate_frequency m"
  by (rule validate_frequency_cong, simp)+

text \<open>The well-formedness of a mock's state, relative to its constants.\<close>

definition mock_ok :: "silvus_mock \<Rightarrow> bool" where
  "mock_ok m \<longleftrightarrow> current_power_dBm m \<in> {0..39} \<and> max_link_distance_m m \<in> {0..1000000} \<and>
     (validate_frequency m (current_frequency_text m) \<or> current_frequency_text m = ''2490.0'')"

definition step_keeps :: "silvus_mock \<Rightarrow> silvus_mock \<Rightarrow> bool" where
  "step_keeps m m' \<longleftrightarrow> same_setup m m' \<and> (mock_ok m \<longrightarrow> mock_ok m')"

lemma step_keeps_refl [simp]: "step_keeps m m"
  by (simp add: step_keeps_def same_setup_def)

lemma step_keeps_trans: "step_keeps m m' \<Longrightarrow> step_keeps m' m'' \<Longrightarrow> step_keeps m m''"
  by (auto simp: step_keeps_def same_setup_def)

lemma step_keeps_updates [simp]:
  "step_keeps m (m\<lparr>blackout_until := t\<rparr>)"
  "step_keeps m (m\<lparr>mock_enable_max_power := b\<rparr>)"
  "step_keeps m (m\<lparr>gps_lat := la, gps_lon := lo, gps_alt := al\<rparr>)"
  "validate_frequency m f \<Longrightarrow> step_keeps m (m\<lparr>current_frequency_text := f, blackout_until := t\<rparr>)"
  "0 \<le> p \<Longrightarrow> p \<le> 39 \<Longrightarrow> step_keeps m (m\<lparr>current_power_dBm := p\<rparr>)"
  "0 \<le> p \<Longrightarrow> p \<le> 39 \<Longrightarrow> step_keeps m (m\<lparr>current_power_dBm := p, blackout_until := t\<rparr>)"
  "0 \<le> d \<Longrightarrow> d \<le> 1000000 \<Longrightarrow> step_keeps m (m\<lparr>max_link_distance_m := d\<rparr>)"
  "step_keeps m (factory_defaults m)"
  "step_keeps m ((factory_defaults m)\<lparr>blackout_until := t\<rparr>)"
  by (auto simp: step_keeps_def same_setup_def mock_ok_def factory_defaults_def)

lemma mock_freq_keeps: "mock_freq P params rid m e = (r, m', e') \<Longrightarrow> step_keeps m m'"
  by (auto simp: mock_freq_def Let_def split: list.splits if_splits prod.splits)

lemma mock_power_keeps: "mock_power P params rid m e = Some (r, m', e') \<Longrightarrow> step_keeps m m'"
proof (cases params)
  case (Cons p ps)
  assume step: "mock_power P params rid m e = Some (r, m', e')"
  then obtain v where v: "param_int p = Some v" by (cases "param_int p") (auto simp: mock_power_def Cons)
  show ?thesis
  proof (cases "v = None \<or> (\<exists>pw. v = Some pw \<and> (pw < 0 \<or> 39 < pw))")
    case True
    with step v show ?thesis by (auto simp: mock_power_def Cons)
  next
    case False
    then obtain pw where "v = Some pw" "0 \<le> pw" "pw \<le> 39" by (cases v) auto
    with step v show ?thesis by (cases "steady_now P e") (auto simp: mock_power_def Cons Let_def split: if_splits)
  qed
qed (auto simp: mock_power_def)

lemma mock_enable_keeps: "mock_enable P params rid m = (r, m') \<Longrightarrow> step_keeps m m'"
  by (auto simp: mock_enable_def Let_def split: list.splits if_splits)

lemma mock_distance_keeps: "mock_distance params rid m = Some (r, m') \<Longrightarrow> step_keeps m m'"
  by (auto simp: mock_distance_def bind_eq_Some_conv split: list.splits option.splits if_splits)

lemma mock_gps_keeps: "mock_gps P params rid m = (r, m') \<Longrightarrow> step_keeps m m'"
  by (auto simp: mock_gps_def split: list.splits if_splits)

lemma mock_method_keeps: "mock_method P method params rid m e = Some (r, m', e') \<Longrightarrow> step_keeps m m'"
  by (auto simp: mock_method_def Let_def bind_eq_Some_conv split: if_splits prod.splits
      dest: mock_freq_keeps mock_power_keeps mock_enable_keeps mock_distance_keeps mock_gps_keeps)

lemma handle_jsonrpc_keeps: "handle_jsonrpc what P req m e = Some (r, m', e') \<Longrightarrow> step_keeps m m'"
  by (auto simp: handle_jsonrpc_def Let_def split: request_shape.splits json.splits prod.splits if_splits
      dest: mock_method_keeps)

lemma handle_batch_keeps: "handle_batch what P reqs m e = Some (rs, m', e') \<Longrightarrow> step_keeps m m'"
proof (induction reqs arbitrary: m e rs)
  case (Cons req reqs)
  from Cons.prems obtain r m1 e1 where one: "handle_jsonrpc what P req m e = Some (r, m1, e1)"
    by (auto simp: bind_eq_Some_conv)
  have "step_keeps m1 m'"
    using Cons.prems one by (cases r) (auto simp: bind_eq_Some_conv dest: Cons.IH)
  with handle_jsonrpc_keeps [OF one] show ?case by (rule step_keeps_trans)
qed simp

lemma handle_jsonrpc_text_keeps: "handle_jsonrpc_text what P payload m e = Some (r, m', e') \<Longrightarrow> step_keeps m m'"
  by (auto simp: handle_jsonrpc_text_def bind_eq_Some_conv split: option.splits json.splits
      dest: handle_jsonrpc_keeps handle_batch_keeps)

lemma handle_connection_keeps: "handle_connection what P received m e = Some (r, m', e') \<Longrightarrow> step_keeps m m'"
  by (auto simp: handle_connection_def Let_def bind_eq_Some_conv split: if_splits dest: handle_jsonrpc_text_keeps)

lemma serve_api_keeps: "serve_api what P body m e = Some (r, m', e') \<Longrightarrow> step_keeps m m'"
  by (auto simp: serve_api_def bind_eq_Some_conv split: if_splits dest: handle_jsonrpc_text_keeps)

lemma mock_route_keeps:
  "mock_route what P index_html path = Some handler \<Longrightarrow> handler body m e = Some (r, m', e') \<Longrightarrow> step_keeps m m'"
  by (auto simp: mock_route_def split: if_splits prod.splits dest: serve_api_keeps)

end
