(* ===== verification/Mock_Agreement.thy ===== *)
theory Mock_Agreement
  imports Silvus_Mock
begin

text \<open>
  What the simulated radio promises and how it agrees with the adapter: the invariant of every
  reachable state, the blackout after a change of frequency, the equivalence between the channels
  the adapter expands from a profile and the frequencies the mock accepts, and the framing of its
  replies as the adapter's HTTP client reads them.
\<close>

section \<open>Profile entries of whole megahertz\<close>

lemma lit_micro: "\<exists>t. lit (1 / 1000000) = Fin t \<and> 0 < t \<and> t \<le> 1 / 2"
proof -
  have "0 < rnd (1 / 1000000)" using rnd_rel_error(1) [of "1 / 1000000"] by simp
  moreover have "rnd (1 / 1000000) \<le> 1 / 2" using rnd_rel_error(2) [of "1 / 1000000"] by simp
  ultimately show ?thesis by (auto simp: lit_def rnd64_small)
qed

lemma almost_equal_ints:
  assumes "\<bar>a\<bar> \<le> 2 ^ 52" "\<bar>b\<bar> \<le> 2 ^ 52"
  shows "almost_equal (Fin (of_int a)) (Fin (of_int b)) \<longleftrightarrow> a = b"
proof -
  obtain t where t: "lit (1 / 1000000) = Fin t" "0 < t" "t \<le> 1 / 2" using lit_micro by blast
  have "Fin (of_int a) - Fin (of_int b) = Fin (of_int (a - b))"
    by (rule Fin_int_arith) (use assms in auto)
  then have "almost_equal (Fin (of_int a)) (Fin (of_int b)) \<longleftrightarrow> \<bar>real_of_int (a - b)\<bar> < t"
    by (simp add: almost_equal_def t(1) del: of_int_diff minus_double_Fin)
  also have "\<dots> \<longleftrightarrow> a = b"
  proof
    assume "\<bar>real_of_int (a - b)\<bar> < t"
    then have "\<bar>real_of_int (a - b)\<bar> < 1" using t(3) by linarith
    then have "\<bar>a - b\<bar> < 1" by linarith
    then show "a = b" by simp
  qed (use t(2) in simp)
  finally show ?thesis .
qed

lemma below_low:
  assumes "0 \<le> lo" "lo \<le> 2 ^ 51"
  shows "flt (Fin (of_int v)) (Fin (of_int lo) - lit (1 / 1000000)) \<longleftrightarrow> v < lo"
proof -
  obtain t where t: "lit (1 / 1000000) = Fin t" "0 < t" "t \<le> 1 / 2" using lit_micro by blast
  have lor: "0 \<le> real_of_int lo" "real_of_int lo \<le> 2 ^ 51"
    using assms by (simp, metis of_int_le_iff of_int_numeral of_int_power)
  then have "Fin (of_int lo) - Fin t = Fin (rnd (of_int lo - t))" using t by (simp add: rnd64_small)
  moreover have "of_int lo - 1 / 2 \<le> rnd (of_int lo - t)"
    using rnd_mono [of "of_int lo - 1 / 2" "of_int lo - t"] t rnd_half_int [of "lo - 1"] assms by simp
  moreover have "rnd (of_int lo - t) \<le> of_int lo"
    using rnd_mono [of "of_int lo - t" "of_int lo"] t rnd_exact_int [of lo] assms by simp
  ultimately show ?thesis unfolding t(1) by simp linarith
qed

lemma split_colon_none: "CHR '':'' \<notin> set s \<Longrightarrow> split_colon s = [s]"
  by (induction s) auto

lemma split_colon_cons: "CHR '':'' \<notin> set a \<Longrightarrow> split_colon (a @ CHR '':'' # s) = a # split_colon s"
  by (induction a) auto

lemma split_range_text: "split_colon (range_text lo st hi) = [show_nat lo, show_nat st, show_nat hi]"
  by (simp add: range_text_def split_colon_cons split_colon_none show_nat_no_colon)

lemma above_high:
  assumes "0 \<le> hi" "hi \<le> 2 ^ 51"
  shows "flt (Fin (of_int hi) + lit (1 / 1000000)) (Fin (of_int v)) \<longleftrightarrow> hi < v"
proof -
  obtain t where t: "lit (1 / 1000000) = Fin t" using lit_micro by blast
  then have "Fin (of_int hi) + lit (1 / 1000000) \<noteq> NaN" by simp
  then show ?thesis using tolerance [OF assms, of v] by (auto simp: flt_def fle_def)
qed

lemma rounded_quotient:
  assumes "0 \<le> d" "d \<le> 2 ^ 20" "(0::int) < st"
  shows "\<exists>q. fround (Fin (of_int d) / Fin (of_int st)) = Fin (of_int q) \<and> 0 \<le> q \<and> q \<le> d \<and> (st dvd d \<longrightarrow> q * st = d)"
proof -
  have dr: "0 \<le> real_of_int d" "real_of_int d \<le> 2 ^ 20"
    using assms by (simp, metis of_int_le_iff of_int_numeral of_int_power)
  have st: "1 \<le> real_of_int st" using assms(3) by simp
  then have "real_of_int d * 1 \<le> real_of_int d * real_of_int st" using dr by (intro mult_left_mono) auto
  then have q: "0 \<le> real_of_int d / of_int st" "real_of_int d / of_int st \<le> of_int d"
    using dr st by (auto simp: field_simps)
  define r where "r = rnd (of_int d / of_int st)"
  have r: "0 \<le> r" "r \<le> of_int d"
    using rnd_mono [OF q(1)] rnd_mono [OF q(2)] rnd_exact_int [of d] assms by (auto simp: r_def)
  have "Fin (of_int d) / Fin (of_int st) = Fin r" using st q dr by (simp add: r_def rnd64_small)
  then have "fround (Fin (of_int d) / Fin (of_int st)) = Fin (of_int (round_away r))" by simp
  moreover have "0 \<le> round_away r" "round_away r \<le> d" using r unfolding round_away_def by (auto, linarith+)
  moreover have "round_away r * st = d" if "st dvd d"
  proof -
    obtain k where k: "d = st * k" using \<open>st dvd d\<close> by blast
    then have "real_of_int d / of_int st = of_int k" using assms(3) by simp
    moreover have "\<bar>k\<bar> \<le> 2 ^ 53"
    proof -
      have "0 \<le> k" using k assms(1,3) by (simp add: zero_le_mult_iff)
      moreover have "1 * k \<le> st * k" using assms(3) \<open>0 \<le> k\<close> by (intro mult_right_mono) auto
      ultimately show ?thesis using k assms(2) by simp
    qed
    ultimately have "r = of_int k" by (simp add: r_def rnd_exact_int)
    then have "round_away r = k" using round_away_close [of r k] by simp
    then show ?thesis using k by simp
  qed
  ultimately show ?thesis by blast
qed

lemma matches_range:
  assumes "0 < st" "lo \<le> hi" "hi + st \<le> 2 ^ 20"
  shows "frequency_matches_profile (Fin (of_int v)) (range_text lo st hi) \<longleftrightarrow>
    (\<exists>i. v = int (lo + st * i) \<and> lo + st * i \<le> hi)"
proof -
  have b: "lo \<le> 2 ^ 53" "st \<le> 2 ^ 53" "hi \<le> 2 ^ 53" using assms by auto
  have b2: "int lo \<le> 2 ^ 51" "int hi \<le> 2 ^ 51" "0 \<le> int hi" "0 \<le> int lo" using assms by auto
  have colon: "CHR '':'' \<in> set (range_text lo st hi)" by (simp add: range_text_def)
  have bounds: "flt (Fin (of_int v)) (Fin (real lo) - lit (1 / 1000000)) \<longleftrightarrow> v < int lo"
    "flt (Fin (real hi) + lit (1 / 1000000)) (Fin (of_int v)) \<longleftrightarrow> int hi < v"
    using below_low [OF b2(4,1), of v] above_high [OF b2(3,2), of v] by simp_all
  have shape: "frequency_matches_profile (Fin (of_int v)) (range_text lo st hi) \<longleftrightarrow>
     int lo \<le> v \<and> v \<le> int hi \<and>
     almost_equal (Fin (real lo) + fround ((Fin (of_int v) - Fin (real lo)) / Fin (real st)) * Fin (real st)) (Fin (of_int v))"
    using colon assms stod_show_nat [OF b(1)] stod_show_nat [OF b(2)] stod_show_nat [OF b(3)]
    unfolding frequency_matches_profile_def split_range_text by (auto simp: bounds Let_def simp del: minus_double_Fin)
  show ?thesis
  proof (cases "int lo \<le> v \<and> v \<le> int hi")
    case False
    have "int lo \<le> v \<and> v \<le> int hi" if "v = int (lo + st * i)" "lo + st * i \<le> hi" for i
      using that by (metis of_nat_le_iff le_add1)
    with False show ?thesis unfolding shape by blast
  next
    case True
    define d where "d = v - int lo"
    have d: "0 \<le> d" "d \<le> 2 ^ 20" "v = int lo + d" using True assms(3) by (auto simp: d_def)
    obtain q where q: "fround (Fin (of_int d) / Fin (of_int (int st))) = Fin (of_int q)" "0 \<le> q" "q \<le> d"
      "int st dvd d \<longrightarrow> q * int st = d" using rounded_quotient [of d "int st"] d assms(1) by auto
    have "q \<le> 1048576" "int st \<le> 1048576" using q(3) d(2) assms by simp_all
    then have "q * int st \<le> 1048576 * 1048576" using q(2) by (intro mult_mono) simp_all
    then have p: "0 \<le> q * int st" "q * int st \<le> 2 ^ 40" using q(2) by simp_all
    have "Fin (of_int v) - Fin (of_int (int lo)) = Fin (of_int d)"
      using Fin_int_arith(2) [of v "int lo"] d(1,2) unfolding d_def [symmetric] by simp
    moreover have "Fin (of_int q) * Fin (of_int (int st)) = Fin (of_int (q * int st))"
      by (rule Fin_int_arith(3)) (use p in simp)
    moreover have "Fin (of_int (int lo)) + Fin (of_int (q * int st)) = Fin (of_int (int lo + q * int st))"
      by (rule Fin_int_arith(1)) (use p b2 in simp)
    moreover have "almost_equal (Fin (of_int (int lo + q * int st))) (Fin (of_int v)) \<longleftrightarrow> int lo + q * int st = v"
      by (rule almost_equal_ints) (use p b2 True in auto)
    ultimately have "frequency_matches_profile (Fin (of_int v)) (range_text lo st hi) \<longleftrightarrow> q * int st = d"
      unfolding shape using True q(1) d(3) by (simp del: minus_double_Fin times_double.simps plus_double.simps of_int_add of_int_mult)
    also have "\<dots> \<longleftrightarrow> (\<exists>i. v = int (lo + st * i) \<and> lo + st * i \<le> hi)"
    proof
      assume "q * int st = d"
      then have "v = int (lo + st * nat q)" using d(3) q(2) by (simp add: mult.commute)
      then show "\<exists>i. v = int (lo + st * i) \<and> lo + st * i \<le> hi" using True by (intro exI [of _ "nat q"]) linarith
    qed (use q(4) d(3) in auto)
    finally show ?thesis .
  qed
qed

lemma matches_single:
  assumes "n \<le> 2 ^ 20" "\<bar>v\<bar> \<le> 2 ^ 52"
  shows "frequency_matches_profile (Fin (of_int v)) (show_nat n) \<longleftrightarrow> v = int n"
proof -
  have "n \<le> 2 ^ 53" "\<bar>int n\<bar> \<le> 2 ^ 52" using assms(1) by auto
  then show ?thesis
    using stod_show_nat [of n] almost_equal_ints [OF assms(2), of "int n"] show_nat_no_colon [of n]
    by (simp add: frequency_matches_profile_def)
qed

section \<open>The adapter and the mock read a profile the same way\<close>

lemma range_spec_agreement:
  assumes "0 < st" "lo \<le> hi" "hi + st \<le> 2 ^ 20"
  shows "frequency_matches_profile (Fin (of_int v)) (range_text lo st hi) \<longleftrightarrow> Fin (of_int v) \<in> set (grid lo st hi)"
  unfolding matches_range [OF assms] set_grid [OF assms(1,2)]
  by (metis double.inject of_int_eq_iff of_int_of_nat_eq)

text \<open>A profile entry: a range or a single frequency.\<close>

datatype spec = Range nat nat nat | Single nat

fun spec_text :: "spec \<Rightarrow> string" where
  "spec_text (Range lo st hi) = range_text lo st hi"
| "spec_text (Single n) = show_nat n"

fun spec_channels :: "spec \<Rightarrow> double list" where
  "spec_channels (Range lo st hi) = grid lo st hi"
| "spec_channels (Single n) = [Fin (real n)]"

fun spec_ok :: "spec \<Rightarrow> bool" where
  "spec_ok (Range lo st hi) \<longleftrightarrow> 0 < st \<and> lo \<le> hi \<and> hi + st \<le> 2 ^ 20"
| "spec_ok (Single n) \<longleftrightarrow> n \<le> 2 ^ 20"

lemma spec_matches:
  assumes "spec_ok s" "\<bar>v\<bar> \<le> 2 ^ 52"
  shows "frequency_matches_profile (Fin (of_int v)) (spec_text s) \<longleftrightarrow> Fin (of_int v) \<in> set (spec_channels s)"
proof (cases s)
  case (Range lo st hi)
  with assms(1) show ?thesis using range_spec_agreement [of st lo hi v] by simp
next
  case (Single n)
  have "real_of_int v = real n \<longleftrightarrow> v = int n" by (metis of_int_of_nat_eq of_int_eq_iff)
  with Single assms show ?thesis using matches_single [of n v] by simp
qed

lemma spec_expands:
  assumes "spec_ok s"
  shows "addFrequencySpec fs (spec_text s) = Some (fs @ spec_channels s)"
proof (cases s)
  case (Range lo st hi)
  have "(hi - lo) div st \<le> hi - lo" by (rule div_le_dividend)
  moreover have "hi - lo \<le> hi" "hi \<le> 2 ^ 20" using assms Range by simp_all
  ultimately have "(hi - lo) div st \<le> 2 ^ 20" by linarith
  moreover have "(int hi - int lo) div int st = int ((hi - lo) div st)"
    using assms Range by (simp add: zdiv_int of_nat_diff)
  ultimately have "(int hi - int lo) div int st < 2 ^ 31 - 2" by simp
  with Range assms show ?thesis using addFrequencySpec_range [of st lo hi fs] by simp
next
  case (Single n)
  with assms show ?thesis using addFrequencySpec_single [OF show_nat_no_colon stod_show_nat, of n fs] by simp
qed

lemma specs_expand:
  "list_all spec_ok specs \<Longrightarrow> add_specs fs (map spec_text specs) = Some (fs @ concat (map spec_channels specs))"
  by (induction specs arbitrary: fs) (simp_all add: spec_expands)

lemma spec_channels_whole:
  assumes "spec_ok s" "f \<in> set (spec_channels s)"
  shows "\<exists>n \<le> 2 ^ 20. f = Fin (real n)"
proof (cases s)
  case (Range lo st hi)
  with assms obtain i where "lo + st * i \<le> hi" "f = Fin (real (lo + st * i))" "hi \<le> 2 ^ 20"
    using set_grid [of st lo hi f] by auto
  then show ?thesis by (intro exI [of _ "lo + st * i"]) simp
qed (use assms in auto)

lemma silvus_whole_text:
  assumes "v \<le> 10 ^ 8"
  shows "stod (formatSilvusNumber (Fin (real v))) = Some (Fin (real v))"
proof -
  have "rnd64 (real (v * 10 ^ 6) / 10 ^ 6) = rnd64 (of_int (int v))" by simp
  also have "\<dots> = Fin (of_int (int v))" by (rule rnd64_int) (use assms in simp)
  finally have "rnd64 (real (v * 10 ^ 6) / 10 ^ 6) = Fin (real v)" by simp
  moreover have "v * 10 ^ 6 \<le> 10 ^ 14" using assms by simp
  ultimately show ?thesis using format_stod_round_trip [of "v * 10 ^ 6"] by metis
qed

lemma mock_item_specs: "item_specs (profile_json p) = mp_frequencies p"
proof -
  have "concat (map (\<lambda>entry. case entry of JString s \<Rightarrow> [s] | _ \<Rightarrow> []) (map JString ts)) = ts" for ts
    by (induction ts) auto
  then show ?thesis by (simp add: profile_json_def item_specs_def)
qed

definition profiled :: "spec list list \<Rightarrow> silvus_mock \<Rightarrow> bool" where
  "profiled specs m \<longleftrightarrow> map mp_frequencies (mock_profiles m) = map (map spec_text) specs"

lemma profiled_concat: "profiled specs m \<Longrightarrow> concat (map mp_frequencies (mock_profiles m)) = map spec_text (concat specs)"
  by (simp add: profiled_def map_concat)

lemma validate_profiled:
  assumes "profiled specs m" "list_all (list_all spec_ok) specs" "stod text = Some (Fin (of_int v))" "\<bar>v\<bar> \<le> 2 ^ 52"
  shows "validate_frequency m text \<longleftrightarrow> Fin (of_int v) \<in> set (concat (map spec_channels (concat specs)))"
proof -
  have "validate_frequency m text \<longleftrightarrow>
      (\<exists>t \<in> set (concat (map mp_frequencies (mock_profiles m))). frequency_matches_profile (Fin (of_int v)) t)"
    using assms(3) by (auto simp: validate_frequency_def list_ex_iff)
  also have "\<dots> \<longleftrightarrow> (\<exists>s \<in> set (concat specs). frequency_matches_profile (Fin (of_int v)) (spec_text s))"
    unfolding profiled_concat [OF assms(1)] by auto
  also have "\<dots> \<longleftrightarrow> (\<exists>s \<in> set (concat specs). Fin (of_int v) \<in> set (spec_channels s))"
    using assms(2) spec_matches [OF _ assms(4)] by (intro bex_cong refl) (auto simp: list_all_iff)
  also have "\<dots> \<longleftrightarrow> Fin (of_int v) \<in> set (concat (map spec_channels (concat specs)))" by auto
  finally show ?thesis .
qed

text \<open>C14. The simulated radio and the adapter read a profile the same way: the adapter's expansion of the
  reply to supported_frequency_profiles lists a whole number of megahertz exactly when the mock accepts
  it, in the text the adapter sends, as a frequency to switch to.\<close>

theorem mock_and_adapter_agree:
  assumes "profiled specs m" "list_all (list_all spec_ok) specs" "v \<le> 10 ^ 8"
  shows "\<exists>reply fs. mock_method P ''supported_frequency_profiles'' [] rid m e = Some (reply, m, e) \<and>
    parseSupportedFrequencies reply = Some fs \<and> sorted fs \<and> distinct fs \<and>
    (validate_frequency m (formatSilvusNumber (Fin (real v))) \<longleftrightarrow> Fin (real v) \<in> set fs)"
proof -
  let ?all = "concat (map spec_channels (concat specs))"
  have "NaN \<notin> set ?all" using assms(2) spec_channels_whole by (fastforce simp: list_all_iff)
  then obtain fs where fs: "sort_unique ?all = Some fs" "sorted fs" "distinct fs" "set fs = set ?all"
    using sort_unique_spec by blast
  have "list_all spec_ok (concat specs)" using assms(2) by (auto simp: list_all_iff)
  then have "add_specs [] (concat (map item_specs (map profile_json (mock_profiles m)))) = Some ?all"
    using specs_expand [of "concat specs" "[]"] profiled_concat [OF assms(1)]
    by (simp add: mock_item_specs o_def)
  then have "parseSupportedFrequencies (make_result (map profile_json (mock_profiles m)) rid) = Some fs"
    using fs(1) by (simp add: parseSupportedFrequencies_def make_result_def)
  moreover have "validate_frequency m (formatSilvusNumber (Fin (real v))) \<longleftrightarrow> Fin (real v) \<in> set ?all"
    using validate_profiled [OF assms(1,2), of _ "int v"] silvus_whole_text [OF assms(3)] assms(3) by simp
  ultimately show ?thesis using fs by (auto simp: mock_method_def read_only_def)
qed

definition own_specs :: "spec list list" where
  "own_specs = [[Range 2200 20 2380, Single 4700], [Range 4420 40 4700], [Range 4700 20 4980]]"

lemma digit_chars:
  "digit_char 0 = CHR ''0''" "digit_char 1 = CHR ''1''" "digit_char 2 = CHR ''2''" "digit_char 3 = CHR ''3''"
  "digit_char 4 = CHR ''4''" "digit_char 5 = CHR ''5''" "digit_char 6 = CHR ''6''" "digit_char 7 = CHR ''7''"
  "digit_char 8 = CHR ''8''" "digit_char 9 = CHR ''9''"
  by code_simp+

lemma own_profiles: "profiled own_specs (make_mock t)" "list_all (list_all spec_ok) own_specs"
proof -
  have "show_nat 20 = ''20''" "show_nat 40 = ''40''" "show_nat 2200 = ''2200''" "show_nat 2380 = ''2380''"
    "show_nat 4420 = ''4420''" "show_nat 4700 = ''4700''" "show_nat 4980 = ''4980''" by (simp_all add: show_nat.simps digit_chars)
  then show "profiled own_specs (make_mock t)"
    by (simp add: profiled_def own_specs_def make_mock_def range_text_def)
  show "list_all (list_all spec_ok) own_specs" by (simp add: own_specs_def)
qed

lemma own_channels:
  "Fin (real v) \<in> set (concat (map spec_channels (concat own_specs))) \<longleftrightarrow>
     (\<exists>i. v = 2200 + 20 * i \<and> v \<le> 2380) \<or> (\<exists>i. v = 4420 + 40 * i \<and> v \<le> 4700) \<or> (\<exists>i. v = 4700 + 20 * i \<and> v \<le> 4980)"
proof -
  have "Fin (real v) \<in> set (grid lo st hi) \<longleftrightarrow> (\<exists>i. v = lo + st * i \<and> v \<le> hi)" if "0 < st" "lo \<le> hi" for lo st hi
    unfolding set_grid [OF that] by (metis double.inject of_nat_eq_iff)
  then show ?thesis by (auto simp: own_specs_def)
qed

lemma own_frequency:
  "stod s = Some (Fin (real v)) \<Longrightarrow> v \<le> 10 ^ 8 \<Longrightarrow> validate_frequency (make_mock t) s \<longleftrightarrow>
     (\<exists>i. v = 2200 + 20 * i \<and> v \<le> 2380) \<or> (\<exists>i. v = 4420 + 40 * i \<and> v \<le> 4700) \<or> (\<exists>i. v = 4700 + 20 * i \<and> v \<le> 4980)"
  using validate_profiled [OF own_profiles, of s "int v" t] own_channels [of v] by simp

theorem mock_and_adapter_agree_witness:
  "\<exists>reply fs. mock_method demo ''supported_frequency_profiles'' [] JNull (make_mock ''0'') 5 = Some (reply, make_mock ''0'', 5) \<and>
    parseSupportedFrequencies reply = Some fs \<and> Fin 2240 \<in> set fs \<and>
    validate_frequency (make_mock ''0'') (formatSilvusNumber (Fin 2240))"
proof -
  have "validate_frequency (make_mock ''0'') (formatSilvusNumber (Fin (real 2240)))"
    by (subst own_frequency [OF silvus_whole_text]) (simp_all add: exI [of _ 2])
  then show ?thesis
    using mock_and_adapter_agree [OF own_profiles, of 2240 demo JNull "''0''" 5] by auto
qed

section \<open>Reachable states\<close>

text \<open>The states of a mock that has served any sequence of request bodies over HTTP and of lines over the
  maintenance port.\<close>

inductive mock_reachable :: "string \<Rightarrow> 'e platform \<Rightarrow> silvus_mock \<Rightarrow> bool" for what :: string and P :: "'e platform" where
  started: "mock_reachable what P (make_mock t)"
| served: "mock_reachable what P m \<Longrightarrow> mock_route what P index_html path = Some handler \<Longrightarrow>
    handler body m e = Some (response, m', e') \<Longrightarrow> mock_reachable what P m'"
| maintained: "mock_reachable what P m \<Longrightarrow> handle_connection what P received m e = Some (answer, m', e') \<Longrightarrow> mock_reachable what P m'"

lemma stod_point_zero:
  assumes "n \<le> 2 ^ 40"
  shows "stod (show_nat n @ ''.0'') = Some (Fin (real n))"
proof -
  have ip: "list_all isdigit (show_nat n)" and z: "list_all isdigit ''0''"
    using show_nat_props [of n] by (simp_all add: isdigit_def char_code_def)
  have "strtod_mag 10 isdigit (CHR ''e'') 10 1 (show_nat n @ CHR ''.'' # ''0'') =
      Some (real (digits_value 10 (show_nat n @ ''0'')) / 10 ^ length ''0'')"
    by (rule strtod_mag_plain(2) [OF ip show_nat_ne z])
  moreover have "digits_value 10 (show_nat n @ ''0'') = n * 10"
    by (simp add: digit_val_def isdigit_def char_code_def)
  ultimately have mag: "strtod_mag 10 isdigit (CHR ''e'') 10 1 (show_nat n @ ''.0'') = Some (real n)" by simp
  have dot: "tolower CHR ''.'' \<noteq> CHR ''x''" by (simp add: tolower_def char_code_def)
  have r: "real n \<le> 2 ^ 40" using assms by (metis of_nat_le_iff of_nat_numeral of_nat_power)
  have "(2::real) ^ 40 \<le> 2 powr 1023" using powr_mono [of 40 1023 "2::real"] by (simp add: powr_numeral)
  then have hi: "real n \<le> 2 powr 1023" using r by linarith
  have "(2::real) powr (-1022) \<le> 1" using powr_mono [of "-1022" 0 "2::real"] by simp
  then have lo: "real n = 0 \<or> 2 powr (-1022) \<le> real n" by (cases n) auto
  have "rnd64 (real n) = Fin (real n)" using rnd64_int [of "int n"] assms by simp
  then show ?thesis
    using stod_digits [OF ip show_nat_ne mag] dot range_checked_ok [OF lo hi] by simp
qed

lemma frequency_texts: "''4700.0'' = show_nat 4700 @ ''.0''" "''2490.0'' = show_nat 2490 @ ''.0''"
  by (simp_all add: show_nat.simps digit_chars)

lemma make_mock_ok: "mock_ok (make_mock t)"
proof -
  have "validate_frequency (make_mock t) (show_nat 4700 @ ''.0'')"
    by (subst own_frequency [OF stod_point_zero]) (simp_all add: exI [of _ 0])
  then have "validate_frequency (make_mock t) ''4700.0''" unfolding frequency_texts(1) .
  then show ?thesis by (simp add: mock_ok_def) (simp add: make_mock_def)
qed

lemma reachable_ok: "mock_reachable what P m \<Longrightarrow> mock_ok m \<and> (\<exists>t. same_setup (make_mock t) m)"
proof (induction rule: mock_reachable.induct)
  case (started t)
  show ?case using make_mock_ok by (auto simp: same_setup_def)
next
  case (served m index_html path handler body e response m' e')
  from mock_route_keeps [OF served.hyps(2,3)] served.IH show ?case by (auto simp: step_keeps_def same_setup_def)
next
  case (maintained m received e answer m' e')
  from handle_connection_keeps [OF maintained.hyps(2)] maintained.IH show ?case by (auto simp: step_keeps_def same_setup_def)
qed

lemma same_setup_validates: "same_setup (make_mock t) m \<Longrightarrow> validate_frequency m = validate_frequency (make_mock u)"
  by (rule validate_frequency_cong) (simp add: same_setup_def make_mock_def)

text \<open>C15. Whatever is sent to any route of the simulated radio or to its maintenance port, in whatever
  order and however malformed, its power stays within 0 to 39 dBm, its link distance within 0 to 1000000 m, its frequency is one that it
  accepts or the factory default, and its profiles and blackout durations are the constructor's.\<close>

theorem mock_stays_well_formed:
  assumes "mock_reachable what P m"
  shows "0 \<le> current_power_dBm m \<and> current_power_dBm m \<le> 39 \<and>
    0 \<le> max_link_distance_m m \<and> max_link_distance_m m \<le> 1000000 \<and>
    (validate_frequency m (current_frequency_text m) \<or> current_frequency_text m = ''2490.0'') \<and>
    mock_profiles m = mock_profiles (make_mock t) \<and> soft_boot_duration m = 30 * 10 ^ 9 \<and>
    power_change_duration m = 0 \<and> radio_reset_duration m = 60 * 10 ^ 9"
  using reachable_ok [OF assms] by (auto simp: mock_ok_def same_setup_def make_mock_def)

theorem mock_stays_well_formed_witness:
  "current_power_dBm (make_mock ''0'') = 30 \<and> 0 \<le> max_link_distance_m (make_mock ''0'') \<and>
   validate_frequency (make_mock ''0'') ''4700.0''"
  using mock_stays_well_formed [OF mock_reachable.started [of "''x''" demo "''0''"], of "''0''"]
  by (simp add: make_mock_def)

text \<open>The factory default is not a frequency of the radio: after zeroize or factory_reset the mock
  reports 2490.0 MHz, which no profile contains, so writing back the frequency just read is refused as
  INVALID_RANGE and changes nothing.\<close>

theorem reset_frequency_is_refused:
  assumes "mock_reachable what P m" "method = ''zeroize'' \<or> method = ''factory_reset''"
    and "mock_method P method params rid m e = Some (reply, m', e')"
  shows "reply = acknowledged rid \<and> e' = e \<and>
    mock_method P ''freq'' [] rid m' e = Some (make_result [JString ''2490.0''] rid, m', e) \<and>
    mock_method P ''freq'' [JString ''2490.0''] rid m' e = Some (invalid_range [] rid, m', e)"
proof -
  have now: "reply = acknowledged rid" "e' = e" "current_frequency_text m' = ''2490.0''" "mock_profiles m' = mock_profiles m"
    using assms(2,3) by (auto simp: mock_method_def factory_defaults_def)
  have "\<not> validate_frequency (make_mock u) (show_nat 2490 @ ''.0'')" for u
    by (subst own_frequency [OF stod_point_zero]) simp_all
  then have "\<not> validate_frequency (make_mock u) ''2490.0''" for u unfolding frequency_texts(2) .
  moreover have "validate_frequency m' = validate_frequency m" by (rule validate_frequency_cong [OF now(4)])
  ultimately have "\<not> validate_frequency m' ''2490.0''"
    using reachable_ok [OF assms(1)] same_setup_validates by metis
  then show ?thesis using now by (simp add: mock_method_def mock_freq_def param_text_def)
qed

theorem reset_frequency_is_refused_witness:
  "mock_method demo ''freq'' [JString ''2490.0''] JNull (factory_defaults (make_mock ''0'')) 5 =
    Some (invalid_range [] JNull, factory_defaults (make_mock ''0''), 5)"
  using reset_frequency_is_refused [OF mock_reachable.started [of "''x''" demo "''0''"], of "''factory_reset''" "[]" JNull 5
      "acknowledged JNull" "factory_defaults (make_mock ''0'')" 5]
  by (simp add: mock_method_def)

text \<open>C16. Blackout: an accepted frequency closes the radio for its soft-boot time; a request that arrives
  before that time is over, zeroize and radio_reset included, is answered UNAVAILABLE (or rejected as
  malformed) and neither changes the state nor shortens the blackout.\<close>

theorem mock_blackout:
  assumes "mock_method P ''freq'' (p # ps) rid m e = Some (reply, m', e')"
    and "fst (steady_now P e1) < fst (steady_now P e) + soft_boot_duration m"
  shows "(if validate_frequency m (param_text P p)
     then reply = acknowledged rid \<and>
       current_frequency_text m' = param_text P p \<and> blackout_until m' = fst (steady_now P e) + soft_boot_duration m \<and>
       (\<exists>r e2. handle_jsonrpc what P req m' e1 = Some (r, m', e2)) \<and>
       (request_shape req = Wellformed (JString called) \<longrightarrow>
          handle_jsonrpc what P req m' e1 = Some (Reply (make_error (-32000) ''UNAVAILABLE'' []
             (case json_find ''id'' req of None \<Rightarrow> JNull | Some j \<Rightarrow> j)), m', snd (steady_now P e1)))
     else reply = invalid_range [] rid \<and> m' = m \<and> e' = e)"
proof (cases "validate_frequency m (param_text P p)")
  case True
  then have m': "reply = acknowledged rid"
      "m' = m\<lparr>current_frequency_text := param_text P p, blackout_until := fst (steady_now P e) + soft_boot_duration m\<rparr>"
    using assms(1) by (auto simp: mock_method_def mock_freq_def Let_def split: prod.splits)
  then have "is_available P m' e1 = (False, snd (steady_now P e1))"
    using assms(2) by (cases "steady_now P e1") (simp add: is_available_def)
  then have refused: "handle_jsonrpc what P req m' e1 = Some (Reply (make_error (-32000) ''UNAVAILABLE'' []
         (case json_find ''id'' req of None \<Rightarrow> JNull | Some j \<Rightarrow> j)), m', snd (steady_now P e1))"
    if "request_shape req = Wellformed (JString meth)" for meth
    using that by (simp add: handle_jsonrpc_def Let_def)
  have "\<exists>r e2. handle_jsonrpc what P req m' e1 = Some (r, m', e2)"
  proof (cases "\<exists>meth. request_shape req = Wellformed (JString meth)")
    case True
    with refused show ?thesis by auto
  next
    case False
    then show ?thesis by (auto simp: handle_jsonrpc_def Let_def split: request_shape.split json.split)
  qed
  with True m' refused [of called] show ?thesis by simp
next
  case False
  with assms(1) show ?thesis by (auto simp: mock_method_def mock_freq_def Let_def)
qed

lemma own_2240: "validate_frequency (make_mock t) (formatSilvusNumber (Fin 2240))"
proof -
  have "validate_frequency (make_mock t) (formatSilvusNumber (Fin (real 2240)))"
    by (subst own_frequency [OF silvus_whole_text]) (simp_all add: exI [of _ 2])
  then show ?thesis by simp
qed

theorem mock_blackout_witness:
  "\<exists>m'. mock_method demo ''freq'' [JString (formatSilvusNumber (Fin 2240))] JNull (make_mock ''0'') 5 =
        Some (acknowledged JNull, m', 6) \<and>
     handle_jsonrpc ''x'' demo (JObject [(''jsonrpc'', JString ''2.0''), (''method'', JString ''zeroize'')]) m' 10 =
        Some (Reply (make_error (-32000) ''UNAVAILABLE'' [] JNull), m', 11)"
proof -
  define m' where "m' = (make_mock ''0'')\<lparr>current_frequency_text := formatSilvusNumber (Fin 2240), blackout_until := 30000000005\<rparr>"
  have "mock_method demo ''freq'' [JString (formatSilvusNumber (Fin 2240))] JNull (make_mock ''0'') 5 =
      Some (acknowledged JNull, m', 6)"
    using own_2240 [of "''0''"] by (simp add: mock_method_def mock_freq_def param_text_def m'_def) (simp add: make_mock_def)
  from mock_blackout [OF this, of 10 "''x''" "JObject [(''jsonrpc'', JString ''2.0''), (''method'', JString ''zeroize'')]"
      "''zeroize''"] this own_2240 [of "''0''"]
  show ?thesis by (intro exI [of _ m']) (simp add: param_text_def request_shape_def, simp add: make_mock_def)
qed

section \<open>Malformed requests\<close>

text \<open>A request object without a method is answered -32600 with a null id only when it names no id; when it
  carries one, the guard itself throws and the answer is an internal error.\<close>

lemma malformed_id_is_internal_error:
  assumes "json_parse P payload = Some (JObject kvs)" "map_of kvs ''method'' = None"
    and "map_of kvs ''jsonrpc'' = Some (JString ''2.0'')" "map_of kvs ''id'' = Some j" "j \<noteq> JNull"
  shows "handle_jsonrpc_text what P payload m e = Some (json_dump P (internal_error what), m, e)"
proof -
  have "invalid_request (JObject kvs) = Threw" using assms(4,5) by (cases j) (simp_all add: invalid_request_def)
  moreover have "request_shape (JObject kvs) = Malformed" using assms(2,3) by (simp add: request_shape_def)
  ultimately show ?thesis using assms(1) by (simp add: handle_jsonrpc_text_def handle_jsonrpc_def)
qed

end
