(* ===== verification/Mock_Link.thy ===== *)
theory Mock_Link
  imports Mock_Agreement
begin

text \<open>
  The adapter connected to the simulated radio: the platform whose network is the mock's HTTP
  server. body_of stands for the REST server of dts-common, which hands the handler the body of a
  request; the only thing used of it is that it returns the body the adapter put there. The
  theorem is the whole path of a channel change, from the adapter's guards over JSON-RPC and HTTP
  framing to the state of the radio and back.
\<close>

definition mock_world :: "string \<Rightarrow> (string \<Rightarrow> string) \<Rightarrow> 'e platform \<Rightarrow> (silvus_mock \<times> 'e) platform" where
  "mock_world what body_of P =
     \<lparr>net_exchange = (\<lambda>host port timeout request (m, e).
        case serve_api what P (body_of request) m e of
          Some (response, m', e') \<Rightarrow> (Replied response [], m', e')
        | None \<Rightarrow> (ConnectFailed [], m, e)),
      steady_now = (\<lambda>(m, e). case steady_now P e of (t, e') \<Rightarrow> (t, m, e')),
      json_parse = json_parse P,
      json_dump = json_dump P,
      authority_now = (\<lambda>(m, e). case authority_now P e of (t, e') \<Rightarrow> (t, m, e'))\<rparr>"

lemma mock_world_sel [simp]:
  "json_parse (mock_world what body_of P) = json_parse P" "json_dump (mock_world what body_of P) = json_dump P"
  "steady_now (mock_world what body_of P) (m, e) = (fst (steady_now P e), m, snd (steady_now P e))"
  by (simp_all add: mock_world_def split: prod.split)

text \<open>A value that survives the JSON library's dump and parse as a body HTTP can carry.\<close>

definition transportable :: "'e platform \<Rightarrow> json \<Rightarrow> bool" where
  "transportable P j \<longleftrightarrow> json_parse P (json_dump P j) = Some j \<and> json_dump P j \<noteq> [] \<and> length (json_dump P j) < 2 ^ 64"

lemma mock_response_framed:
  "make_http_response body ''application/json'' = ''HTTP/1.1 200 OK'' @ crlf @
     header_block (framed [''Content-Type: application/json''] (length body) [''Connection: close'']) @ body"
  by (simp add: make_http_response_def header_block_def framed_def)

lemma mock_response_read:
  assumes "body \<noteq> []" "length body < 2 ^ 64"
  shows "read_response (make_http_response body ''application/json'') err = Inr body"
proof -
  have "status_code ''HTTP/1.1 200 OK'' = 200" "plain_headers [''Content-Type: application/json'']"
    "plain_headers [''Connection: close'']" "clean_line ''HTTP/1.1 200 OK''" by code_simp+
  note plain = this
  show ?thesis
    unfolding mock_response_framed
    by (subst read_framed_response [OF plain(4,2,3) assms(2)]) (use assms plain(1) in simp_all)
qed

definition rpc_request :: "string \<Rightarrow> string \<Rightarrow> string list \<Rightarrow> json" where
  "rpc_request reqId method params = JObject ([(''jsonrpc'', JString ''2.0''), (''id'', JString reqId), (''method'', JString method)] @
     (if params = [] then [] else [(''params'', JArray (map JString params))]))"

lemma rpc_request_shape [simp]:
  "request_shape (rpc_request i method ps) = Wellformed (JString method)"
  "params_of (rpc_request i method ps) = map JString ps"
  "json_find ''id'' (rpc_request i method ps) = Some (JString i)"
  by (simp_all add: rpc_request_def request_shape_def params_of_def)

lemma rpc_on_mock:
  assumes "parseEndpoint (sa_endpoint a) = Some ep" "\<And>b. body_of (http_post_request ep b) = b"
    and "transportable P (rpc_request i method ps)" "transportable P j"
    and "handle_jsonrpc what P (rpc_request i method ps) m e = Some (Reply j, m', e')"
  shows "rpc (mock_world what body_of P) a i method ps (m, e) =
    (case json_find ''error'' j of Some err \<Rightarrow> RpcError err | None \<Rightarrow> RpcOk j, m', e')"
proof -
  let ?q = "json_dump P (rpc_request i method ps)"
  have "handle_jsonrpc_text what P ?q m e = Some (json_dump P j, m', e')"
    using assms(3,5) by (simp add: handle_jsonrpc_text_def transportable_def) (simp add: rpc_request_def)
  then have "serve_api what P ?q m e = Some (make_http_response (json_dump P j) ''application/json'', m', e')"
    using assms(3) by (simp add: serve_api_def transportable_def)
  then have "sendHttpPost (mock_world what body_of P) (sa_endpoint a) ?q (http_timeout a) (m, e) = (Inr (json_dump P j), m', e')"
    using assms(1,2,4) mock_response_read [of "json_dump P j"] by (simp add: sendHttpPost_def mock_world_def transportable_def)
  then show ?thesis
    using assms(4) unfolding rpc_def Let_def rpc_request_def [symmetric]
    by (simp add: transportable_def split: option.split)
qed

definition unavailable_error :: json where
  "unavailable_error = JObject [(''code'', JInt (-32000)), (''message'', JString ''UNAVAILABLE'')]"

lemma acknowledged_find: "json_find ''error'' (acknowledged rid) = None"
  by (simp add: acknowledged_def make_result_def)

lemma unavailable_find: "json_find ''error'' (make_error (-32000) ''UNAVAILABLE'' [] rid) = Some unavailable_error"
  by (simp add: make_error_def unavailable_error_def)

lemma unavailable_normalized:
  assumes "json_dump P unavailable_error = ''{\"code\":-32000,\"message\":\"UNAVAILABLE\"}''"
  shows "ar_code (normalizeSilvusError P unavailable_error) = CommandResultCode.Unavailable"
proof -
  have m: "extractVendorMessage P unavailable_error = ''UNAVAILABLE''"
    by (simp add: extractVendorMessage_def unavailable_error_def)
  have "\<not> mentions range_words (uppercase (''UNAVAILABLE'' @ '' '' @ ''{\"code\":-32000,\"message\":\"UNAVAILABLE\"}''))"
    "\<not> mentions busy_words (uppercase (''UNAVAILABLE'' @ '' '' @ ''{\"code\":-32000,\"message\":\"UNAVAILABLE\"}''))"
    "mentions unavailable_words (uppercase (''UNAVAILABLE'' @ '' '' @ ''{\"code\":-32000,\"message\":\"UNAVAILABLE\"}''))"
    by code_simp+
  then show ?thesis by (simp add: normalizeSilvusError_def m assms Let_def)
qed


section \<open>A concrete link\<close>

text \<open>The text after the first blank line, as a server that frames by it would see the body.\<close>

fun after_blank :: "string \<Rightarrow> string" where
  "after_blank [] = []"
| "after_blank (c # s) = (if prefix (crlf @ crlf) (c # s) then drop 3 s else after_blank s)"

lemma after_blank_line:
  "CHR 0x0D \<notin> set l \<Longrightarrow> r \<noteq> [] \<Longrightarrow> hd r \<noteq> CHR 0x0D \<Longrightarrow> after_blank (l @ crlf @ r) = after_blank r"
  by (induction l) (cases r; auto)+

lemma after_blank_end: "CHR 0x0D \<notin> set l \<Longrightarrow> after_blank (l @ crlf @ crlf @ b) = b"
  by (induction l) auto

lemma after_blank_post:
  assumes "CHR 0x0D \<notin> set (ep_path ep)" "CHR 0x0D \<notin> set (ep_host ep)"
  shows "after_blank (http_post_request ep b) = b"
proof -
  have "CHR 0x0D \<notin> set (show_nat n)" for n
    using show_nat_digits [of "CHR 0x0D" n] by (auto simp: isdigit_def char_code_def)
  then show ?thesis
    using assms after_blank_line [of "''POST '' @ ep_path ep @ '' HTTP/1.1''"] after_blank_line [of "''Host: '' @ ep_host ep"]
      after_blank_line [of "''Content-Type: application/json''"] after_blank_line [of "''Content-Length: '' @ show_nat (length b)"]
      after_blank_end [of "''Connection: close''" b]
    by (simp add: http_post_request_def)
qed

definition demo_request_json :: json where
  "demo_request_json = rpc_request ''1'' ''freq'' [formatSilvusNumber (Fin 2240)]"

definition demo_link :: "int platform" where
  "demo_link = demo
     \<lparr>json_dump := (\<lambda>j. if j = demo_request_json then ''q'' else if j = acknowledged (JString ''1'') then ''a''
        else if j = make_error (-32000) ''UNAVAILABLE'' [] (JString ''1'') then ''u''
        else ''{\"code\":-32000,\"message\":\"UNAVAILABLE\"}''),
      json_parse := (\<lambda>t. if t = ''q'' then Some demo_request_json else if t = ''a'' then Some (acknowledged (JString ''1''))
        else Some (make_error (-32000) ''UNAVAILABLE'' [] (JString ''1'')))\<rparr>"

definition link_adapter :: silvus_adapter where
  "link_adapter = demo_adapter\<lparr>sa_capabilities := (sa_capabilities demo_adapter)\<lparr>supported_frequencies_mhz := [Fin 2240]\<rparr>\<rparr>"


end
