(* ===== verification/Heartbeat_Timer.thy ===== *)
theory Heartbeat_Timer
  imports Telemetry_Hub Trace_Systems
begin

text \<open>
  telemetry_hub.cpp: the heartbeat as it runs on its strand. start, stop and publishers act from any
  thread; the handlers of the timer run one at a time on the strand, in the order in which they were
  posted, whenever a thread of the io context gets to them. The state holds the hub, the steady clock,
  the one pending wait of the timer and the strand's queue. Time is counted in clock ticks and
  ivl is the configured heartbeat interval in those ticks.

  A wait that expires posts its handler without an error, a wait that is cancelled posts it with
  operation_aborted; a handler that is already posted can no longer be cancelled. That is asio's
  documented contract, and the reason why the code checks its stop flag in the handler too.
\<close>

datatype strand_task = ScheduleTask | WaitTask bool | CancelTask

record timer_state =
  tm_hub :: telemetry_hub
  tm_now :: int
  tm_armed :: "int option"
  tm_queue :: "strand_task list"

definition post_task :: "strand_task \<Rightarrow> timer_state \<Rightarrow> timer_state" where
  "post_task t s = s\<lparr>tm_queue := tm_queue s @ [t]\<rparr>"

definition cancel_wait :: "timer_state \<Rightarrow> timer_state" where
  "cancel_wait s = (case tm_armed s of None \<Rightarrow> s | Some _ \<Rightarrow> post_task (WaitTask True) (s\<lparr>tm_armed := None\<rparr>))"

definition scheduleHeartbeat :: "int \<Rightarrow> timer_state \<Rightarrow> timer_state" where
  "scheduleHeartbeat ivl s =
     (if heartbeat_stopped (tm_hub s) then s
      else (let s = cancel_wait s in s\<lparr>tm_armed := Some (tm_now s + ivl)\<rparr>))"

definition timer_start :: "timer_state \<Rightarrow> timer_state" where
  "timer_start s = post_task ScheduleTask (s\<lparr>tm_hub := hub_start (tm_hub s)\<rparr>)"

text \<open>On the strand, or once the io context has stopped, the timer is cancelled at once; from any other
  thread the cancellation is posted and the caller waits until it has run.\<close>

definition cancelHeartbeatTimer :: "bool \<Rightarrow> timer_state \<Rightarrow> timer_state" where
  "cancelHeartbeatTimer at_once s = (if at_once then cancel_wait s else post_task CancelTask s)"

definition timer_stop :: "bool \<Rightarrow> timer_state \<Rightarrow> timer_state" where
  "timer_stop at_once s = cancelHeartbeatTimer at_once (s\<lparr>tm_hub := hub_stop (tm_hub s)\<rparr>)"

fun run_task :: "int \<Rightarrow> string \<Rightarrow> strand_task \<Rightarrow> timer_state \<Rightarrow> timer_state" where
  "run_task ivl ts ScheduleTask s = scheduleHeartbeat ivl s"
| "run_task ivl ts (WaitTask aborted) s =
     (let (h, again) = heartbeat_fired aborted ts (tm_hub s); s = s\<lparr>tm_hub := h\<rparr>
      in if again then scheduleHeartbeat ivl s else s)"
| "run_task ivl ts CancelTask s = cancel_wait s"

datatype timer_event =
    StartCalled
  | StopCalled bool
  | ReadyPublished json
  | EventPublished string json
  | TimeIs int
  | WaitExpired
  | TaskRan strand_task string

inductive timer_step :: "int \<Rightarrow> timer_state \<Rightarrow> timer_event \<Rightarrow> timer_state \<Rightarrow> bool" for ivl where
  start: "timer_step ivl s StartCalled (timer_start s)"
| stop: "timer_step ivl s (StopCalled at_once) (timer_stop at_once s)"
| ready: "timer_step ivl s (ReadyPublished snapshot) (s\<lparr>tm_hub := publishReady snapshot (tm_hub s)\<rparr>)"
| event: "tag \<noteq> ''heartbeat'' \<Longrightarrow>
    timer_step ivl s (EventPublished tag payload) (s\<lparr>tm_hub := publishEvent tag payload (tm_hub s)\<rparr>)"
| time: "tm_now s \<le> now \<Longrightarrow> timer_step ivl s (TimeIs now) (s\<lparr>tm_now := now\<rparr>)"
| expired: "tm_armed s = Some t \<Longrightarrow> t \<le> tm_now s \<Longrightarrow>
    timer_step ivl s WaitExpired (post_task (WaitTask False) (s\<lparr>tm_armed := None\<rparr>))"
| ran: "tm_queue s = t # q \<Longrightarrow> timer_step ivl s (TaskRan t ts) (run_task ivl ts t (s\<lparr>tm_queue := q\<rparr>))"

inductive_cases timer_stepE: "timer_step ivl s ev s'"

inductive timer_run :: "int \<Rightarrow> timer_state \<Rightarrow> timer_event list \<Rightarrow> timer_state \<Rightarrow> bool" for ivl where
  none: "timer_run ivl s [] s"
| more: "timer_run ivl s tr s' \<Longrightarrow> timer_step ivl s' ev s'' \<Longrightarrow> timer_run ivl s (tr @ [ev]) s''"

definition new_timer :: "int \<Rightarrow> timer_state" where
  "new_timer now = \<lparr>tm_hub = initial_hub, tm_now = now, tm_armed = None, tm_queue = []\<rparr>"

interpretation strand: trace_system "timer_step ivl" "timer_run ivl" for ivl
  by unfold_locales (auto elim: timer_run.cases intro: timer_run.intros)

section \<open>What each operation keeps\<close>

lemma post_task_sel [simp]:
  "tm_hub (post_task t s) = tm_hub s" "tm_now (post_task t s) = tm_now s"
  "tm_armed (post_task t s) = tm_armed s" "tm_queue (post_task t s) = tm_queue s @ [t]"
  by (simp_all add: post_task_def)

lemma cancel_wait_sel [simp]:
  "tm_hub (cancel_wait s) = tm_hub s" "tm_now (cancel_wait s) = tm_now s" "tm_armed (cancel_wait s) = None"
  "tm_queue (cancel_wait s) = tm_queue s @ (case tm_armed s of None \<Rightarrow> [] | Some _ \<Rightarrow> [WaitTask True])"
  by (simp_all add: cancel_wait_def split: option.split)

lemma scheduleHeartbeat_sel [simp]:
  "tm_hub (scheduleHeartbeat ivl s) = tm_hub s" "tm_now (scheduleHeartbeat ivl s) = tm_now s"
  "tm_armed (scheduleHeartbeat ivl s) =
     (if heartbeat_stopped (tm_hub s) then tm_armed s else Some (tm_now s + ivl))"
  "tm_queue (scheduleHeartbeat ivl s) = tm_queue s @
     (if heartbeat_stopped (tm_hub s) then [] else case tm_armed s of None \<Rightarrow> [] | Some _ \<Rightarrow> [WaitTask True])"
  by (simp_all add: scheduleHeartbeat_def Let_def)

lemma hub_flag_sel [simp]:
  "heartbeat_stopped (hub_start h) = False" "heartbeat_stopped (hub_stop h) = True"
  "heartbeat_stopped (publishEvent tag p h) = heartbeat_stopped h"
  "heartbeat_stopped (publishReady p h) = heartbeat_stopped h"
  "published (hub_start h) = published h" "published (hub_stop h) = published h"
  by (simp_all add: hub_start_def hub_stop_def publishEvent_def publishReady_def Let_def)

lemma timer_start_sel [simp]:
  "tm_hub (timer_start s) = hub_start (tm_hub s)" "tm_now (timer_start s) = tm_now s"
  "tm_armed (timer_start s) = tm_armed s" "tm_queue (timer_start s) = tm_queue s @ [ScheduleTask]"
  by (simp_all add: timer_start_def)

lemma timer_stop_sel [simp]:
  "tm_hub (timer_stop at_once s) = hub_stop (tm_hub s)" "tm_now (timer_stop at_once s) = tm_now s"
  "tm_armed (timer_stop at_once s) = (if at_once then None else tm_armed s)"
  "tm_queue (timer_stop at_once s) = tm_queue s @
     (if at_once then case tm_armed s of None \<Rightarrow> [] | Some _ \<Rightarrow> [WaitTask True] else [CancelTask])"
  by (simp_all add: timer_stop_def cancelHeartbeatTimer_def)

lemma heartbeat_fired_flag:
  "heartbeat_fired aborted ts h = (h', again) \<Longrightarrow>
     heartbeat_stopped h' = heartbeat_stopped h \<and> again = (\<not> aborted \<and> \<not> heartbeat_stopped h)"
  by (auto simp: heartbeat_fired_def Let_def split: if_splits option.splits)

lemma tagged_simps [simp]:
  "tagged tag (publishEvent tag' p h) = tagged tag h + (if tag' = tag then 1 else 0)"
  "tagged tag (h\<lparr>heartbeat_ticks := n\<rparr>) = tagged tag h"
  "tagged tag (hub_start h) = tagged tag h" "tagged tag (hub_stop h) = tagged tag h"
  "tagged tag (publishReady p h) = tagged tag h + (if tag = ''ready'' then 1 else 0)"
  using event_stream.count_write [of "\<lambda>e. fst e = tag" "(tag', p)" h]
  by (simp_all add: tagged_def publishEvent_def hub_start_def hub_stop_def publishReady_def Let_def)

lemma heartbeat_fired_count:
  "heartbeat_fired aborted ts h = (h', again) \<Longrightarrow>
     tagged ''heartbeat'' h' = tagged ''heartbeat'' h + (if again then 1 else 0)"
  by (auto simp: heartbeat_fired_def Let_def split: if_splits option.splits)

section \<open>The heartbeat rate\<close>

definition beats_due :: "timer_state \<Rightarrow> nat" where
  "beats_due s = tagged ''heartbeat'' (tm_hub s) + length (filter (\<lambda>t. t = WaitTask False) (tm_queue s))"

definition armed_since :: "int \<Rightarrow> timer_state \<Rightarrow> int" where
  "armed_since ivl s = (case tm_armed s of None \<Rightarrow> tm_now s | Some t \<Rightarrow> t - ivl)"

definition rate_inv :: "int \<Rightarrow> int \<Rightarrow> timer_state \<Rightarrow> bool" where
  "rate_inv ivl t0 s \<longleftrightarrow> int (beats_due s) * ivl \<le> armed_since ivl s - t0 \<and> armed_since ivl s \<le> tm_now s"

lemma beats_due_simps [simp]:
  "beats_due (post_task t s) = beats_due s + (if t = WaitTask False then 1 else 0)"
  "beats_due (cancel_wait s) = beats_due s"
  "beats_due (scheduleHeartbeat ivl s) = beats_due s"
  "beats_due (timer_start s) = beats_due s" "beats_due (timer_stop at_once s) = beats_due s"
  "beats_due (s\<lparr>tm_armed := a\<rparr>) = beats_due s" "beats_due (s\<lparr>tm_now := n\<rparr>) = beats_due s"
  by (simp_all add: beats_due_def split: option.split)

lemma run_task_due:
  "tm_queue s = t # q \<Longrightarrow> beats_due (run_task ivl ts t (s\<lparr>tm_queue := q\<rparr>)) \<le> beats_due s"
proof (induction ivl ts t "s\<lparr>tm_queue := q\<rparr>" rule: run_task.induct)
  case (2 ivl ts aborted)
  obtain h again where fired: "heartbeat_fired aborted ts (tm_hub s) = (h, again)" by fastforce
  from heartbeat_fired_count [OF this] heartbeat_fired_flag [OF this] 2 show ?case
    by (auto simp: fired beats_due_def)
qed (simp_all add: beats_due_def split: option.split)


lemma run_task_now [simp]: "tm_now (run_task ivl ts t s) = tm_now s"
  by (cases t) (simp_all add: Let_def split: prod.split)

lemma run_task_since: "armed_since ivl (run_task ivl ts t s) \<in> {armed_since ivl s, tm_now s}"
  by (cases t) (auto simp: armed_since_def Let_def split: prod.split option.split)

lemma armed_since_queue [simp]: "armed_since ivl (s\<lparr>tm_queue := q\<rparr>) = armed_since ivl s"
  unfolding armed_since_def by (rule option.case_cong) simp_all

lemma timer_step_rate:
  assumes "timer_step ivl s ev s'" "rate_inv ivl t0 s" "0 \<le> ivl"
  shows "rate_inv ivl t0 s'"
  using assms(1)
proof (cases rule: timer_step.cases)
  case (expired t)
  with assms(2) show ?thesis by (simp add: rate_inv_def armed_since_def distrib_right)
next
  case (ran t q ts)
  have "int (beats_due s') * ivl \<le> int (beats_due s) * ivl"
    using run_task_due [OF ran(3)] ran(2) assms(3) by (simp add: mult_right_mono)
  moreover have "armed_since ivl s' \<in> {armed_since ivl s, tm_now s}"
    using run_task_since [of ivl ts t "s\<lparr>tm_queue := q\<rparr>"] ran(2) by simp
  ultimately show ?thesis using assms(2) ran(2) by (auto simp: rate_inv_def)
qed (use assms(2) in \<open>auto simp: rate_inv_def armed_since_def beats_due_def split: option.splits\<close>)

text \<open>C22. Bounded rate: however often and from whatever threads the hub is started, stopped and published
  to, and however late the strand gets to run, n heartbeats take at least n intervals, so the stream is
  never flooded and two starts never make two heartbeats.\<close>

theorem heartbeat_rate:
  assumes "timer_run ivl (new_timer t0) tr s" "0 \<le> ivl"
  shows "int (tagged ''heartbeat'' (tm_hub s)) * ivl \<le> tm_now s - t0"
proof -
  have "rate_inv ivl t0 (new_timer t0)"
    by (simp add: rate_inv_def armed_since_def beats_due_def new_timer_def initial_hub_def tagged_def)
  with assms(1) have "rate_inv ivl t0 s"
    by (rule strand.run_invariant) (rule timer_step_rate [OF _ _ assms(2)])
  then have inv: "int (beats_due s) * ivl \<le> tm_now s - t0" by (simp add: rate_inv_def)
  have "int (tagged ''heartbeat'' (tm_hub s)) * ivl \<le> int (beats_due s) * ivl"
    using assms(2) by (simp add: beats_due_def mult_right_mono)
  with inv show ?thesis by simp
qed

section \<open>Stopping\<close>

fun ran_tasks :: "timer_event list \<Rightarrow> strand_task list" where
  "ran_tasks [] = []"
| "ran_tasks (TaskRan t ts # tr) = t # ran_tasks tr"
| "ran_tasks (ev # tr) = ran_tasks tr"

lemma ran_tasks_append [simp]: "ran_tasks (xs @ ys) = ran_tasks xs @ ran_tasks ys"
  by (induction xs rule: ran_tasks.induct) simp_all

lemma run_task_queue: "\<exists>posted. tm_queue (run_task ivl ts t s) = tm_queue s @ posted"
  by (cases t) (auto simp: Let_def split: prod.split)

lemma timer_step_fifo:
  "timer_step ivl s ev s' \<Longrightarrow> \<exists>posted. ran_tasks [ev] @ tm_queue s' = tm_queue s @ posted"
  using run_task_queue by (elim timer_stepE) (auto, metis select_convs(4) surjective update_convs(4))

lemma strand_fifo:
  "timer_run ivl s tr s' \<Longrightarrow> \<exists>posted. ran_tasks tr @ tm_queue s' = tm_queue s @ posted"
proof (induction rule: timer_run.induct)
  case (more s tr s' ev s'')
  from more.IH timer_step_fifo [OF more.hyps(2)] show ?case by (metis append.assoc ran_tasks_append)
qed simp


lemma timer_step_stays_stopped:
  assumes "timer_step ivl s ev s'" "ev \<noteq> StartCalled" "heartbeat_stopped (tm_hub s)"
  shows "heartbeat_stopped (tm_hub s') \<and> tagged ''heartbeat'' (tm_hub s') = tagged ''heartbeat'' (tm_hub s) \<and>
    (tm_armed s = None \<or> (\<exists>ts. ev = TaskRan CancelTask ts) \<longrightarrow> tm_armed s' = None)"
  using assms(1)
proof (cases rule: timer_step.cases)
  case (ran t q ts)
  show ?thesis
  proof (cases t)
    case (WaitTask aborted)
    obtain h again where "heartbeat_fired aborted ts (tm_hub s) = (h, again)" by fastforce
    with heartbeat_fired_flag [OF this] heartbeat_fired_count [OF this] assms(3) ran WaitTask show ?thesis by auto
  qed (use assms(3) ran in auto)
qed (use assms in auto)

definition pending :: "timer_state \<Rightarrow> nat" where
  "pending s = length (tm_queue s) + (case tm_armed s of None \<Rightarrow> 0 | Some _ \<Rightarrow> 1)"

fun stop_calls :: "timer_event list \<Rightarrow> nat" where
  "stop_calls [] = 0"
| "stop_calls (ev # tr) = (case ev of StopCalled _ \<Rightarrow> 1 | _ \<Rightarrow> 0) + stop_calls tr"

lemma stop_calls_append [simp]: "stop_calls (xs @ ys) = stop_calls xs + stop_calls ys"
  by (induction xs) simp_all

lemma timer_step_pending:
  assumes "timer_step ivl s ev s'" "ev \<noteq> StartCalled" "heartbeat_stopped (tm_hub s)"
  shows "length (ran_tasks [ev]) + pending s' \<le> pending s + stop_calls [ev]"
  using assms(1)
proof (cases rule: timer_step.cases)
  case (ran t q ts)
  show ?thesis
  proof (cases t)
    case (WaitTask aborted)
    obtain h again where "heartbeat_fired aborted ts (tm_hub s) = (h, again)" by fastforce
    with heartbeat_fired_flag [OF this] assms(3) ran WaitTask show ?thesis by (auto simp: pending_def)
  qed (use assms(3) ran in \<open>auto simp: pending_def split: option.split\<close>)
qed (use assms in \<open>auto simp: pending_def split: option.split\<close>)

lemma stopped_run:
  assumes "timer_run ivl s tr s'" "StartCalled \<notin> set tr" "heartbeat_stopped (tm_hub s)"
  shows "heartbeat_stopped (tm_hub s') \<and> tagged ''heartbeat'' (tm_hub s') = tagged ''heartbeat'' (tm_hub s) \<and>
    (tm_armed s = None \<or> CancelTask \<in> set (ran_tasks tr) \<longrightarrow> tm_armed s' = None) \<and>
    length (ran_tasks tr) + pending s' \<le> pending s + stop_calls tr"
  using assms
proof (induction rule: timer_run.induct)
  case (more s tr s' ev s'')
  then have IH: "heartbeat_stopped (tm_hub s')" "tagged ''heartbeat'' (tm_hub s') = tagged ''heartbeat'' (tm_hub s)"
    "tm_armed s = None \<or> CancelTask \<in> set (ran_tasks tr) \<Longrightarrow> tm_armed s' = None"
    "length (ran_tasks tr) + pending s' \<le> pending s + stop_calls tr" and ev: "ev \<noteq> StartCalled" by auto
  have ran: "CancelTask \<in> set (ran_tasks [ev]) \<Longrightarrow> \<exists>ts. ev = TaskRan CancelTask ts" by (cases ev) auto
  from timer_step_stays_stopped [OF more.hyps(2) ev IH(1)] timer_step_pending [OF more.hyps(2) ev IH(1)] IH ran
  show ?case by auto
qed simp

text \<open>C21. Stopping is final and ends: after a call of stop, unless start is called again, no further
  heartbeat is ever published. A stop on the strand cancels the timer at once. A stop from another thread
  returns when its cancellation has run, which is exactly when the strand has run the handlers that were
  queued before it; until then it waits, for ever if no thread runs the io context. From the return on
  the timer is never armed again, and the strand comes to rest: it runs no more handlers than were
  pending, one for the stop, and one for each further stop.\<close>

theorem stop_is_final:
  assumes "timer_run ivl (timer_stop at_once s) tr s'" "StartCalled \<notin> set tr"
    and "returned \<longleftrightarrow> at_once \<or> length (tm_queue s) < length (ran_tasks tr)"
  shows "tagged ''heartbeat'' (tm_hub s') = tagged ''heartbeat'' (tm_hub s) \<and>
    (if returned then tm_armed s' = None else CancelTask \<in> set (tm_queue s')) \<and>
    (returned \<and> \<not> at_once \<longrightarrow> ran_tasks tr ! length (tm_queue s) = CancelTask) \<and>
    length (ran_tasks tr) + length (tm_queue s') \<le> length (tm_queue s) + 2 + stop_calls tr"
proof -
  let ?s = "timer_stop at_once s" and ?n = "length (tm_queue s)"
  have run: "tagged ''heartbeat'' (tm_hub s') = tagged ''heartbeat'' (tm_hub ?s)"
    "tm_armed ?s = None \<or> CancelTask \<in> set (ran_tasks tr) \<Longrightarrow> tm_armed s' = None"
    "length (ran_tasks tr) + pending s' \<le> pending ?s + stop_calls tr"
    using stopped_run [OF assms(1,2)] by auto
  have rest: "length (ran_tasks tr) + length (tm_queue s') \<le> ?n + 2 + stop_calls tr"
    using run(3) by (auto simp: pending_def split: option.splits if_splits)
  obtain posted where fifo: "ran_tasks tr @ tm_queue s' = tm_queue ?s @ posted" using strand_fifo [OF assms(1)] by blast
  show ?thesis
  proof (cases at_once)
    case True
    then have "tm_armed s' = None" by (intro run(2)) simp
    with True run(1) rest assms(3) show ?thesis by simp
  next
    case False
    have "(ran_tasks tr @ tm_queue s') ! ?n = CancelTask" using fifo False by (simp add: nth_append)
    moreover have "?n < length (ran_tasks tr @ tm_queue s')" using fifo False by simp
    ultimately have cancelled: "if ?n < length (ran_tasks tr) then ran_tasks tr ! ?n = CancelTask
        else CancelTask \<in> set (tm_queue s')"
      by (auto simp: nth_append in_set_conv_nth intro!: exI [of _ "?n - length (ran_tasks tr)"])
    then have "tm_armed s' = None" if "?n < length (ran_tasks tr)"
      using that by (intro run(2)) (metis nth_mem)
    with cancelled False run(1) rest assms(3) show ?thesis by simp
  qed
qed


section \<open>The next heartbeat\<close>

text \<open>What the strand's queue will leave the timer in: a cancellation disarms it, a live handler arms it,
  the handler of a cancelled wait does nothing.\<close>

fun will_beat :: "bool \<Rightarrow> strand_task list \<Rightarrow> bool" where
  "will_beat armed [] = armed"
| "will_beat armed (CancelTask # q) = will_beat False q"
| "will_beat armed (WaitTask True # q) = will_beat armed q"
| "will_beat armed (t # q) = will_beat True q"

lemma will_beat_append [simp]: "will_beat armed (q @ q') = will_beat (will_beat armed q) q'"
  by (induction armed q rule: will_beat.induct) simp_all

lemma will_beat_aborted [simp]: "will_beat armed (case a of None \<Rightarrow> [] | Some _ \<Rightarrow> [WaitTask True]) = armed"
  by (simp split: option.split)

lemma run_task_armed:
  "tm_armed (run_task ivl ts t s) \<in> {tm_armed s, None, Some (tm_now s + ivl)}"
  by (cases t) (simp_all add: Let_def split: prod.split)

definition timely :: "int \<Rightarrow> timer_state \<Rightarrow> bool" where
  "timely ivl s \<longleftrightarrow> (\<forall>t. tm_armed s = Some t \<longrightarrow> t \<le> tm_now s + ivl)"

lemma timer_step_timely:
  assumes "timer_step ivl s ev s'" "timely ivl s"
  shows "timely ivl s'"
  using assms(1)
proof (cases rule: timer_step.cases)
  case (ran t q ts)
  with run_task_armed [of ivl ts t "s\<lparr>tm_queue := q\<rparr>"] assms(2) show ?thesis
    by (auto simp: timely_def simp del: run_task.simps)
qed (use assms(2) in \<open>auto simp: timely_def split: if_splits\<close>)

definition beating :: "int \<Rightarrow> timer_state \<Rightarrow> bool" where
  "beating ivl s \<longleftrightarrow>
     (heartbeat_stopped (tm_hub s) \<or> will_beat (tm_armed s \<noteq> None) (tm_queue s)) \<and> timely ivl s"

lemma timer_step_beating:
  assumes "timer_step ivl s ev s'" "beating ivl s"
  shows "beating ivl s'"
proof -
  have "heartbeat_stopped (tm_hub s') \<or> will_beat (tm_armed s' \<noteq> None) (tm_queue s')"
    using assms(1)
  proof (cases rule: timer_step.cases)
    case (ran t q ts)
    show ?thesis
    proof (cases t)
      case (WaitTask aborted)
      obtain h again where "heartbeat_fired aborted ts (tm_hub s) = (h, again)" by fastforce
      with heartbeat_fired_flag [OF this] assms(2) ran WaitTask show ?thesis
        by (cases aborted) (auto simp: beating_def)
    qed (use assms(2) ran in \<open>auto simp: beating_def\<close>)
  qed (use assms(2) in \<open>auto simp: beating_def\<close>)
  with timer_step_timely [OF assms(1)] assms(2) show ?thesis by (simp add: beating_def)
qed

lemma timer_run_beating: "timer_run ivl s tr s' \<Longrightarrow> beating ivl s \<Longrightarrow> beating ivl s'"
  by (erule strand.run_invariant) (auto intro: timer_step_beating)

fun own_step :: "timer_event \<Rightarrow> bool" where
  "own_step (TimeIs now) = True"
| "own_step WaitExpired = True"
| "own_step (TaskRan t ts) = True"
| "own_step ev = False"

definition beats_next :: "int \<Rightarrow> int \<Rightarrow> timer_state \<Rightarrow> bool" where
  "beats_next ivl limit s \<longleftrightarrow> (\<exists>tr s'. timer_run ivl s tr s' \<and> list_all own_step tr \<and> tm_now s' \<le> limit \<and>
     tagged ''heartbeat'' (tm_hub s') = Suc (tagged ''heartbeat'' (tm_hub s)))"

lemma beats_next_step:
  assumes "timer_step ivl s ev s'" "own_step ev" "beats_next ivl limit s'"
    and "tagged ''heartbeat'' (tm_hub s') = tagged ''heartbeat'' (tm_hub s)"
  shows "beats_next ivl limit s"
proof -
  from assms(3) obtain tr s'' where "timer_run ivl s' tr s''" "list_all own_step tr" "tm_now s'' \<le> limit"
    "tagged ''heartbeat'' (tm_hub s'') = Suc (tagged ''heartbeat'' (tm_hub s'))" unfolding beats_next_def by blast
  with assms(1,2,4) show ?thesis
    unfolding beats_next_def by (intro exI [of _ "ev # tr"] exI [of _ s'']) (auto simp: strand.run_Cons)
qed

lemma beats_now:
  assumes "tm_queue s = WaitTask False # q" "\<not> heartbeat_stopped (tm_hub s)" "tm_now s \<le> limit"
  shows "beats_next ivl limit s"
proof -
  obtain h again where fired: "heartbeat_fired False '''' (tm_hub s) = (h, again)" by fastforce
  let ?s = "run_task ivl '''' (WaitTask False) (s\<lparr>tm_queue := q\<rparr>)"
  have "timer_run ivl s [TaskRan (WaitTask False) ''''] ?s" by (simp only: strand.run_single) (rule timer_step.ran [OF assms(1)])
  moreover have "tagged ''heartbeat'' (tm_hub ?s) = Suc (tagged ''heartbeat'' (tm_hub s))"
    using fired heartbeat_fired_flag [OF fired] heartbeat_fired_count [OF fired] assms(2) by simp
  moreover have "tm_now ?s = tm_now s" by (simp del: run_task.simps)
  ultimately show ?thesis unfolding beats_next_def using assms(3)
    by (intro exI [of _ "[TaskRan (WaitTask False) '''']"] exI [of _ ?s]) (simp del: run_task.simps)
qed

lemma beats_when_idle:
  assumes "tm_queue s = []" "tm_armed s = Some t" "t \<le> limit" "tm_now s \<le> limit" "\<not> heartbeat_stopped (tm_hub s)"
  shows "beats_next ivl limit s"
proof -
  let ?now = "max t (tm_now s)"
  let ?s = "s\<lparr>tm_now := ?now\<rparr>"
  have "timer_step ivl ?s WaitExpired (post_task (WaitTask False) (?s\<lparr>tm_armed := None\<rparr>))"
    using assms(2) by (intro timer_step.expired [of _ t]) (simp_all add: max_def)
  moreover have "beats_next ivl limit (post_task (WaitTask False) (?s\<lparr>tm_armed := None\<rparr>))"
    by (rule beats_now [where q = "[]"]) (use assms in simp_all)
  ultimately have "beats_next ivl limit ?s" by (auto intro: beats_next_step)
  from beats_next_step [OF timer_step.time _ this] show ?thesis by simp
qed

definition live_tasks :: "strand_task list \<Rightarrow> nat" where
  "live_tasks q = length q + length (filter (\<lambda>t. t \<noteq> WaitTask True) q)"

lemma beats_after_queue:
  assumes "beating ivl s" "\<not> heartbeat_stopped (tm_hub s)" "0 \<le> ivl"
  shows "beats_next ivl (tm_now s + ivl) s"
  using assms(1,2)
proof (induction "live_tasks (tm_queue s)" arbitrary: s rule: less_induct)
  case less
  show ?case
  proof (cases "tm_queue s")
    case Nil
    then obtain t where "tm_armed s = Some t" "t \<le> tm_now s + ivl"
      using less.prems by (auto simp: beating_def timely_def)
    with Nil less.prems(2) assms(3) show ?thesis by (intro beats_when_idle) auto
  next
    case (Cons t q)
    show ?thesis
    proof (cases "t = WaitTask False")
      case True
      with Cons less.prems(2) assms(3) show ?thesis by (intro beats_now) auto
    next
      case False
      let ?s = "run_task ivl '''' t (s\<lparr>tm_queue := q\<rparr>)"
      have step: "timer_step ivl s (TaskRan t '''') ?s" by (rule timer_step.ran [OF Cons])
      have hub: "tm_hub ?s = tm_hub s" using False by (cases t) (auto simp: heartbeat_fired_def)
      have "live_tasks (tm_queue ?s) < live_tasks (tm_queue s)"
        using False Cons by (cases t) (auto simp: live_tasks_def heartbeat_fired_def split: option.split)
      from less.hyps [OF this timer_step_beating [OF step less.prems(1)]] less.prems(2) hub
      have "beats_next ivl (tm_now s + ivl) ?s" by simp
      from beats_next_step [OF step _ this] show ?thesis by (simp add: hub)
    qed
  qed
qed

text \<open>C20. The heartbeat is never lost: whatever starts, stops and publishers did after a start of the hub,
  while the last of them was not a stop, the strand's queue leaves the timer armed, an idle strand has it
  armed to expire within one interval, and the steps of the clock, the timer and the strand alone lead
  to the next heartbeat within that interval.\<close>

theorem heartbeat_goes_on:
  assumes "timer_run ivl (new_timer t0) tr0 s" "timer_run ivl (timer_start s) tr s'" "0 \<le> ivl"
    and "\<not> heartbeat_stopped (tm_hub s')"
  shows "will_beat (tm_armed s' \<noteq> None) (tm_queue s') \<and>
    (tm_queue s' = [] \<longrightarrow> (\<exists>t. tm_armed s' = Some t \<and> t \<le> tm_now s' + ivl)) \<and>
    beats_next ivl (tm_now s' + ivl) s'"
proof -
  have "timely ivl (new_timer t0)" by (simp add: timely_def new_timer_def)
  with assms(1) have "timely ivl s" by (rule strand.run_invariant) (rule timer_step_timely)
  then have "beating ivl (timer_start s)" by (simp add: beating_def timely_def)
  with timer_run_beating [OF assms(2)] have "beating ivl s'" by blast
  with beats_after_queue [OF this assms(4,3)] assms(4) show ?thesis by (auto simp: beating_def timely_def)
qed

section \<open>A concrete run\<close>

lemma demo_fired:
  "heartbeat_fired False ts (hub_start initial_hub) =
     (\<lparr>published = [(''heartbeat'', JObject [(''ts'', JString ts)])], last_ready_payload = None,
        heartbeat_stopped = False, heartbeat_ticks = 1\<rparr>, True)"
  by (simp add: heartbeat_fired_def hub_start_def initial_hub_def publishEvent_def kReadyReemitPeriod_def)

definition demo_beaten :: timer_state where
  "demo_beaten = \<lparr>tm_hub = \<lparr>published = [(''heartbeat'', JObject [(''ts'', JString ''t'')])], last_ready_payload = None,
     heartbeat_stopped = False, heartbeat_ticks = 1\<rparr>, tm_now = 30, tm_armed = Some 60, tm_queue = []\<rparr>"

lemma demo_timer:
  "timer_run 30 (timer_start (new_timer 0))
     [TaskRan ScheduleTask ''s'', TimeIs 30, WaitExpired, TaskRan (WaitTask False) ''t''] demo_beaten"
proof -
  define s1 where "s1 = \<lparr>tm_hub = hub_start initial_hub, tm_now = 0, tm_armed = Some 30, tm_queue = []\<rparr>"
  define s2 where "s2 = \<lparr>tm_hub = hub_start initial_hub, tm_now = 30, tm_armed = None, tm_queue = [WaitTask False]\<rparr>"
  have "timer_step 30 (timer_start (new_timer 0)) (TaskRan ScheduleTask ''s'') s1"
    using timer_step.ran [of "timer_start (new_timer 0)" ScheduleTask "[]" 30 "''s''"]
    by (simp add: scheduleHeartbeat_def cancel_wait_def Let_def timer_start_def post_task_def new_timer_def s1_def)
  moreover have "timer_step 30 s1 (TimeIs 30) (s1\<lparr>tm_now := 30\<rparr>)" by (rule timer_step.time) (simp add: s1_def)
  moreover have "timer_step 30 (s1\<lparr>tm_now := 30\<rparr>) WaitExpired s2"
    using timer_step.expired [of "s1\<lparr>tm_now := 30\<rparr>" 30 30] by (simp add: s1_def s2_def post_task_def)
  moreover have "timer_step 30 s2 (TaskRan (WaitTask False) ''t'') demo_beaten"
    using timer_step.ran [of s2 "WaitTask False" "[]" 30 "''t''"] demo_fired
    by (simp add: s2_def demo_beaten_def scheduleHeartbeat_def cancel_wait_def Let_def)
  ultimately show ?thesis by (auto simp only: strand.run_Cons strand.run_Nil)
qed

lemma demo_timer_run:
  "timer_run 30 (new_timer 0)
     [StartCalled, TaskRan ScheduleTask ''s'', TimeIs 30, WaitExpired, TaskRan (WaitTask False) ''t''] demo_beaten"
  using timer_step.start demo_timer by (simp only: strand.run_Cons) blast

theorem heartbeat_rate_witness:
  "int (tagged ''heartbeat'' (tm_hub demo_beaten)) * 30 \<le> 30 \<and> tagged ''heartbeat'' (tm_hub demo_beaten) = 1"
  using heartbeat_rate [OF demo_timer_run] by (simp add: demo_beaten_def tagged_def)

theorem stop_is_final_witness:
  "\<exists>s'. timer_run 30 (timer_stop False demo_beaten) [TaskRan CancelTask ''c''] s' \<and> tm_armed s' = None \<and>
     tagged ''heartbeat'' (tm_hub s') = 1"
proof -
  let ?s = "timer_stop False demo_beaten"
  let ?s' = "run_task 30 ''c'' CancelTask (?s\<lparr>tm_queue := []\<rparr>)"
  have "timer_step 30 ?s (TaskRan CancelTask ''c'') ?s'" by (rule timer_step.ran) (simp add: demo_beaten_def)
  then have run: "timer_run 30 ?s [TaskRan CancelTask ''c''] ?s'" by (simp only: strand.run_single)
  from stop_is_final [OF run, of True] have "tm_armed ?s' = None"
    "tagged ''heartbeat'' (tm_hub ?s') = tagged ''heartbeat'' (tm_hub demo_beaten)"
    by (auto simp: demo_beaten_def)
  with run show ?thesis by (intro exI [of _ ?s']) (simp add: demo_beaten_def tagged_def)
qed

theorem heartbeat_goes_on_witness:
  "beats_next 30 60 demo_beaten"
  using heartbeat_goes_on [OF timer_run.none demo_timer] by (simp add: demo_beaten_def)

end
