(* ===== verification/Page_Document.thy ===== *)
theory Page_Document
  imports Sse_Stream
begin

text \<open>
  The script of the monitor page (monitor_page.hpp), function by function: here its variables and
  document, rendering, the radio list, what an event of the stream changes, and the event console. The page is a record of the
  script's variables and of the parts of the document it reads or writes; a statement is a function from the
  page to the page and the exception it ends with, if any, and a block runs its statements until one throws.
  An async function is cut at its fetch: the first half leaves a request in outstanding, the second runs when the
  answer arrives, so the answers of the service and the operator's actions can interleave in any order. The
  wording of the browser's own errors is a parameter; an engine's TypeErrors are not told apart.
\<close>

record browser =
  location_protocol :: string
  location_hostname :: string
  location_port :: string
  type_error_text :: string
  json_error_text :: "string \<Rightarrow> string"

record fetch_request =
  fetch_method :: string
  fetch_url :: string
  fetch_headers :: "(string \<times> string) list"
  fetch_body :: "string option"

text \<open>What an async function does when its fetch is answered. The flag says that init called it.\<close>

datatype call = HealthCall bool | TokenCall bool | RadiosCall | SelectCall string | ChannelCall | PowerCall | StreamCall nat

datatype js_error = TypeError | Thrown string | AbortError

record dropdown =
  options :: "(string \<times> string) list"
  selectedIndex :: "nat option"

record event_card =
  card_class :: string
  card_tag :: string
  card_meta :: string
  card_payload :: string
  card_hidden :: bool

record page =
  globalToken :: string
  radiosCache :: "json list"
  sseController :: "nat option"
  controllers :: nat
  aborted_controllers :: "nat list"
  eventCount :: nat
  lastEventId :: string
  activeRadioId :: js
  eventFilters :: "string list"
  localStorage :: "string option"
  apiToken :: string
  sseToken :: string
  sseUrl :: string
  pwrDbm :: string
  radioSel :: dropdown
  chanSel :: dropdown
  texts :: "(string \<times> string) list"
  radioConsole :: "(string \<times> string) list"
  sseConsole :: "event_card list"
  sseStatus :: "string \<times> string"
  connectBtn_disabled :: bool
  disconnectBtn_disabled :: bool
  outstanding :: "(nat \<times> call \<times> fetch_request) list"
  requests :: nat
  streams :: "(nat \<times> string) list"
  clock :: string

section \<open>Statements\<close>

type_synonym statement = "page \<Rightarrow> js_error option \<times> page"

definition perform :: "(page \<Rightarrow> page) \<Rightarrow> statement" where
  "perform f = (\<lambda>p. (None, f p))"

definition throw :: "js_error \<Rightarrow> statement" where
  "throw e = (\<lambda>p. (Some e, p))"

definition skip :: statement where
  "skip = perform (\<lambda>p. p)"

fun block :: "statement list \<Rightarrow> statement" where
  "block [] p = (None, p)"
| "block (s # ss) p = (case s p of (None, p') \<Rightarrow> block ss p' | (Some e, p') \<Rightarrow> (Some e, p'))"

text \<open>The value of an expression, which may throw and may read the page.\<close>

definition evaluate :: "(page \<Rightarrow> 'a option) \<Rightarrow> ('a \<Rightarrow> statement) \<Rightarrow> statement" where
  "evaluate e f = (\<lambda>p. case e p of None \<Rightarrow> (Some TypeError, p) | Some v \<Rightarrow> f v p)"

text \<open>A statement that reads the page.\<close>

definition reading :: "(page \<Rightarrow> statement) \<Rightarrow> statement" where
  "reading f = (\<lambda>p. f p p)"

definition try_catch :: "statement \<Rightarrow> (js_error \<Rightarrow> statement) \<Rightarrow> statement" where
  "try_catch s handler = (\<lambda>p. case s p of (None, p') \<Rightarrow> (None, p') | (Some e, p') \<Rightarrow> handler e p')"

definition error_message :: "browser \<Rightarrow> js_error \<Rightarrow> string" where
  "error_message br e = (case e of TypeError \<Rightarrow> type_error_text br | Thrown m \<Rightarrow> m | AbortError \<Rightarrow> ''AbortError'')"

section \<open>A select element\<close>

text \<open>One line high, so an option is selected as soon as there is one; a value no option has selects none.\<close>

definition empty_dropdown :: dropdown where
  "empty_dropdown = \<lparr>options = [], selectedIndex = None\<rparr>"

definition append_option :: "string \<Rightarrow> string \<Rightarrow> dropdown \<Rightarrow> dropdown" where
  "append_option v shown d =
     \<lparr>options = options d @ [(v, shown)],
      selectedIndex = (case selectedIndex d of None \<Rightarrow> Some 0 | Some i \<Rightarrow> Some i)\<rparr>"

definition dropdown_value :: "dropdown \<Rightarrow> string" where
  "dropdown_value d =
     (case selectedIndex d of None \<Rightarrow> [] | Some i \<Rightarrow> if i < length (options d) then fst (options d ! i) else [])"

definition set_dropdown_value :: "string \<Rightarrow> dropdown \<Rightarrow> dropdown" where
  "set_dropdown_value v d =
     d\<lparr>selectedIndex :=
        (let i = length (takeWhile (\<lambda>ov. fst ov \<noteq> v) (options d)) in if i < length (options d) then Some i else None)\<rparr>"

section \<open>Helpers\<close>

definition API_BASE :: string where
  "API_BASE = ''/api/v1''"

definition setToken :: "string \<Rightarrow> statement" where
  "setToken v = perform (\<lambda>p. p\<lparr>globalToken := js_trim v, apiToken := js_trim v, sseToken := js_trim v\<rparr>)"

definition apiHeaders :: "bool \<Rightarrow> page \<Rightarrow> (string \<times> string) list" where
  "apiHeaders includeBody p =
     (if globalToken p \<noteq> [] then [(''Authorization'', ''Bearer '' @ globalToken p)] else []) @
     (if includeBody then [(''Content-Type'', ''application/json'')] else [])"

definition selectedRadioId :: "page \<Rightarrow> string" where
  "selectedRadioId p = dropdown_value (radioSel p)"

definition logLine :: "string \<Rightarrow> string \<Rightarrow> statement" where
  "logLine message level = perform (\<lambda>p. p\<lparr>radioConsole := radioConsole p @ [(level, clock p @ '' | '' @ message)]\<rparr>)"

definition set_shown :: "string \<Rightarrow> string \<Rightarrow> statement" where
  "set_shown target t = perform (\<lambda>p. p\<lparr>texts := AList.update target t (texts p)\<rparr>)"

definition formatNullable :: "js \<Rightarrow> string \<Rightarrow> string option" where
  "formatNullable v unit =
     (if js_nullish v \<or> v = js_str [] then Some ''-'' else map_option (\<lambda>t. t @ unit) (js_text v))"

definition statusBadge :: "js \<Rightarrow> string option" where
  "statusBadge status =
     (let normalized = js_or status (js_str ''offline'');
          css = (if js_eq normalized (js_str ''online'') then ''badge-online''
                 else if js_eq normalized (js_str ''recovering'') then ''badge-recovering'' else ''badge-offline'')
      in map_option (\<lambda>t. ''<span class='' @ [CHR 0x22] @ ''badge '' @ css @ [CHR 0x22] @ ''>'' @ t @ ''</span>'')
           (js_text normalized))"

section \<open>Rendering a radio\<close>

definition channels_of :: "js \<Rightarrow> js option" where
  "channels_of radio =
     do {
       caps \<leftarrow> js_prop ''capabilities'' radio;
       Some (js_or (js_opt ''channels'' caps) (Some (JArray [])))
     }"

definition channel_matches :: "js \<Rightarrow> json \<Rightarrow> bool option" where
  "channel_matches frequency channel =
     do {
       f \<leftarrow> js_prop ''frequencyMhz'' (Some channel);
       a \<leftarrow> js_number f;
       b \<leftarrow> js_number frequency;
       Some (flt \<bar>a - b\<bar> (lit (1 / 1000)))
     }"

definition deriveChannelIndex :: "js \<Rightarrow> js option" where
  "deriveChannelIndex radio =
     (if \<not> js_truthy radio then Some null
      else do {
        state \<leftarrow> js_prop ''state'' radio;
        if js_truthy state \<and> js_is_integer (js_opt ''channelIndex'' state) then js_prop ''channelIndex'' state
        else do {
          channels \<leftarrow> channels_of radio;
          let frequency = js_opt ''frequencyMhz'' state;
          if js_nullish frequency then Some null
          else do {
            xs \<leftarrow> js_elements channels;
            found \<leftarrow> js_find (channel_matches frequency) xs;
            if js_truthy found then js_prop ''index'' found else Some null
          }
        }
      })"

definition channel_text :: "string \<Rightarrow> string \<Rightarrow> string \<Rightarrow> json \<Rightarrow> string option" where
  "channel_text before between after channel =
     do {
       i \<leftarrow> js_prop ''index'' (Some channel);
       it \<leftarrow> js_text i;
       f \<leftarrow> js_prop ''frequencyMhz'' (Some channel);
       ft \<leftarrow> js_text f;
       Some (before @ it @ between @ ft @ after)
     }"

definition append_channel_option :: "json \<Rightarrow> statement" where
  "append_channel_option channel =
     evaluate (\<lambda>p. Option.bind (js_prop ''index'' (Some channel)) js_text) (\<lambda>v.
     evaluate (\<lambda>p. channel_text ''Ch '' '' | '' '' MHz'' channel) (\<lambda>t.
       perform (\<lambda>p. p\<lparr>chanSel := append_option v t (chanSel p)\<rparr>)))"

definition populateChannelDropdown :: "js \<Rightarrow> statement" where
  "populateChannelDropdown radio =
     block
      [perform (\<lambda>p. p\<lparr>chanSel := empty_dropdown\<rparr>),
       evaluate (\<lambda>p. if js_truthy radio then Option.bind (channels_of radio) (\<lambda>cs. map_option (\<lambda>n. (cs, n)) (js_prop ''length'' cs))
                     else Some (undef, undef)) (\<lambda>(channels, n).
         if \<not> js_truthy n then
           perform (\<lambda>p. p\<lparr>chanSel := append_option [] ''No supported channels'' (chanSel p)\<rparr>)
         else
           evaluate (\<lambda>p. js_elements channels) (\<lambda>xs.
             block (map append_channel_option xs @
               [evaluate (\<lambda>p. deriveChannelIndex radio) (\<lambda>selected.
                  if selected \<noteq> null then
                    evaluate (\<lambda>p. js_text selected) (\<lambda>t. perform (\<lambda>p. p\<lparr>chanSel := set_dropdown_value t (chanSel p)\<rparr>))
                  else skip)])))]"

definition power_range_text :: "js \<Rightarrow> js \<Rightarrow> string option" where
  "power_range_text powerMin powerMax =
     (if powerMin = undef \<or> powerMax = undef then Some ''-''
      else do {
        lo \<leftarrow> js_text powerMin;
        hi \<leftarrow> js_text powerMax;
        Some (lo @ '' .. '' @ hi @ '' dBm'')
      })"

definition channels_text :: "js \<Rightarrow> string option" where
  "channels_text channels =
     do {
       n \<leftarrow> js_prop ''length'' channels;
       if js_truthy n then do {
         xs \<leftarrow> js_elements channels;
         ts \<leftarrow> those (map (channel_text ''Ch '' '' ('' '' MHz)'') xs);
         Some (js_join '', '' ts)
       }
       else Some ''-''
     }"

definition renderRadioState :: "js \<Rightarrow> statement" where
  "renderRadioState radio =
     block
      [reading (\<lambda>p. set_shown ''selectedRadioId'' (if selectedRadioId p \<noteq> [] then selectedRadioId p else ''-'')),
       evaluate (\<lambda>p. js_text (js_or (activeRadioId p) (js_str ''-''))) (set_shown ''activeRadioId''),
       if \<not> js_truthy radio then
         block
          [set_shown ''radioStatus'' ''-'', set_shown ''radioChannelIndex'' ''-'', set_shown ''radioFrequency'' ''-'',
           set_shown ''radioPower'' ''-'', set_shown ''radioPowerRange'' ''-'', set_shown ''radioChannels'' ''-'',
           populateChannelDropdown null]
       else
         evaluate (\<lambda>p. deriveChannelIndex radio) (\<lambda>derivedIndex.
         evaluate (\<lambda>p. channels_of radio) (\<lambda>channels.
         evaluate (\<lambda>p. js_prop ''capabilities'' radio) (\<lambda>caps.
           block
            [evaluate (\<lambda>p. Option.bind (js_prop ''status'' radio) (\<lambda>s. statusBadge (js_or s (js_str ''offline''))))
               (set_shown ''radioStatus''),
             evaluate (\<lambda>p. if derivedIndex = null then Some ''unknown''
                            else map_option (\<lambda>t. ''Ch '' @ t) (js_text derivedIndex)) (set_shown ''radioChannelIndex''),
             evaluate (\<lambda>p. Option.bind (js_prop ''state'' radio) (\<lambda>s. formatNullable (js_opt ''frequencyMhz'' s) '' MHz''))
               (set_shown ''radioFrequency''),
             evaluate (\<lambda>p. Option.bind (js_prop ''state'' radio) (\<lambda>s. formatNullable (js_opt ''powerDbm'' s) '' dBm''))
               (set_shown ''radioPower''),
             evaluate (\<lambda>p. power_range_text (js_opt ''minPowerDbm'' caps) (js_opt ''maxPowerDbm'' caps))
               (set_shown ''radioPowerRange''),
             evaluate (\<lambda>p. channels_text channels) (set_shown ''radioChannels''),
             populateChannelDropdown radio])))]"

section \<open>The radio list\<close>

definition has_id :: "js \<Rightarrow> json \<Rightarrow> bool option" where
  "has_id v radio = map_option (\<lambda>i. js_eq i v) (js_prop ''id'' (Some radio))"

definition append_radio_option :: "json \<Rightarrow> statement" where
  "append_radio_option radio =
     evaluate (\<lambda>p. js_prop ''id'' (Some radio)) (\<lambda>i.
     evaluate (\<lambda>p. js_text i) (\<lambda>it.
     evaluate (\<lambda>p. Option.bind (js_prop ''status'' (Some radio)) (\<lambda>s. js_text (js_or s (js_str ''offline'')))) (\<lambda>st.
       perform (\<lambda>p. p\<lparr>radioSel :=
         append_option it (it @ '' ('' @ st @ '')'' @ (if js_eq i (activeRadioId p) then '' [active]'' else [])) (radioSel p)\<rparr>))))"

definition render_selected :: statement where
  "render_selected =
     evaluate (\<lambda>p. js_find (has_id (js_str (selectedRadioId p))) (radiosCache p)) (\<lambda>found.
       renderRadioState (js_or found null))"

definition choose_radio :: "string \<Rightarrow> statement" where
  "choose_radio previous =
     evaluate (\<lambda>p. if previous = [] then Some False else js_some (has_id (js_str previous)) (radiosCache p)) (\<lambda>keep.
       if keep then perform (\<lambda>p. p\<lparr>radioSel := set_dropdown_value previous (radioSel p)\<rparr>)
       else
         evaluate (\<lambda>p. if js_truthy (activeRadioId p) then js_some (has_id (activeRadioId p)) (radiosCache p) else Some False) (\<lambda>active.
           if active then
             evaluate (\<lambda>p. js_text (activeRadioId p)) (\<lambda>t. perform (\<lambda>p. p\<lparr>radioSel := set_dropdown_value t (radioSel p)\<rparr>))
           else perform (\<lambda>p. p\<lparr>radioSel := (radioSel p)\<lparr>selectedIndex := Some 0\<rparr>\<rparr>)))"

definition refreshRadioDropdown :: statement where
  "refreshRadioDropdown = reading (\<lambda>before.
     block
      [perform (\<lambda>p. p\<lparr>radioSel := empty_dropdown\<rparr>),
       reading (\<lambda>p.
         if radiosCache p = [] then
           block
            [perform (\<lambda>p. p\<lparr>radioSel := append_option [] ''No radios loaded'' (radioSel p)\<rparr>),
             renderRadioState null]
         else
           block (map append_radio_option (radiosCache p) @ [choose_radio (selectedRadioId before), render_selected]))])"

definition onRadioSelected :: statement where
  "onRadioSelected = render_selected"

section \<open>Events of the stream\<close>

definition new_radio :: "js \<Rightarrow> js \<Rightarrow> js \<Rightarrow> js \<Rightarrow> json" where
  "new_radio i model status state =
     js_object [(''id'', i), (''model'', model), (''status'', status),
       (''capabilities'', Some (JObject [(''channels'', JArray [])])), (''state'', state)]"

definition merge_radio :: "json \<Rightarrow> json \<Rightarrow> json" where
  "merge_radio incoming existing =
     (let field = (\<lambda>k radio. js_opt k (Some radio));
          existing = js_assign ''model'' (js_or (field ''model'' incoming) (field ''model'' existing)) existing;
          existing = js_assign ''status'' (js_or (field ''status'' incoming) (field ''status'' existing)) existing
      in js_assign ''state'' (Some (js_spread (js_or (field ''state'' existing) (Some (JObject [])))
           (js_or (field ''state'' incoming) (Some (JObject []))))) existing)"

definition apply_incoming :: "json \<Rightarrow> statement" where
  "apply_incoming incoming =
     evaluate (\<lambda>p. if radiosCache p = [] then Some None
                    else Option.bind (js_prop ''id'' (Some incoming)) (\<lambda>i. js_find_index (has_id i) (radiosCache p))) (\<lambda>existing.
       case existing of
         None \<Rightarrow>
           evaluate (\<lambda>p. js_prop ''id'' (Some incoming)) (\<lambda>i.
             perform (\<lambda>p. p\<lparr>radiosCache := radiosCache p @
               [new_radio i (js_opt ''model'' (Some incoming)) (js_opt ''status'' (Some incoming))
                  (js_or (js_opt ''state'' (Some incoming)) (Some (JObject [])))]\<rparr>))
       | Some n \<Rightarrow>
           perform (\<lambda>p. p\<lparr>radiosCache := (radiosCache p)[n := merge_radio incoming (radiosCache p ! n)]\<rparr>))"

definition applyReadySnapshot :: "js \<Rightarrow> statement" where
  "applyReadySnapshot snapshot =
     (case js_elements (js_opt ''radios'' snapshot) of
        None \<Rightarrow> skip
      | Some radios \<Rightarrow>
          block
           (perform (\<lambda>p. p\<lparr>activeRadioId := js_or (js_opt ''activeRadioId'' snapshot) (activeRadioId p)\<rparr>) #
            map apply_incoming radios @ [refreshRadioDropdown]))"

text \<open>radio.state.k = payload.k, where the payload has the property.\<close>

definition copy_state :: "js \<Rightarrow> string \<Rightarrow> json \<Rightarrow> json" where
  "copy_state payload k radio =
     (case js_opt k payload of None \<Rightarrow> radio
      | Some v \<Rightarrow>
          (case js_opt ''state'' (Some radio) of None \<Rightarrow> radio | Some state \<Rightarrow> js_set ''state'' (js_set k v state) radio))"

definition update_radio :: "string \<Rightarrow> js \<Rightarrow> json \<Rightarrow> json" where
  "update_radio tag payload radio =
     (let radio = (if js_truthy (js_opt ''state'' (Some radio)) then radio else js_set ''state'' (JObject []) radio)
      in if tag = ''state'' then
           fold (copy_state payload) [''frequencyMhz'', ''powerDbm'', ''channelIndex'']
             (js_assign ''status'' (js_or (js_opt ''status'' payload) (js_opt ''status'' (Some radio))) radio)
         else if tag = ''channelChanged'' then fold (copy_state payload) [''frequencyMhz'', ''channelIndex''] radio
         else if tag = ''powerChanged'' then copy_state payload ''powerDbm'' radio
         else radio)"

definition applyTelemetryEvent :: "string \<Rightarrow> js \<Rightarrow> statement" where
  "applyTelemetryEvent tag payload =
     (if \<not> js_truthy payload \<or> \<not> js_is_object payload then skip
      else if tag = ''ready'' then applyReadySnapshot (js_opt ''snapshot'' payload)
      else
        (let radioId = js_opt ''radioId'' payload
         in if \<not> js_truthy radioId then skip
            else
              evaluate (\<lambda>p. js_find_index (has_id radioId) (radiosCache p)) (\<lambda>known.
                block
                 [perform (\<lambda>p.
                    (let cache = (case known of Some n \<Rightarrow> radiosCache p
                                  | None \<Rightarrow> radiosCache p @ [new_radio radioId radioId (js_str ''offline'') (Some (JObject []))]);
                         n = (case known of Some n \<Rightarrow> n | None \<Rightarrow> length (radiosCache p))
                     in p\<lparr>radiosCache := cache[n := update_radio tag payload (cache ! n)]\<rparr>)),
                  refreshRadioDropdown])))"

section \<open>The event console\<close>

definition updateSseStatus :: "bool \<Rightarrow> string \<Rightarrow> statement" where
  "updateSseStatus live label = perform (\<lambda>p.
     p\<lparr>sseStatus := (label, if live then ''badge badge-online'' else ''badge badge-offline''),
       connectBtn_disabled := live, disconnectBtn_disabled := \<not> live\<rparr>)"

definition updateLastEventIdDisplay :: statement where
  "updateLastEventIdDisplay =
     reading (\<lambda>p. set_shown ''lastEventId'' (if lastEventId p \<noteq> [] then lastEventId p else ''none''))"

definition storeLastEventId :: "string \<Rightarrow> statement" where
  "storeLastEventId i =
     (if i = [] then skip
      else block [perform (\<lambda>p. p\<lparr>lastEventId := i, localStorage := Some i\<rparr>), updateLastEventIdDisplay])"

definition clearSseEvents :: statement where
  "clearSseEvents = block [perform (\<lambda>p. p\<lparr>sseConsole := [], eventCount := 0\<rparr>), set_shown ''eventCount'' ''0'']"

definition resetResumeState :: statement where
  "resetResumeState =
     block
      [perform (\<lambda>p. p\<lparr>lastEventId := [], localStorage := None\<rparr>), updateLastEventIdDisplay,
       logLine ''Cleared Last-Event-ID resume state'' ''ok'']"

definition payload_text :: "json \<Rightarrow> string" where
  "payload_text payload = (case payload of JString s \<Rightarrow> s | _ \<Rightarrow> stringify True 0 payload)"

definition addSseEvent :: "string \<Rightarrow> json \<Rightarrow> string option \<Rightarrow> statement" where
  "addSseEvent tag payload eventId =
     (let i = (case eventId of None \<Rightarrow> [] | Some i \<Rightarrow> i)
      in block
          [if i \<noteq> [] then storeLastEventId i else skip,
           perform (\<lambda>p.
             (let card = \<lparr>card_class = ''event-card '' @ tag, card_tag = tag,
                    card_meta = clock p @ (if i \<noteq> [] then '' | id '' @ i else []),
                    card_payload = payload_text payload, card_hidden = (tag \<notin> set (eventFilters p))\<rparr>
              in p\<lparr>sseConsole := take 200 (card # sseConsole p), eventCount := eventCount p + 1\<rparr>)),
           reading (\<lambda>p. set_shown ''eventCount'' (show_nat (eventCount p)))])"

text \<open>classList: the classes of a card, split at white space.\<close>

fun class_tokens :: "string \<Rightarrow> string list" where
  "class_tokens [] = [[]]"
| "class_tokens (c # s) = (if isspace c then [] # class_tokens s else (c # hd (class_tokens s)) # tl (class_tokens s))"

definition card_type :: "event_card \<Rightarrow> string option" where
  "card_type c = List.find (\<lambda>v. v \<noteq> ''event-card'') (filter (\<lambda>v. v \<noteq> []) (class_tokens (card_class c)))"

definition applyFilterVisibility :: statement where
  "applyFilterVisibility = perform (\<lambda>p. p\<lparr>sseConsole :=
     map (\<lambda>card. card\<lparr>card_hidden :=
            (case card_type card of None \<Rightarrow> True | Some t \<Rightarrow> t \<notin> set (eventFilters p))\<rparr>) (sseConsole p)\<rparr>)"

text \<open>The change listener that initializeFilters installs.\<close>

definition toggleFilter :: "string \<Rightarrow> bool \<Rightarrow> statement" where
  "toggleFilter v checked =
     block
      [perform (\<lambda>p. p\<lparr>eventFilters := (if checked then List.insert v (eventFilters p) else removeAll v (eventFilters p))\<rparr>),
       applyFilterVisibility]"

definition filter_boxes :: "string list" where
  "filter_boxes = [''ready'', ''state'', ''channelChanged'', ''powerChanged'', ''fault'', ''heartbeat'', ''SYSTEM'', ''ERROR'']"

definition initializeFilters :: statement where
  "initializeFilters = perform (\<lambda>p. p\<lparr>eventFilters := fold List.insert filter_boxes (eventFilters p)\<rparr>)"

end
