(* ===== verification/Monitor_Page.thy ===== *)
theory Monitor_Page
  imports Page_Document Trace_Systems
begin

text \<open>
  The rest of the script of monitor_page.hpp: the requests and what their answers change, the telemetry
  connection, the start of the page, and the page as a state machine whose events are the operator's
  actions, the answers of the service and the pieces of the telemetry stream.
\<close>

section \<open>Requests and their answers\<close>

text \<open>How a fetch ends: it rejects, or a response arrives with its status, status text and body. Without
  a body, or when it cannot be read, the page reads the empty text; the body of a telemetry response
  arrives in chunks instead.\<close>

datatype fetch_answer =
    FetchFailed string
  | FetchAborted
  | Response nat string "string option"

definition send :: "call \<Rightarrow> fetch_request \<Rightarrow> statement" where
  "send c r = perform (\<lambda>p. p\<lparr>outstanding := outstanding p @ [(requests p, c, r)], requests := requests p + 1\<rparr>)"

definition response_ok :: "nat \<Rightarrow> bool" where
  "response_ok status \<longleftrightarrow> 200 \<le> status \<and> status \<le> 299"

definition with_body :: "browser \<Rightarrow> fetch_answer \<Rightarrow> (nat \<Rightarrow> js \<Rightarrow> statement) \<Rightarrow> statement" where
  "with_body br a f =
     (case a of
        FetchFailed m \<Rightarrow> throw (Thrown m)
      | FetchAborted \<Rightarrow> throw AbortError
      | Response status _ body \<Rightarrow>
          (let t = (case body of None \<Rightarrow> [] | Some t \<Rightarrow> t)
           in case json_parse_text t of None \<Rightarrow> throw (Thrown (json_error_text br t)) | Some j \<Rightarrow> f status (Some j)))"

text \<open>The check of the command replies: response.ok and body.result, else the body's message.\<close>

definition reply_accepted :: "nat \<Rightarrow> js \<Rightarrow> bool option" where
  "reply_accepted status body =
     (if response_ok status then map_option (\<lambda>r. js_eq r (js_str ''ok'')) (js_prop ''result'' body) else Some False)"

definition reply_message :: "js \<Rightarrow> string option" where
  "reply_message body =
     Option.bind (js_prop ''message'' body) (\<lambda>m. js_text (js_or m (js_str ''request failed'')))"

definition with_reply :: "browser \<Rightarrow> fetch_answer \<Rightarrow> (js \<Rightarrow> statement) \<Rightarrow> statement" where
  "with_reply br a f = with_body br a (\<lambda>status body.
     evaluate (\<lambda>p. reply_accepted status body) (\<lambda>ok.
       if ok then f body else evaluate (\<lambda>p. reply_message body) (\<lambda>m. throw (Thrown m))))"

definition get_request :: "string \<Rightarrow> (string \<times> string) list \<Rightarrow> fetch_request" where
  "get_request url headers = \<lparr>fetch_method = ''GET'', fetch_url = url, fetch_headers = headers, fetch_body = None\<rparr>"

definition post_request :: "string \<Rightarrow> (string \<times> js) list \<Rightarrow> page \<Rightarrow> fetch_request" where
  "post_request url body p =
     \<lparr>fetch_method = ''POST'', fetch_url = url, fetch_headers = apiHeaders True p, fetch_body = Some (json_stringify (js_object body))\<rparr>"

subsection \<open>Health\<close>

definition loadServiceIdentity :: "bool \<Rightarrow> statement" where
  "loadServiceIdentity boot =
     block [logLine (''GET '' @ API_BASE @ ''/health'') ''info'', send (HealthCall boot) (get_request (API_BASE @ ''/health'') [])]"

definition updateIdentityFromHealth :: "js \<Rightarrow> statement" where
  "updateIdentityFromHealth snapshot =
     (let version = js_or (js_opt ''version'' snapshot) (Some (JObject []));
          field = (\<lambda>target v. evaluate (\<lambda>p. js_text (js_or v (js_str ''-''))) (set_shown target))
      in block
          [set_shown ''serviceName'' ''radio-control'',
           field ''serviceHealth'' (js_opt ''status'' snapshot),
           field ''serviceVersion'' (js_opt ''container'' version),
           field ''serviceGitVersion'' (js_opt ''gitVersion'' version),
           field ''serviceBuildDate'' (js_opt ''buildTime'' version),
           field ''serviceSchema'' (js_opt ''schema'' version)])"

definition health_answered :: "browser \<Rightarrow> fetch_answer \<Rightarrow> statement" where
  "health_answered br a =
     try_catch
      (with_body br a (\<lambda>status snapshot.
         if \<not> response_ok status \<or> \<not> js_truthy snapshot \<or> \<not> js_is_object snapshot then throw (Thrown ''unexpected health payload'')
         else block
           [updateIdentityFromHealth snapshot,
            evaluate (\<lambda>p. js_text (js_or (js_opt ''status'' snapshot) (js_str ''unknown'')))
              (\<lambda>t. logLine (''Health status -> '' @ t) ''ok'')]))
      (\<lambda>e. logLine (''Health unavailable: '' @ error_message br e) ''warn'')"

subsection \<open>The radio list\<close>

definition loadRadios :: statement where
  "loadRadios =
     block
      [logLine (''GET '' @ API_BASE @ ''/radios'') ''info'',
       reading (\<lambda>p. send RadiosCall (get_request (API_BASE @ ''/radios'') (apiHeaders False p)))]"

definition radios_answered :: "browser \<Rightarrow> fetch_answer \<Rightarrow> statement" where
  "radios_answered br a =
     try_catch
      (with_reply br a (\<lambda>body.
         (let data = js_opt ''data'' body; items = js_opt ''items'' data
          in block
              [perform (\<lambda>p. p\<lparr>radiosCache := (case js_elements items of Some xs \<Rightarrow> xs | None \<Rightarrow> [])\<rparr>),
               perform (\<lambda>p. p\<lparr>activeRadioId := js_or (js_opt ''activeRadioId'' data) null\<rparr>),
               refreshRadioDropdown,
               evaluate (\<lambda>p. js_text (js_or (activeRadioId p) (js_str ''none''))) (\<lambda>t. reading (\<lambda>p.
                 logLine (''Loaded '' @ show_nat (length (radiosCache p)) @ '' radio(s). Active='' @ t) ''ok''))])))
      (\<lambda>e. logLine (''Radio load failed: '' @ error_message br e) ''error'')"

subsection \<open>Commands\<close>

definition page_selectRadio :: statement where
  "page_selectRadio = reading (\<lambda>p.
     (let radioId = selectedRadioId p
      in if radioId = [] then logLine ''Select a radio before POST /radios/select'' ''warn''
         else block
           [logLine (''POST '' @ API_BASE @ ''/radios/select id='' @ radioId) ''info'',
            send (SelectCall radioId) (post_request (API_BASE @ ''/radios/select'') [(''id'', js_str radioId)] p)]))"

definition select_answered :: "browser \<Rightarrow> string \<Rightarrow> fetch_answer \<Rightarrow> statement" where
  "select_answered br radioId a =
     try_catch
      (with_reply br a (\<lambda>body.
         block
          [perform (\<lambda>p. p\<lparr>activeRadioId := js_or (js_opt ''activeRadioId'' (js_opt ''data'' body)) (js_str radioId)\<rparr>),
           refreshRadioDropdown,
           evaluate (\<lambda>p. js_text (activeRadioId p)) (\<lambda>t. logLine (''Active radio updated to '' @ t) ''ok'')]))
      (\<lambda>e. logLine (''Select failed: '' @ error_message br e) ''error'')"

definition radio_route :: "string \<Rightarrow> string \<Rightarrow> string" where
  "radio_route radioId what = API_BASE @ ''/radios/'' @ encodeURIComponent radioId @ ''/'' @ what"

definition page_setChannel :: statement where
  "page_setChannel = reading (\<lambda>p.
     (let radioId = selectedRadioId p; channelIndex = parse_int (dropdown_value (chanSel p));
          route = radio_route radioId ''channel''
      in if radioId = [] then logLine ''Select a radio before setting channel'' ''warn''
         else if \<not> is_integral channelIndex \<or> flt channelIndex (Fin 1) then
           logLine ''Choose a supported channel index first'' ''warn''
         else block
           [logLine (''POST '' @ route @ '' channelIndex='' @ number_text channelIndex) ''info'',
            send ChannelCall (post_request route [(''channelIndex'', Some (num_json channelIndex))] p)]))"

definition channel_answered :: "browser \<Rightarrow> fetch_answer \<Rightarrow> statement" where
  "channel_answered br a =
     try_catch (with_reply br a (\<lambda>body. block [logLine ''Channel command accepted'' ''ok'', loadRadios]))
      (\<lambda>e. logLine (''Set channel failed: '' @ error_message br e) ''error'')"

text \<open>A bound of the selected radio's power range: the capability where it is a finite number, else the default.\<close>

definition power_bound :: "string \<Rightarrow> double \<Rightarrow> js \<Rightarrow> double option" where
  "power_bound k fallback radio =
     map_option (\<lambda>d. if js_is_finite d then d else fallback) (js_number (js_opt k (js_opt ''capabilities'' radio)))"

definition page_setPower :: statement where
  "page_setPower = reading (\<lambda>p.
     (let radioId = selectedRadioId p; powerDbm = text_number (pwrDbm p); route = radio_route radioId ''power''
      in evaluate (\<lambda>p. js_find (has_id (js_str radioId)) (radiosCache p)) (\<lambda>found.
         (let radio = js_or found null
          in if radioId = [] then logLine ''Select a radio before setting power'' ''warn''
             else if js_eq (js_opt ''manualPowerControl'' (js_opt ''capabilities'' radio)) (Some (JBool False)) then
               logLine ''Manual power control is unavailable while max-power mode is enabled'' ''warn''
             else
               evaluate (\<lambda>p. power_bound ''minPowerDbm'' (Fin 0) radio) (\<lambda>minPower.
               evaluate (\<lambda>p. power_bound ''maxPowerDbm'' (Fin 39) radio) (\<lambda>maxPower.
                 if \<not> js_is_finite powerDbm \<or> flt powerDbm minPower \<or> flt maxPower powerDbm then
                   logLine (''Power must be between '' @ number_text minPower @ '' and '' @ number_text maxPower @ '' dBm'') ''warn''
                 else block
                   [logLine (''POST '' @ route @ '' powerDbm='' @ number_text powerDbm) ''info'',
                    send PowerCall (post_request route [(''powerDbm'', Some (num_json powerDbm))] p)]))))))"

definition power_answered :: "browser \<Rightarrow> fetch_answer \<Rightarrow> statement" where
  "power_answered br a =
     try_catch (with_reply br a (\<lambda>body. block [logLine ''Power command accepted'' ''ok'', loadRadios]))
      (\<lambda>e. logLine (''Set power failed: '' @ error_message br e) ''error'')"

subsection \<open>The development token\<close>

definition fetchDevToken :: "bool \<Rightarrow> statement" where
  "fetchDevToken boot = send (TokenCall boot) (get_request (API_BASE @ ''/dev-token'') [])"

definition token_answered :: "browser \<Rightarrow> fetch_answer \<Rightarrow> statement" where
  "token_answered br a =
     try_catch
      (with_body br a (\<lambda>status body.
         evaluate (\<lambda>p. reply_accepted status body) (\<lambda>accepted.
           (let token = js_opt ''token'' (js_opt ''data'' body)
            in if accepted \<and> js_truthy token then
                 (case token of
                    Some (JString t) \<Rightarrow> block [setToken t, logLine ''Loaded dev token for monitor bench use'' ''ok'']
                  | _ \<Rightarrow> throw TypeError)
               else evaluate (\<lambda>p. reply_message body) (\<lambda>m. logLine (''Dev token unavailable: '' @ m) ''warn'')))))
      (\<lambda>e. logLine (''Could not fetch dev token: '' @ error_message br e) ''warn'')"

section \<open>The telemetry connection\<close>

definition abort_stream :: "nat \<Rightarrow> page \<Rightarrow> page" where
  "abort_stream c p = p\<lparr>sseController := None, aborted_controllers := c # aborted_controllers p\<rparr>"

definition disconnectSse :: statement where
  "disconnectSse = reading (\<lambda>p.
     case sseController p of
       None \<Rightarrow> updateSseStatus False ''Disconnected''
     | Some c \<Rightarrow> block [perform (abort_stream c), updateSseStatus False ''Disconnected''])"

definition sse_headers :: "page \<Rightarrow> (string \<times> string) list" where
  "sse_headers p =
     [(''Accept'', ''text/event-stream''), (''Cache-Control'', ''no-cache'')] @
     (if js_trim (sseToken p) \<noteq> [] then [(''Authorization'', ''Bearer '' @ js_trim (sseToken p))] else []) @
     (if lastEventId p \<noteq> [] then [(''Last-Event-ID'', lastEventId p)] else [])"

definition connectSse :: statement where
  "connectSse =
     block
      [disconnectSse,
       reading (\<lambda>p.
         let c = controllers p; url = js_trim (sseUrl p); headers = sse_headers p
         in block
             [perform (\<lambda>p. p\<lparr>sseController := Some c, controllers := c + 1\<rparr>),
              updateSseStatus False ''Connecting...'',
              send (StreamCall c) (get_request url headers)])]"

definition message_payload :: "string \<Rightarrow> json" where
  "message_payload m = JObject [(''message'', JString m)]"

text \<open>The catch of connectSse. Nothing reads the stream any more.\<close>

definition stream_failed :: "browser \<Rightarrow> nat \<Rightarrow> js_error \<Rightarrow> statement" where
  "stream_failed br c e =
     block
      (perform (\<lambda>p. p\<lparr>streams := AList.delete c (streams p)\<rparr>) #
       (if e = AbortError then [addSseEvent ''SYSTEM'' (message_payload ''SSE connection closed by operator'') None]
        else
          [updateSseStatus False ''Disconnected'',
           addSseEvent ''ERROR'' (message_payload (error_message br e)) None,
           logLine (''SSE connect failed: '' @ error_message br e) ''error'']))"

definition refusal_text :: "nat \<Rightarrow> string \<Rightarrow> string option \<Rightarrow> string" where
  "refusal_text status statusText body =
     (let detail = (if statusText = [] then ''connect failed'' else statusText)
      in case body of Some (c # b) \<Rightarrow> show_nat status @ '' '' @ detail @ '': '' @ (c # b) | _ \<Rightarrow> detail)"

definition stream_answered :: "browser \<Rightarrow> nat \<Rightarrow> fetch_answer \<Rightarrow> statement" where
  "stream_answered br c a =
     try_catch
      (case a of
         FetchFailed m \<Rightarrow> throw (Thrown m)
       | FetchAborted \<Rightarrow> throw AbortError
       | Response status statusText body \<Rightarrow>
           if \<not> response_ok status then throw (Thrown (refusal_text status statusText body))
           else if body = None then throw (Thrown ''ReadableStream not supported by this browser'')
           else block
             [updateSseStatus True ''Connected'',
              addSseEvent ''SYSTEM'' (message_payload ''SSE connection established'') None,
              perform (\<lambda>p. p\<lparr>streams := AList.update c [] (streams p)\<rparr>)])
      (stream_failed br c)"

text \<open>The body of the reading loop: an event is applied, the selected radio rendered, the event shown.\<close>

definition process_event :: "string \<times> json \<times> string option \<Rightarrow> statement" where
  "process_event = (\<lambda>(tag, payload, eventId).
     block
      [applyTelemetryEvent tag (Some payload),
       reading (\<lambda>p. if selectedRadioId p \<noteq> [] then render_selected else skip),
       addSseEvent tag payload eventId])"

definition chunk_received :: "browser \<Rightarrow> nat \<Rightarrow> string \<Rightarrow> statement" where
  "chunk_received br c chunk = reading (\<lambda>p.
     case map_of (streams p) c of
       None \<Rightarrow> skip
     | Some buffer \<Rightarrow>
         (let (parts, rest) = sse_parts buffer chunk
          in try_catch
               (block (perform (\<lambda>p. p\<lparr>streams := AList.update c rest (streams p)\<rparr>) # map process_event (sse_events parts)))
               (stream_failed br c)))"

definition stream_closed :: "browser \<Rightarrow> nat \<Rightarrow> statement" where
  "stream_closed br c = reading (\<lambda>p.
     (case map_of (streams p) c of
        None \<Rightarrow> skip
      | Some _ \<Rightarrow>
          block
           [perform (\<lambda>p. p\<lparr>streams := AList.delete c (streams p)\<rparr>),
            updateSseStatus False ''Disconnected'',
            addSseEvent ''SYSTEM'' (message_payload ''SSE stream closed by server'') None]))"

definition stream_broken :: "browser \<Rightarrow> nat \<Rightarrow> js_error \<Rightarrow> statement" where
  "stream_broken br c e = reading (\<lambda>p. case map_of (streams p) c of None \<Rightarrow> skip | Some _ \<Rightarrow> stream_failed br c e)"

section \<open>The page as a state machine\<close>

definition defaultSseUrl :: "browser \<Rightarrow> string" where
  "defaultSseUrl br =
     (let currentPort = parse_int (if location_port br \<noteq> [] then location_port br else ''8080'');
          ssePort = (if js_is_finite currentPort then currentPort + Fin 1 else Fin 8081)
      in location_protocol br @ ''//'' @ location_hostname br @ '':'' @ number_text ssePort @ ''/api/v1/telemetry'')"

text \<open>init up to its first await; the rest runs as the answers arrive.\<close>

definition page_init :: "browser \<Rightarrow> statement" where
  "page_init br =
     block
      [perform (\<lambda>p. p\<lparr>sseUrl := defaultSseUrl br\<rparr>), initializeFilters, updateLastEventIdDisplay,
       updateSseStatus False ''Disconnected'', loadServiceIdentity True]"

text \<open>The document before the script runs, with what an earlier visit left in the local storage.\<close>

definition loaded_page :: "string option \<Rightarrow> string \<Rightarrow> page" where
  "loaded_page stored now =
     \<lparr>globalToken = [], radiosCache = [], sseController = None, controllers = 0, aborted_controllers = [], eventCount = 0,
      lastEventId = (case stored of None \<Rightarrow> [] | Some i \<Rightarrow> i), activeRadioId = null, eventFilters = [],
      localStorage = stored, apiToken = [], sseToken = [], sseUrl = [], pwrDbm = ''10'',
      radioSel = empty_dropdown, chanSel = empty_dropdown, texts = [], radioConsole = [], sseConsole = [],
      sseStatus = ([], []), connectBtn_disabled = False, disconnectBtn_disabled = True,
      outstanding = [], requests = 0, streams = [], clock = now\<rparr>"

datatype page_event =
    TypeToken string
  | TypeSseToken string
  | TypeSseUrl string
  | TypePower string
  | PickRadio nat
  | PickChannel nat
  | ToggleFilter string bool
  | ClickFetchToken
  | ClickRefreshHealth
  | ClickRefreshRadios
  | ClickSelect
  | ClickSetChannel
  | ClickSetPower
  | ClickConnect
  | ClickDisconnect
  | ClickClear
  | ClickReset
  | Answered nat fetch_answer
  | Chunk nat string
  | StreamClosed nat
  | StreamError nat string
  | StreamAborted nat

text \<open>The second half of an async function; init goes on to its next call.\<close>

definition answered :: "browser \<Rightarrow> call \<Rightarrow> fetch_answer \<Rightarrow> statement" where
  "answered br c a =
     (case c of
        HealthCall boot \<Rightarrow> block [health_answered br a, if boot then fetchDevToken True else skip]
      | TokenCall boot \<Rightarrow> block [token_answered br a, if boot then loadRadios else skip]
      | RadiosCall \<Rightarrow> radios_answered br a
      | SelectCall radioId \<Rightarrow> select_answered br radioId a
      | ChannelCall \<Rightarrow> channel_answered br a
      | PowerCall \<Rightarrow> power_answered br a
      | StreamCall ctl \<Rightarrow> stream_answered br ctl a)"

definition pick :: "nat \<Rightarrow> dropdown \<Rightarrow> dropdown" where
  "pick n d = (if n < length (options d) then d\<lparr>selectedIndex := Some n\<rparr> else d)"

text \<open>Once its controller was told to abort, a fetch rejects and a stream delivers nothing more.\<close>

definition signalled :: "page \<Rightarrow> call \<Rightarrow> bool" where
  "signalled p c = (case c of StreamCall ctl \<Rightarrow> ctl \<in> set (aborted_controllers p) | _ \<Rightarrow> False)"

definition page_handler :: "browser \<Rightarrow> page_event \<Rightarrow> statement" where
  "page_handler br ev = reading (\<lambda>p.
     (case ev of
        TypeToken v \<Rightarrow> setToken v
      | TypeSseToken v \<Rightarrow> perform (\<lambda>p. p\<lparr>sseToken := v\<rparr>)
      | TypeSseUrl v \<Rightarrow> perform (\<lambda>p. p\<lparr>sseUrl := v\<rparr>)
      | TypePower v \<Rightarrow> perform (\<lambda>p. p\<lparr>pwrDbm := v\<rparr>)
      | PickRadio n \<Rightarrow>
          if selectedIndex (radioSel p) = Some n then skip
          else block [perform (\<lambda>p. p\<lparr>radioSel := pick n (radioSel p)\<rparr>), onRadioSelected]
      | PickChannel n \<Rightarrow> perform (\<lambda>p. p\<lparr>chanSel := pick n (chanSel p)\<rparr>)
      | ToggleFilter v checked \<Rightarrow> if v \<in> set filter_boxes then toggleFilter v checked else skip
      | ClickFetchToken \<Rightarrow> fetchDevToken False
      | ClickRefreshHealth \<Rightarrow> loadServiceIdentity False
      | ClickRefreshRadios \<Rightarrow> loadRadios
      | ClickSelect \<Rightarrow> page_selectRadio
      | ClickSetChannel \<Rightarrow> page_setChannel
      | ClickSetPower \<Rightarrow> page_setPower
      | ClickConnect \<Rightarrow> if connectBtn_disabled p then skip else connectSse
      | ClickDisconnect \<Rightarrow> if disconnectBtn_disabled p then skip else disconnectSse
      | ClickClear \<Rightarrow> clearSseEvents
      | ClickReset \<Rightarrow> resetResumeState
      | Answered n a \<Rightarrow>
          (case map_of (outstanding p) n of
             None \<Rightarrow> skip
           | Some (c, r) \<Rightarrow>
               block [perform (\<lambda>p. p\<lparr>outstanding := AList.delete n (outstanding p)\<rparr>),
                      answered br c (if signalled p c then FetchAborted else a)])
      | Chunk c chunk \<Rightarrow> if c \<in> set (aborted_controllers p) then skip else chunk_received br c chunk
      | StreamClosed c \<Rightarrow> if c \<in> set (aborted_controllers p) then skip else stream_closed br c
      | StreamError c m \<Rightarrow> if c \<in> set (aborted_controllers p) then skip else stream_broken br c (Thrown m)
      | StreamAborted c \<Rightarrow> if c \<in> set (aborted_controllers p) then stream_broken br c AbortError else skip))"

text \<open>An exception that leaves a handler only reaches the browser's own console.\<close>

fun page_step :: "browser \<Rightarrow> page \<Rightarrow> string \<times> page_event \<Rightarrow> page \<Rightarrow> bool" where
  "page_step br p (now, ev) p' \<longleftrightarrow> p' = snd (page_handler br ev (p\<lparr>clock := now\<rparr>))"

definition page_event_applied :: "browser \<Rightarrow> string \<times> page_event \<Rightarrow> page \<Rightarrow> page" where
  "page_event_applied br = (\<lambda>(now, ev) p. snd (page_handler br ev (p\<lparr>clock := now\<rparr>)))"

definition page_run :: "browser \<Rightarrow> page \<Rightarrow> (string \<times> page_event) list \<Rightarrow> page \<Rightarrow> bool" where
  "page_run br p evs p' \<longleftrightarrow> p' = fold (page_event_applied br) evs p"

interpretation monitor: trace_system "page_step br" "page_run br" for br
  by unfold_locales (auto simp: page_run_def page_event_applied_def)

end
