(* ===== verification/Page_Facts.thy ===== *)
theory Page_Facts
  imports Monitor_Page
begin

text \<open>
  Reasoning about the statements of the page script: what a statement keeps (keeps), and that it neither
  reads nor writes the buffers of the streams (blind), each with one rule per way of building statements.
  With them: the arrival of the telemetry in chunks does not matter, and the invariants of the page.
\<close>

named_theorems keeping "rules for what a statement keeps"
named_theorems blindness "statements that do not look at the stream buffers"
named_theorems running "what statements do to a page"

section \<open>Blocks\<close>

lemma block_append: "block (xs @ ys) p = (case block xs p of (None, p') \<Rightarrow> block ys p' | (Some e, p') \<Rightarrow> (Some e, p'))"
  by (induction xs arbitrary: p) (auto split: prod.splits option.splits)

lemma statements_apply [running]:
  "perform f p = (None, f p)" "skip p = (None, p)" "throw e p = (Some e, p)" "reading r p = r p p"
  "set_shown target t p = (None, p\<lparr>texts := AList.update target t (texts p)\<rparr>)"
  "logLine m level p = (None, p\<lparr>radioConsole := radioConsole p @ [(level, clock p @ '' | '' @ m)]\<rparr>)"
  by (simp_all add: perform_def skip_def throw_def reading_def set_shown_def logLine_def)

lemma evaluate_Some: "e p = Some v \<Longrightarrow> evaluate e f p = f v p"
  by (simp add: evaluate_def)

declare block.simps [simp del, running]

lemma block_single: "block [s] p = s p"
  by (cases "s p"; cases "fst (s p)") (auto simp: running)

lemma block_step: "s p = (None, q) \<Longrightarrow> block (s # ss) p = block ss q"
  by (simp add: running)

lemma block_performs: "block (perform f # ss) p = block ss (f p)"
  by (simp add: running)

lemma block_reading: "block (reading r # ss) p = block (r p # ss) p"
  by (simp add: running)

lemma evaluate_apply: "evaluate e f p = (case e p of None \<Rightarrow> (Some TypeError, p) | Some v \<Rightarrow> f v p)"
  by (simp add: evaluate_def)

lemma block_shown: "block (set_shown target t # ss) p = block ss (p\<lparr>texts := AList.update target t (texts p)\<rparr>)"
  by (simp add: running)

lemma block_evaluate: "block (evaluate e f # ss) p = (case e p of None \<Rightarrow> (Some TypeError, p) | Some v \<Rightarrow> block (f v # ss) p)"
  by (simp add: running evaluate_def split: option.splits)

lemmas block_runs = block_performs block_reading block_shown block_evaluate block_single evaluate_apply

section \<open>What a statement keeps\<close>

definition keeps :: "(page \<Rightarrow> bool) \<Rightarrow> statement \<Rightarrow> bool" where
  "keeps I s \<longleftrightarrow> (\<forall>p. I p \<longrightarrow> I (snd (s p)))"

lemma keepsD: "keeps I s \<Longrightarrow> I p \<Longrightarrow> I (snd (s p))"
  by (simp add: keeps_def)

lemma keeps_perform [keeping]: "(\<And>p. I p \<Longrightarrow> I (f p)) \<Longrightarrow> keeps I (perform f)"
  by (simp add: keeps_def running)

lemma keeps_simple [keeping]: "keeps I skip" "keeps I (throw e)"
  by (simp_all add: keeps_def running)

lemma keeps_block [keeping]: "list_all (keeps I) ss \<Longrightarrow> keeps I (block ss)"
  by (induction ss) (auto simp: keeps_def running split: prod.splits option.splits)

lemma keeps_evaluate [keeping]: "(\<And>v. keeps I (f v)) \<Longrightarrow> keeps I (evaluate e f)"
  by (auto simp: keeps_def evaluate_def split: option.splits)

lemma keeps_try [keeping]: "keeps I s \<Longrightarrow> (\<And>e. keeps I (h e)) \<Longrightarrow> keeps I (try_catch s h)"
  unfolding keeps_def try_catch_def by (metis (no_types, lifting) case_prod_beta option.case_eq_if prod.collapse snd_conv)

lemma keeps_reading [keeping]: "(\<And>q. keeps I (r q)) \<Longrightarrow> keeps I (reading r)"
  by (auto simp: keeps_def running)

lemma keeps_if [keeping]: "keeps I a \<Longrightarrow> keeps I b \<Longrightarrow> keeps I (if c then a else b)"
  by simp

section \<open>Statements that do not look at the stream buffers\<close>

definition blind :: "statement \<Rightarrow> bool" where
  "blind s \<longleftrightarrow> (\<forall>p x. s (p\<lparr>streams := x\<rparr>) = map_prod id (streams_update (\<lambda>_. x)) (s p))"

lemma blindD: "blind s \<Longrightarrow> s (p\<lparr>streams := x\<rparr>) = map_prod id (streams_update (\<lambda>_. x)) (s p)"
  by (simp add: blind_def)

lemma blind_perform [blindness]: "(\<And>p x. f (p\<lparr>streams := x\<rparr>) = (f p)\<lparr>streams := x\<rparr>) \<Longrightarrow> blind (perform f)"
  by (simp add: blind_def running)

lemma blind_simple [blindness]: "blind skip" "blind (throw e)" "blind (set_shown target t)" "blind (logLine m level)"
  by (simp_all add: blind_def running)

lemma blind_block [blindness]: "list_all blind ss \<Longrightarrow> blind (block ss)"
proof (induction ss)
  case (Cons s ss)
  then have s: "blind s" and ss: "blind (block ss)" by simp_all
  show ?case unfolding blind_def
    using blindD [OF s] blindD [OF ss] by (auto simp: running split: prod.splits option.splits)
qed (simp add: blind_def running)

lemma blind_evaluate [blindness]:
  "(\<And>p x. e (p\<lparr>streams := x\<rparr>) = e p) \<Longrightarrow> (\<And>v. blind (f v)) \<Longrightarrow> blind (evaluate e f)"
  by (simp add: blind_def evaluate_def split: option.splits)

lemma blind_reading [blindness]:
  "(\<And>p x. r (p\<lparr>streams := x\<rparr>) = r p) \<Longrightarrow> (\<And>q. blind (r q)) \<Longrightarrow> blind (reading r)"
  by (simp add: blind_def running)

lemma blind_if [blindness]: "blind a \<Longrightarrow> blind b \<Longrightarrow> blind (if c then a else b)"
  by simp

lemma selectedRadioId_streams [simp]: "selectedRadioId (p\<lparr>streams := x\<rparr>) = selectedRadioId p"
  by (simp add: selectedRadioId_def)

lemma blind_append_channel_option [blindness]: "blind (append_channel_option channel)"
  unfolding append_channel_option_def by (intro blindness) simp_all

lemma blind_populateChannelDropdown [blindness]: "blind (populateChannelDropdown radio)"
  unfolding populateChannelDropdown_def
  by (auto intro!: blindness simp: list_all_iff split: prod.splits)

lemma blind_renderRadioState [blindness]: "blind (renderRadioState radio)"
  unfolding renderRadioState_def by (auto intro!: blindness simp: list_all_iff)

lemma blind_render_selected [blindness]: "blind render_selected"
  unfolding render_selected_def by (intro blindness) simp_all

lemma blind_append_radio_option [blindness]: "blind (append_radio_option radio)"
  unfolding append_radio_option_def by (intro blindness) simp_all

lemma blind_choose_radio [blindness]: "blind (choose_radio previous)"
  unfolding choose_radio_def by (intro blindness) simp_all

lemma blind_refreshRadioDropdown [blindness]: "blind refreshRadioDropdown"
  unfolding refreshRadioDropdown_def by (auto intro!: blindness simp: list_all_iff cong: if_cong)

lemma blind_apply_incoming [blindness]: "blind (apply_incoming incoming)"
  unfolding apply_incoming_def by (auto intro!: blindness split: option.splits)

lemma blind_applyReadySnapshot [blindness]: "blind (applyReadySnapshot snapshot)"
  unfolding applyReadySnapshot_def by (auto intro!: blindness simp: list_all_iff split: option.splits)

lemma blind_applyTelemetryEvent [blindness]: "blind (applyTelemetryEvent tag payload)"
  unfolding applyTelemetryEvent_def by (auto intro!: blindness simp: Let_def list_all_iff split: option.splits)

lemma blind_addSseEvent [blindness]: "blind (addSseEvent tag payload i)"
  unfolding addSseEvent_def storeLastEventId_def updateLastEventIdDisplay_def
  by (auto intro!: blindness simp: Let_def list_all_iff split: option.splits)

lemma blind_process_event [blindness]: "blind (process_event ev)"
  unfolding process_event_def by (auto intro!: blindness simp: list_all_iff split: prod.splits)

section \<open>Chunks\<close>

lemma blind_streams:
  assumes "blind s"
  shows "streams (snd (s p)) = streams p"
proof -
  obtain r q where q: "s p = (r, q)" by fastforce
  have "s p = map_prod id (streams_update (\<lambda>_. streams p)) (s p)" using blindD [OF assms, of "streams p" p] by simp
  then have "q = q\<lparr>streams := streams p\<rparr>" by (simp add: q)
  then have "streams q = streams (q\<lparr>streams := streams p\<rparr>)" by (rule arg_cong)
  then show ?thesis by (simp add: q)
qed

lemma blind_events: "blind (block (map process_event evs))"
  by (auto intro!: blindness simp: list_all_iff)

lemma stream_failed_rest: "\<exists>ss. list_all blind ss \<and>
    stream_failed br c e = block (perform (\<lambda>p. p\<lparr>streams := AList.delete c (streams p)\<rparr>) # ss)"
proof -
  have "list_all blind (if e = AbortError then [addSseEvent ''SYSTEM'' (message_payload ''SSE connection closed by operator'') None]
        else [updateSseStatus False ''Disconnected'', addSseEvent ''ERROR'' (message_payload (error_message br e)) None,
          logLine (''SSE connect failed: '' @ error_message br e) ''error''])"
    by (auto intro!: blindness simp: updateSseStatus_def)
  then show ?thesis unfolding stream_failed_def by blast
qed

lemma stream_failed_streams: "streams (snd (stream_failed br c e p)) = AList.delete c (streams p)"
proof -
  from stream_failed_rest [of br c e] obtain ss where "list_all blind ss"
    "stream_failed br c e = block (perform (\<lambda>p. p\<lparr>streams := AList.delete c (streams p)\<rparr>) # ss)" by blast
  then show ?thesis using blind_streams [OF blind_block] by (simp add: running)
qed

lemma stream_failed_buffer:
  assumes "AList.delete c x = AList.delete c (streams p)"
  shows "stream_failed br c e (p\<lparr>streams := x\<rparr>) = stream_failed br c e p"
  using assms by (simp add: stream_failed_def running)

lemma chunk_received_eq:
  assumes "map_of (streams p) c = Some buffer" "sse_parts buffer chunk = (parts, rest)"
  shows "chunk_received br c chunk p =
    (case block (map process_event (sse_events parts)) (p\<lparr>streams := AList.update c rest (streams p)\<rparr>) of
       (None, p') \<Rightarrow> (None, p') | (Some e, p') \<Rightarrow> stream_failed br c e p')"
  using assms by (simp add: chunk_received_def running try_catch_def)

lemma chunk_received_append:
  "snd (chunk_received br c t (snd (chunk_received br c s p))) = snd (chunk_received br c (s @ t) p)"
proof (cases "map_of (streams p) c")
  case None
  then show ?thesis by (simp add: chunk_received_def running)
next
  case (Some buffer)
  obtain ps b1 where s: "sse_parts buffer s = (ps, b1)" by fastforce
  obtain qs b2 where t: "sse_parts b1 t = (qs, b2)" by fastforce
  have st: "sse_parts buffer (s @ t) = (ps @ qs, b2)" by (simp add: sse_parts_append s t)
  let ?S = "streams p" and ?B = "\<lambda>ps. block (map process_event (sse_events ps))"
  let ?q = "p\<lparr>streams := AList.update c b1 ?S\<rparr>"
  obtain r p1 where r: "?B ps ?q = (r, p1)" by fastforce
  then have p1: "streams p1 = AList.update c b1 ?S" using blind_streams [OF blind_events, of "sse_events ps" ?q] by simp
  have "p\<lparr>streams := AList.update c b2 ?S\<rparr> = ?q\<lparr>streams := AList.update c b2 ?S\<rparr>" by simp
  then have q: "?B ps (p\<lparr>streams := AList.update c b2 ?S\<rparr>) = (r, p1\<lparr>streams := AList.update c b2 ?S\<rparr>)"
    using blindD [OF blind_events, of "sse_events ps" "AList.update c b2 ?S" ?q] r by simp
  have known: "map_of (streams p1) c = Some b1" by (simp add: p1 update_conv')
  show ?thesis
  proof (cases r)
    case None
    then show ?thesis
      using chunk_received_eq [OF Some s] chunk_received_eq [OF Some st] chunk_received_eq [OF known t] r q p1
      by (simp add: sse_events_def block_append)
  next
    case e: (Some e)
    obtain r2 p2 where r2: "stream_failed br c e p1 = (r2, p2)" by fastforce
    have "stream_failed br c e (p1\<lparr>streams := AList.update c b2 ?S\<rparr>) = (r2, p2)"
      using stream_failed_buffer [of c _ p1] r2 by (simp add: p1 AList.delete_update_same)
    moreover have "map_of (streams p2) c = None"
      using stream_failed_streams [of br c e p1] r2 by simp
    ultimately show ?thesis
      using chunk_received_eq [OF Some s] chunk_received_eq [OF Some st] r q e r2
      by (simp add: sse_events_def block_append) (simp add: chunk_received_def running)
  qed
qed

section \<open>What rendering and events leave alone\<close>

text \<open>A condition on the page that does not speak of the radios, the two select elements or the shown texts
  is kept by rendering; one that does not speak of the event console either, by an event.\<close>

locale rendering_frame =
  fixes I :: "page \<Rightarrow> bool"
  assumes I_radioSel: "I (p\<lparr>radioSel := d\<rparr>) = I p" and I_chanSel: "I (p\<lparr>chanSel := d\<rparr>) = I p"
    and I_texts: "I (p\<lparr>texts := ts\<rparr>) = I p"
begin

lemma kept_shown: "keeps I (set_shown target t)"
  by (simp add: keeps_def running I_texts)

lemma kept_channels: "keeps I (populateChannelDropdown radio)"
  unfolding populateChannelDropdown_def append_channel_option_def
  by (auto intro!: keeping simp: list_all_iff I_chanSel split: prod.splits)

lemma kept_render: "keeps I (renderRadioState radio)"
  unfolding renderRadioState_def
  by (auto intro!: keeping kept_shown kept_channels simp: list_all_iff)

lemma kept_selected: "keeps I render_selected"
  unfolding render_selected_def by (intro keeping kept_render)

lemma kept_refresh: "keeps I refreshRadioDropdown"
  unfolding refreshRadioDropdown_def append_radio_option_def choose_radio_def
  by (auto intro!: keeping kept_render kept_selected simp: list_all_iff I_radioSel)

end

locale event_frame = rendering_frame +
  assumes I_radiosCache: "I (p\<lparr>radiosCache := rs\<rparr>) = I p" and I_activeRadioId: "I (p\<lparr>activeRadioId := a\<rparr>) = I p"
    and I_eventCount: "I (p\<lparr>eventCount := n\<rparr>) = I p" and I_lastEventId: "I (p\<lparr>lastEventId := i\<rparr>) = I p"
    and I_localStorage: "I (p\<lparr>localStorage := l\<rparr>) = I p" and I_sseConsole: "I (p\<lparr>sseConsole := cs\<rparr>) = I p"
begin

lemma kept_telemetry: "keeps I (applyTelemetryEvent tag payload)"
  unfolding applyTelemetryEvent_def applyReadySnapshot_def apply_incoming_def
  by (auto intro!: keeping kept_refresh simp: list_all_iff Let_def I_radiosCache I_activeRadioId split: option.splits)

lemma kept_addSseEvent: "keeps I (addSseEvent tag payload i)"
  unfolding addSseEvent_def storeLastEventId_def updateLastEventIdDisplay_def
  by (auto intro!: keeping kept_shown simp: list_all_iff Let_def I_eventCount I_lastEventId I_localStorage I_sseConsole
      split: option.splits)

lemma kept_event: "keeps I (process_event ev)"
  unfolding process_event_def
  by (auto intro!: keeping kept_telemetry kept_addSseEvent kept_selected simp: list_all_iff split: prod.splits)

end

text \<open>Everything else on the page.\<close>

definition page_rest where
  "page_rest p = ((globalToken p, apiToken p, sseToken p, sseUrl p, pwrDbm p),
     (sseController p, controllers p, aborted_controllers p, outstanding p, requests p, streams p),
     (sseStatus p, connectBtn_disabled p, disconnectBtn_disabled p), eventFilters p, radioConsole p, clock p)"

interpretation rest: event_frame "\<lambda>p. Q (page_rest p)" for Q
  by unfold_locales (simp_all add: page_rest_def)

lemma page_rest_kept: "keeps (\<lambda>q. page_rest q = page_rest p) s \<Longrightarrow> page_rest (snd (s p)) = page_rest p"
  by (simp add: keeps_def)

lemmas event_rest = page_rest_kept [OF rest.kept_event]
lemmas refresh_rest = page_rest_kept [OF rest.kept_refresh]

lemma rest_fields:
  assumes "page_rest p = page_rest q"
  shows "clock p = clock q" "aborted_controllers p = aborted_controllers q" "streams p = streams q"
    "eventFilters p = eventFilters q" "radioConsole p = radioConsole q" "outstanding p = outstanding q"
  using assms by (simp_all add: page_rest_def)

section \<open>The stream is read the same however it arrives\<close>

lemma stream_failed_keeps: "clock (snd (stream_failed br c e p)) = clock p"
  "aborted_controllers (snd (stream_failed br c e p)) = aborted_controllers p"
proof -
  have "keeps (\<lambda>q. clock q = clock p \<and> aborted_controllers q = aborted_controllers p) (addSseEvent tag payload i)" for tag payload i
    using rest.kept_addSseEvent [of "\<lambda>(_, (_, _, ab, _), _, _, _, now). now = clock p \<and> ab = aborted_controllers p"]
    by (simp add: page_rest_def)
  then have "keeps (\<lambda>q. clock q = clock p \<and> aborted_controllers q = aborted_controllers p) (stream_failed br c e)"
    unfolding stream_failed_def updateSseStatus_def by (auto intro!: keeping simp: logLine_def)
  then show "clock (snd (stream_failed br c e p)) = clock p"
    "aborted_controllers (snd (stream_failed br c e p)) = aborted_controllers p"
    by (simp_all add: keeps_def)
qed

lemma chunk_received_keeps: "clock (snd (chunk_received br c s p)) = clock p"
  "aborted_controllers (snd (chunk_received br c s p)) = aborted_controllers p"
proof -
  have *: "clock (snd (block (map process_event evs) q)) = clock q \<and>
      aborted_controllers (snd (block (map process_event evs) q)) = aborted_controllers q" for evs q
  proof -
    have "keeps (\<lambda>p. page_rest p = page_rest q) (block (map process_event evs))"
      by (auto intro!: keeping rest.kept_event simp: list_all_iff)
    from page_rest_kept [OF this] rest_fields show ?thesis by blast
  qed
  show "clock (snd (chunk_received br c s p)) = clock p"
    "aborted_controllers (snd (chunk_received br c s p)) = aborted_controllers p"
  proof (atomize (full), cases "map_of (streams p) c")
    case None
    then show "clock (snd (chunk_received br c s p)) = clock p \<and>
      aborted_controllers (snd (chunk_received br c s p)) = aborted_controllers p"
      by (simp add: chunk_received_def running)
  next
    case (Some buffer)
    obtain parts rest where parts: "sse_parts buffer s = (parts, rest)" by fastforce
    show "clock (snd (chunk_received br c s p)) = clock p \<and>
      aborted_controllers (snd (chunk_received br c s p)) = aborted_controllers p"
      unfolding chunk_received_eq [OF Some parts]
      using * [of "sse_events parts" "p\<lparr>streams := AList.update c rest (streams p)\<rparr>"]
      by (auto split: prod.splits option.splits simp: stream_failed_keeps)
  qed
qed

lemma clock_same: "clock q = t \<Longrightarrow> q\<lparr>clock := t\<rparr> = q"
  by (cases q) simp

lemma chunk_event_append:
  "page_event_applied br (now, Chunk c t) (page_event_applied br (now, Chunk c s) p) =
   page_event_applied br (now, Chunk c (s @ t)) p"
  using chunk_received_append [of br c t s "p\<lparr>clock := now\<rparr>"]
    chunk_received_keeps [of br c s "p\<lparr>clock := now\<rparr>"]
  by (auto simp: page_event_applied_def page_handler_def running clock_same)

lemma chunks_as_one:
  "fold (page_event_applied br) (map (\<lambda>s. (now, Chunk c s)) (s # ss)) p =
   page_event_applied br (now, Chunk c (concat (s # ss))) p"
  by (induction ss arbitrary: s) (simp_all add: chunk_event_append)

definition demo_browser :: browser where
  "demo_browser = \<lparr>location_protocol = ''http:'', location_hostname = ''localhost'', location_port = ''8080'',
     type_error_text = ''TypeError'', json_error_text = (\<lambda>t. ''SyntaxError'')\<rparr>"

text \<open>C27. Chunks do not matter: however the network cuts the telemetry text into pieces, the page ends in the same
  state: the same events applied in the same order, the same shown texts, the same unread rest, also
  when an event in the middle makes the reader stop.\<close>

theorem stream_read_in_any_chunks:
  assumes "concat ss = concat ts" "ss \<noteq> []" "ts \<noteq> []"
  shows "page_run br p (map (\<lambda>s. (now, Chunk c s)) ss) p' \<longleftrightarrow> page_run br p (map (\<lambda>t. (now, Chunk c t)) ts) p'"
proof -
  from assms(2,3) obtain s ss' t ts' where "ss = s # ss'" "ts = t # ts'" by (meson list.exhaust)
  with assms(1) chunks_as_one [of br now c s ss' p] chunks_as_one [of br now c t ts' p] show ?thesis
    by (simp only: page_run_def)
qed

theorem stream_read_in_any_chunks_witness:
  "let p = (loaded_page None ''t'')\<lparr>streams := [(0, [])]\<rparr>;
       whole = ''data: hi'' @ [CHR 0x0A, CHR 0x0A]
   in page_run demo_browser p [(''t'', Chunk 0 ''da''), (''t'', Chunk 0 (''ta: hi'' @ [CHR 0x0A])), (''t'', Chunk 0 [CHR 0x0A])]
        (page_event_applied demo_browser (''t'', Chunk 0 whole) p)"
proof -
  let ?p = "(loaded_page None ''t'')\<lparr>streams := [(0, [])]\<rparr>" and ?whole = "''data: hi'' @ [CHR 0x0A, CHR 0x0A]"
  have "page_run demo_browser ?p (map (\<lambda>t. (''t'', Chunk 0 t)) [?whole]) (page_event_applied demo_browser (''t'', Chunk 0 ?whole) ?p)"
    by (simp add: page_run_def)
  moreover have "concat [''da'', ''ta: hi'' @ [CHR 0x0A], [CHR 0x0A]] = concat [?whole]" by simp
  ultimately have "page_run demo_browser ?p (map (\<lambda>s. (''t'', Chunk 0 s)) [''da'', ''ta: hi'' @ [CHR 0x0A], [CHR 0x0A]])
      (page_event_applied demo_browser (''t'', Chunk 0 ?whole) ?p)"
    using stream_read_in_any_chunks [of "[''da'', ''ta: hi'' @ [CHR 0x0A], [CHR 0x0A]]" "[?whole]" demo_browser ?p "''t''" 0] by blast
  then show ?thesis by (simp only: Let_def list.map)
qed

end
