(* ===== verification/Page_Invariants.thy ===== *)
theory Page_Invariants
  imports Page_Facts
begin

text \<open>
  The invariants of the monitor page, over every sequence of operator actions, answers and pieces of the
  telemetry stream: the connection (what the page says about it is true, one stream at a time) and the event
  console (bounded, filtered, and its resume id stored).
\<close>

section \<open>The connection\<close>

text \<open>The exceptions of rendering and event processing are TypeErrors, never the AbortError of a stream.\<close>

definition no_abort :: "statement \<Rightarrow> bool" where
  "no_abort s \<longleftrightarrow> (\<forall>p. fst (s p) \<noteq> Some AbortError)"

named_theorems not_aborting "statements that do not throw an AbortError"

lemma no_abort_simple [not_aborting]: "no_abort skip" "no_abort (perform f)" "no_abort (set_shown target t)"
  "no_abort (logLine m level)"
  by (simp_all add: no_abort_def running)

lemma no_abort_block [not_aborting]: "list_all no_abort ss \<Longrightarrow> no_abort (block ss)"
proof (induction ss)
  case (Cons s ss)
  show ?case unfolding no_abort_def
  proof
    fix p
    obtain r q where "s p = (r, q)" by fastforce
    moreover have "fst (s p) \<noteq> Some AbortError" "fst (block ss q) \<noteq> Some AbortError"
      using Cons by (simp_all add: no_abort_def)
    ultimately show "fst (block (s # ss) p) \<noteq> Some AbortError" by (cases r) (auto simp: running)
  qed
qed (simp add: no_abort_def running)

lemma no_abort_evaluate [not_aborting]: "(\<And>v. no_abort (f v)) \<Longrightarrow> no_abort (evaluate e f)"
  by (auto simp: no_abort_def evaluate_def split: option.splits)

lemma no_abort_reading [not_aborting]: "(\<And>q. no_abort (r q)) \<Longrightarrow> no_abort (reading r)"
  by (simp add: no_abort_def running)

lemma no_abort_if [not_aborting]: "no_abort a \<Longrightarrow> no_abort b \<Longrightarrow> no_abort (if c then a else b)"
  by simp

lemma no_abort_render [not_aborting]: "no_abort (renderRadioState radio)"
  unfolding renderRadioState_def populateChannelDropdown_def append_channel_option_def
  by (auto intro!: not_aborting simp: list_all_iff split: prod.splits)

lemma no_abort_selected [not_aborting]: "no_abort render_selected"
  unfolding render_selected_def by (intro not_aborting)

lemma no_abort_refresh [not_aborting]: "no_abort refreshRadioDropdown"
  unfolding refreshRadioDropdown_def append_radio_option_def choose_radio_def
  by (auto intro!: not_aborting simp: list_all_iff)

lemma no_abort_incoming [not_aborting]: "no_abort (apply_incoming incoming)"
  unfolding apply_incoming_def by (auto intro!: not_aborting split: option.splits)

lemma no_abort_ready [not_aborting]: "no_abort (applyReadySnapshot snapshot)"
  unfolding applyReadySnapshot_def by (auto intro!: not_aborting simp: list_all_iff split: option.splits)

lemma no_abort_telemetry [not_aborting]: "no_abort (applyTelemetryEvent tag payload)"
  unfolding applyTelemetryEvent_def Let_def by (intro not_aborting) (simp add: not_aborting)

lemma no_abort_addSseEvent [not_aborting]: "no_abort (addSseEvent tag payload i)"
  unfolding addSseEvent_def storeLastEventId_def updateLastEventIdDisplay_def Let_def
  by (intro not_aborting) (simp add: not_aborting)

lemma no_abort_event [not_aborting]: "no_abort (process_event ev)"
  unfolding process_event_def by (cases ev) (auto intro!: not_aborting simp: list_all_iff)

text \<open>The part of the page that is about the connection.\<close>

definition page_link where
  "page_link p = ((sseController p, controllers p, aborted_controllers p), (outstanding p, requests p, streams p),
     (sseStatus p, connectBtn_disabled p, disconnectBtn_disabled p))"

definition stream_calls :: "(nat \<times> call \<times> fetch_request) list \<Rightarrow> nat list" where
  "stream_calls calls = concat (map (\<lambda>(n, k, r). case k of StreamCall c \<Rightarrow> [c] | _ \<Rightarrow> []) calls)"

lemma stream_calls_append [simp]: "stream_calls (xs @ ys) = stream_calls xs @ stream_calls ys"
  by (simp add: stream_calls_def)

text \<open>What is shown: Connected, and Disconnect enabled, exactly while the stream of the current controller is read.\<close>

definition shown_inv :: "page \<Rightarrow> bool" where
  "shown_inv p \<longleftrightarrow>
     (connectBtn_disabled p \<longleftrightarrow> (\<exists>c. sseController p = Some c \<and> map_of (streams p) c \<noteq> None)) \<and>
     (disconnectBtn_disabled p \<longleftrightarrow> \<not> connectBtn_disabled p) \<and>
     (fst (sseStatus p) = ''Connected'' \<longleftrightarrow> connectBtn_disabled p)"

text \<open>A controller that was not told to abort is the current one.\<close>

definition controllers_inv :: "page \<Rightarrow> bool" where
  "controllers_inv p \<longleftrightarrow>
     (\<forall>c \<in> set (aborted_controllers p). c < controllers p) \<and>
     (\<forall>c. sseController p = Some c \<longrightarrow> c < controllers p \<and> c \<notin> set (aborted_controllers p)) \<and>
     (\<forall>c. map_of (streams p) c \<noteq> None \<or> c \<in> set (stream_calls (outstanding p)) \<longrightarrow>
        c < controllers p \<and> (c \<in> set (aborted_controllers p) \<or> sseController p = Some c))"

definition calls_inv :: "page \<Rightarrow> bool" where
  "calls_inv p \<longleftrightarrow>
     (\<forall>c \<in> set (stream_calls (outstanding p)). map_of (streams p) c = None) \<and>
     distinct (stream_calls (outstanding p)) \<and>
     distinct (map fst (outstanding p)) \<and> (\<forall>n \<in> set (map fst (outstanding p)). n < requests p)"

definition connection_inv :: "page \<Rightarrow> bool" where
  "connection_inv p \<longleftrightarrow> shown_inv p \<and> controllers_inv p \<and> calls_inv p"

lemma connection_inv_link:
  assumes "page_link p = page_link q"
  shows "connection_inv p = connection_inv q"
proof -
  from assms have same: "sseController p = sseController q" "controllers p = controllers q"
    "aborted_controllers p = aborted_controllers q" "outstanding p = outstanding q" "requests p = requests q"
    "streams p = streams q" "sseStatus p = sseStatus q" "connectBtn_disabled p = connectBtn_disabled q"
    "disconnectBtn_disabled p = disconnectBtn_disabled q" by (simp_all add: page_link_def)
  show ?thesis by (simp only: connection_inv_def shown_inv_def controllers_inv_def calls_inv_def same)
qed

lemma page_link_of_rest: "page_rest p = page_rest q \<Longrightarrow> page_link p = page_link q"
  by (simp add: page_rest_def page_link_def)

lemma page_link_updates [simp]:
  "page_link (p\<lparr>radioConsole := x1\<rparr>) = page_link p" "page_link (p\<lparr>radiosCache := x2\<rparr>) = page_link p"
  "page_link (p\<lparr>activeRadioId := x3\<rparr>) = page_link p" "page_link (p\<lparr>texts := x4\<rparr>) = page_link p"
  "page_link (p\<lparr>radioSel := x5\<rparr>) = page_link p" "page_link (p\<lparr>chanSel := x6\<rparr>) = page_link p"
  "page_link (p\<lparr>eventCount := x7\<rparr>) = page_link p" "page_link (p\<lparr>lastEventId := x8\<rparr>) = page_link p"
  "page_link (p\<lparr>localStorage := x9\<rparr>) = page_link p" "page_link (p\<lparr>sseConsole := x10\<rparr>) = page_link p"
  "page_link (p\<lparr>eventFilters := x11\<rparr>) = page_link p" "page_link (p\<lparr>globalToken := x12\<rparr>) = page_link p"
  "page_link (p\<lparr>apiToken := x13\<rparr>) = page_link p" "page_link (p\<lparr>sseToken := x14\<rparr>) = page_link p"
  "page_link (p\<lparr>sseUrl := x15\<rparr>) = page_link p" "page_link (p\<lparr>pwrDbm := x16\<rparr>) = page_link p"
  "page_link (p\<lparr>clock := x17\<rparr>) = page_link p"
  by (simp_all add: page_link_def)

interpretation link: event_frame "\<lambda>p. Q (page_link p)" for Q
  by unfold_locales simp_all

text \<open>A condition on the connection that new requests of the other kinds keep is kept by everything that is
  not about the connection.\<close>

definition link_free :: "page_event \<Rightarrow> bool" where
  "link_free ev = (case ev of ClickConnect \<Rightarrow> False | ClickDisconnect \<Rightarrow> False | Answered _ _ \<Rightarrow> False
     | Chunk _ _ \<Rightarrow> False | StreamClosed _ \<Rightarrow> False | StreamError _ _ \<Rightarrow> False | StreamAborted _ \<Rightarrow> False | _ \<Rightarrow> True)"

lemma conn_frame: "event_frame connection_inv"
proof -
  have "connection_inv p = connection_inv q" if "page_link p = page_link q" for p q
    using connection_inv_link [OF that] .
  then show ?thesis by unfold_locales (rule connection_inv_link, simp)+
qed

interpretation conn: event_frame connection_inv
  by (rule conn_frame)

lemma conn_updates [simp]:
  "connection_inv (p\<lparr>radioConsole := x1\<rparr>) = connection_inv p"
  "connection_inv (p\<lparr>eventFilters := x11\<rparr>) = connection_inv p" "connection_inv (p\<lparr>globalToken := x12\<rparr>) = connection_inv p"
  "connection_inv (p\<lparr>apiToken := x13\<rparr>) = connection_inv p" "connection_inv (p\<lparr>sseToken := x14\<rparr>) = connection_inv p"
  "connection_inv (p\<lparr>sseUrl := x15\<rparr>) = connection_inv p" "connection_inv (p\<lparr>pwrDbm := x16\<rparr>) = connection_inv p"
  "connection_inv (p\<lparr>clock := x17\<rparr>) = connection_inv p"
  by (rule connection_inv_link, simp)+

lemmas conn_same = conn_updates conn.I_radioSel conn.I_chanSel conn.I_texts conn.I_radiosCache conn.I_activeRadioId
  conn.I_eventCount conn.I_lastEventId conn.I_localStorage conn.I_sseConsole

lemma conn_send [keeping]:
  assumes "\<And>c. k \<noteq> StreamCall c"
  shows "keeps connection_inv (send k r)"
proof -
  have none: "stream_calls [(requests p, k, r)] = []" for p :: page
    using assms by (cases k) (auto simp: stream_calls_def)
  have "connection_inv (p\<lparr>outstanding := outstanding p @ [(requests p, k, r)], requests := requests p + 1\<rparr>)"
    if inv: "connection_inv p" for p
  proof -
    let ?q = "p\<lparr>outstanding := outstanding p @ [(requests p, k, r)], requests := requests p + 1\<rparr>"
    have "shown_inv ?q = shown_inv p" "controllers_inv ?q = controllers_inv p"
      by (simp_all add: shown_inv_def controllers_inv_def none)
    moreover have "calls_inv ?q" if "calls_inv p"
      using that by (auto simp: calls_inv_def none less_Suc_eq)
    ultimately show ?thesis using inv by (simp add: connection_inv_def)
  qed
  then show ?thesis by (simp add: keeps_def send_def running)
qed

lemma conn_log [keeping]: "keeps connection_inv (logLine m level)"
  by (simp add: keeps_def running conn_same)

lemmas conn_kept = conn.kept_shown conn.kept_refresh conn.kept_selected conn.kept_addSseEvent conn.kept_event

lemma keeps_with_reply:
  assumes "\<And>body. keeps I (f body)" shows "keeps I (with_reply br a f)"
  unfolding with_reply_def with_body_def
  by (auto intro!: keeping assms simp: Let_def split: fetch_answer.splits option.splits)

lemma keeps_with_body:
  assumes "\<And>status body. keeps I (f status body)" shows "keeps I (with_body br a f)"
  unfolding with_body_def by (auto intro!: keeping assms simp: Let_def split: fetch_answer.splits option.splits)

lemma conn_other_answers:
  assumes "\<And>c. k \<noteq> StreamCall c"
  shows "keeps connection_inv (answered br k a)"
  using assms unfolding answered_def
  by (cases k)
    (auto intro!: keeping conn_kept keeps_with_reply keeps_with_body
      simp: list_all_iff Let_def conn_same radios_answered_def select_answered_def channel_answered_def power_answered_def
        health_answered_def token_answered_def updateIdentityFromHealth_def loadRadios_def fetchDevToken_def setToken_def
      split: option.splits json.splits)

lemma conn_free_events: "link_free ev \<Longrightarrow> keeps connection_inv (page_handler br ev)"
  unfolding page_handler_def
  by (cases ev)
    (auto intro!: keeping conn_kept
      simp: link_free_def list_all_iff Let_def conn_same onRadioSelected_def toggleFilter_def applyFilterVisibility_def setToken_def
        fetchDevToken_def loadServiceIdentity_def loadRadios_def page_selectRadio_def page_setChannel_def page_setPower_def
        clearSseEvents_def resetResumeState_def updateLastEventIdDisplay_def
      split: option.splits)

lemma block_then:
  assumes "I (f p)" "keeps I (block ss)"
  shows "I (snd (block (perform f # ss) p))"
  using assms by (simp add: running keeps_def)

definition status_shown :: "bool \<Rightarrow> string \<Rightarrow> page \<Rightarrow> page" where
  "status_shown live label p =
     p\<lparr>sseStatus := (label, if live then ''badge badge-online'' else ''badge badge-offline''),
       connectBtn_disabled := live, disconnectBtn_disabled := \<not> live\<rparr>"

lemma updateSseStatus_eq: "updateSseStatus live label = perform (status_shown live label)"
  unfolding updateSseStatus_def status_shown_def [abs_def] by (rule refl)

lemma conn_lost:
  assumes "connection_inv p" "sseController p = Some c" "label \<noteq> ''Connected''"
  shows "connection_inv (status_shown False label (p\<lparr>streams := AList.delete c (streams p)\<rparr>))"
  using assms unfolding connection_inv_def
  by (auto simp: shown_inv_def controllers_inv_def calls_inv_def status_shown_def)

lemma conn_gone:
  assumes "connection_inv p" "c \<in> set (aborted_controllers p) \<or> map_of (streams p) c = None"
  shows "connection_inv (p\<lparr>streams := AList.delete c (streams p)\<rparr>)"
proof (cases "map_of (streams p) c")
  case None
  then have "AList.delete c (streams p) = streams p" by (intro AList.delete_id) (simp add: map_of_eq_None_iff)
  with assms(1) show ?thesis by simp
next
  case (Some b)
  with assms have "sseController p \<noteq> Some c" by (auto simp: connection_inv_def controllers_inv_def)
  then have "shown_inv (p\<lparr>streams := AList.delete c (streams p)\<rparr>) = shown_inv p"
    by (auto simp: shown_inv_def)
  with assms show ?thesis by (auto simp: connection_inv_def controllers_inv_def calls_inv_def)
qed

lemma conn_failed:
  assumes "connection_inv p"
    and "if e = AbortError then c \<in> set (aborted_controllers p) \<or> map_of (streams p) c = None else sseController p = Some c"
  shows "connection_inv (snd (stream_failed br c e p))"
proof (cases "e = AbortError")
  case True
  with assms have "connection_inv (p\<lparr>streams := AList.delete c (streams p)\<rparr>)" using conn_gone by simp
  moreover have "keeps connection_inv (block [addSseEvent ''SYSTEM'' (message_payload ''SSE connection closed by operator'') None])"
    by (intro keeping) (simp add: conn_kept)
  ultimately show ?thesis unfolding stream_failed_def using True by (simp add: block_then)
next
  case False
  have kept: "keeps connection_inv (block [addSseEvent ''ERROR'' (message_payload (error_message br e)) None,
      logLine (''SSE connect failed: '' @ error_message br e) ''error''])"
    by (intro keeping) (simp add: conn_kept conn_log)
  have "connection_inv (status_shown False ''Disconnected'' (p\<lparr>streams := AList.delete c (streams p)\<rparr>))"
    using conn_lost [OF assms(1)] assms(2) False by simp
  from block_then [of connection_inv "status_shown False ''Disconnected''" _ _, OF this kept]
  show ?thesis using False by (simp add: stream_failed_def updateSseStatus_eq block_performs)
qed

text \<open>A stream that is read and was not told to abort is the current one.\<close>

lemma conn_current:
  assumes "connection_inv p" "c \<notin> set (aborted_controllers p)"
    and "map_of (streams p) c \<noteq> None \<or> c \<in> set (stream_calls (outstanding p))"
  shows "sseController p = Some c"
  using assms by (auto simp: connection_inv_def controllers_inv_def)

lemma conn_buffer:
  assumes "connection_inv p" "map_of (streams p) c \<noteq> None"
  shows "connection_inv (p\<lparr>streams := AList.update c rest (streams p)\<rparr>)"
proof -
  have dom: "map_of (AList.update c rest (streams p)) d = None \<longleftrightarrow> map_of (streams p) d = None" for d
    using assms(2) by (auto simp: update_conv')
  let ?q = "p\<lparr>streams := AList.update c rest (streams p)\<rparr>"
  have "shown_inv ?q = shown_inv p" "controllers_inv ?q = controllers_inv p" "calls_inv ?q = calls_inv p"
    by (simp_all add: shown_inv_def controllers_inv_def calls_inv_def dom del: not_None_eq)
  with assms(1) show ?thesis by (simp add: connection_inv_def)
qed

lemma event_link: "page_link (snd (block (map process_event evs) p)) = page_link p"
proof -
  have "keeps (\<lambda>q. page_link q = page_link p) (block (map process_event evs))"
    by (auto intro!: keeping link.kept_event simp: list_all_iff)
  then show ?thesis by (simp add: keeps_def)
qed

lemma link_fields:
  assumes "page_link p = page_link q"
  shows "sseController p = sseController q" "aborted_controllers p = aborted_controllers q"
  using assms by (simp_all add: page_link_def)

lemma conn_chunk:
  assumes inv: "connection_inv p" and c: "c \<notin> set (aborted_controllers p)"
  shows "connection_inv (snd (chunk_received br c chunk p))"
proof (cases "map_of (streams p) c")
  case None
  with inv show ?thesis by (simp add: chunk_received_def running)
next
  case (Some buffer)
  obtain parts rest where parts: "sse_parts buffer chunk = (parts, rest)" by fastforce
  let ?q = "p\<lparr>streams := AList.update c rest (streams p)\<rparr>" and ?b = "block (map process_event (sse_events parts))"
  obtain r q where r: "?b ?q = (r, q)" by fastforce
  have "connection_inv ?q" using conn_buffer [OF inv] Some by simp
  then have q: "connection_inv q" using event_link [of "sse_events parts" ?q] connection_inv_link r by (metis snd_conv)
  have "no_abort ?b" by (auto intro!: not_aborting simp: list_all_iff)
  then have "r \<noteq> Some AbortError" using r by (metis fst_conv no_abort_def)
  moreover have "sseController q = Some c"
    using link_fields(1) [OF event_link [of "sse_events parts" ?q]] r conn_current [OF inv c] Some by simp
  ultimately show ?thesis unfolding chunk_received_eq [OF Some parts]
    using conn_failed [OF q, of _ c br] q r by (cases r) auto
qed

lemma conn_closed:
  assumes inv: "connection_inv p" and c: "c \<notin> set (aborted_controllers p)"
  shows "connection_inv (snd (stream_closed br c p))" "connection_inv (snd (stream_broken br c (Thrown m) p))"
proof -
  have kept: "keeps connection_inv (block [addSseEvent ''SYSTEM'' (message_payload ''SSE stream closed by server'') None])"
    by (intro keeping) (simp add: conn_kept)
  show "connection_inv (snd (stream_closed br c p))"
  proof (cases "map_of (streams p) c")
    case (Some b)
    have "connection_inv (status_shown False ''Disconnected'' (p\<lparr>streams := AList.delete c (streams p)\<rparr>))"
      using conn_lost [OF inv conn_current [OF inv c]] Some by simp
    from block_then [of connection_inv "status_shown False ''Disconnected''" _ _, OF this kept]
    show ?thesis using Some by (simp add: stream_closed_def updateSseStatus_eq block_performs statements_apply(4))
  qed (simp add: stream_closed_def running inv)
  show "connection_inv (snd (stream_broken br c (Thrown m) p))"
    using conn_failed [OF inv, of "Thrown m" c br] conn_current [OF inv c] inv
    by (cases "map_of (streams p) c") (simp_all add: stream_broken_def statements_apply)
qed

lemma conn_aborted:
  "connection_inv p \<Longrightarrow> c \<in> set (aborted_controllers p) \<Longrightarrow> connection_inv (snd (stream_broken br c AbortError p))"
  using conn_failed [of p AbortError c br]
  by (cases "map_of (streams p) c") (simp_all add: stream_broken_def statements_apply)

text \<open>The answer to the fetch of a stream: the call is no longer outstanding, and nothing is read yet.\<close>

lemma addSseEvent_returns: "fst (addSseEvent tag payload i p) = None"
  by (simp add: addSseEvent_def storeLastEventId_def updateLastEventIdDisplay_def Let_def running split: option.splits)

lemma addSseEvent_link: "page_link (snd (addSseEvent tag payload i p)) = page_link p"
  using link.kept_addSseEvent [of "\<lambda>l. l = page_link p" tag payload i] by (simp add: keeps_def)

lemma conn_opened:
  assumes inv: "connection_inv p" and c: "sseController p = Some c" "c \<notin> set (stream_calls (outstanding p))"
  shows "connection_inv (status_shown True ''Connected'' (p\<lparr>streams := AList.update c [] (streams p)\<rparr>))"
  using assms unfolding connection_inv_def
  by (auto simp: shown_inv_def controllers_inv_def calls_inv_def status_shown_def update_conv')

lemma stream_answered_kept:
  assumes inv: "connection_inv p" and idle: "map_of (streams p) c = None" "c \<notin> set (stream_calls (outstanding p))"
    and a: "if c \<in> set (aborted_controllers p) then a = FetchAborted else sseController p = Some c"
  shows "connection_inv (snd (stream_answered br c a p))"
proof -
  have failed: "connection_inv (snd (stream_failed br c e p))" if "e = AbortError \<longleftrightarrow> a = FetchAborted" for e
    using that a idle(1) by (intro conn_failed [OF inv]) (auto split: if_splits)
  show ?thesis
  proof (cases "\<exists>status st b. a = Response status st (Some b) \<and> response_ok status")
    case True
    have "connection_inv (status_shown True ''Connected'' (p\<lparr>streams := AList.update c [] (streams p)\<rparr>))"
      using conn_opened [OF inv] a idle True by (auto split: if_splits)
    moreover from True obtain status st b where ok: "a = Response status st (Some b)" "response_ok status" by blast
    obtain q where q: "addSseEvent ''SYSTEM'' (message_payload ''SSE connection established'') None
        (status_shown True ''Connected'' p) = (None, q)"
      using addSseEvent_returns [of _ _ None "status_shown True ''Connected'' p"] by (metis prod.collapse)
    then have "page_link q = page_link (status_shown True ''Connected'' p)"
      using addSseEvent_link [of "''SYSTEM''" "message_payload ''SSE connection established''" None "status_shown True ''Connected'' p"]
      by simp
    then have "page_link (q\<lparr>streams := AList.update c [] (streams q)\<rparr>) =
        page_link (status_shown True ''Connected'' (p\<lparr>streams := AList.update c [] (streams p)\<rparr>))"
      by (simp add: page_link_def status_shown_def)
    note connection_inv_link [OF this]
    moreover have "snd (stream_answered br c a p) = q\<lparr>streams := AList.update c [] (streams q)\<rparr>"
      using q ok by (simp add: stream_answered_def try_catch_def updateSseStatus_eq running)
    ultimately show ?thesis by simp
  next
    case False
    then have "\<exists>e. stream_answered br c a p = stream_failed br c e p \<and> (e = AbortError \<longleftrightarrow> a = FetchAborted)"
      by (cases a) (auto simp: stream_answered_def try_catch_def running)
    with failed show ?thesis by metis
  qed
qed

lemma stream_calls_Cons [simp]:
  "stream_calls [] = []"
  "stream_calls ((n, k, r) # xs) = (case k of StreamCall c \<Rightarrow> [c] | _ \<Rightarrow> []) @ stream_calls xs"
  by (simp_all add: stream_calls_def)

lemma set_stream_calls: "c \<in> set (stream_calls xs) \<longleftrightarrow> (\<exists>n r. (n, StreamCall c, r) \<in> set xs)"
  by (induction xs) (auto split: call.splits)

lemma stream_calls_delete: "set (stream_calls (AList.delete n xs)) \<subseteq> set (stream_calls xs)"
  by (auto simp: set_stream_calls AList.delete_eq) blast

lemma distinct_stream_calls_delete:
  "distinct (stream_calls xs) \<Longrightarrow> distinct (stream_calls (AList.delete n xs))"
proof (induction xs)
  case (Cons x xs)
  obtain m k t where x: "x = (m, k, t)" by (cases x)
  with Cons stream_calls_delete [of n xs] show ?case by (cases k) auto
qed simp

lemma stream_call_once:
  "distinct (stream_calls xs) \<Longrightarrow> map_of xs n = Some (StreamCall c, r) \<Longrightarrow> c \<notin> set (stream_calls (AList.delete n xs))"
proof (induction xs)
  case (Cons x xs)
  obtain m k t where x: "x = (m, k, t)" by (cases x)
  show ?case
  proof (cases "m = n")
    case True
    with Cons.prems x stream_calls_delete [of n xs] show ?thesis by auto
  next
    case False
    with Cons.prems x have rest: "distinct (stream_calls xs)" "map_of xs n = Some (StreamCall c, r)" by simp_all
    have "c \<in> set (stream_calls xs)"
      using map_of_SomeD [OF rest(2)] by (auto simp: set_stream_calls)
    with Cons.prems(1) x have "k \<noteq> StreamCall c" by auto
    with Cons.IH [OF rest] False x show ?thesis by (cases k) auto
  qed
qed simp

lemma conn_answered:
  assumes inv: "connection_inv p" and n: "map_of (outstanding p) n = Some (k, r)"
  shows "connection_inv (snd (answered br k (if signalled p k then FetchAborted else a)
    (p\<lparr>outstanding := AList.delete n (outstanding p)\<rparr>)))"
proof -
  let ?q = "p\<lparr>outstanding := AList.delete n (outstanding p)\<rparr>"
  from inv have parts: "shown_inv p" "controllers_inv p" "calls_inv p" by (simp_all add: connection_inv_def)
  have "shown_inv ?q" using parts(1) by (simp add: shown_inv_def)
  moreover have "controllers_inv ?q" using parts(2) stream_calls_delete [of n "outstanding p"]
    unfolding controllers_inv_def by auto
  moreover have "calls_inv ?q"
    using parts(3) stream_calls_delete [of n "outstanding p"] distinct_stream_calls_delete [of "outstanding p" n]
    unfolding calls_inv_def by (auto simp: AList.delete_eq distinct_map_filter)
  ultimately have q: "connection_inv ?q" by (simp add: connection_inv_def)
  show ?thesis
  proof (cases "\<exists>c. k = StreamCall c")
    case False
    then show ?thesis using keepsD [OF conn_other_answers q] by metis
  next
    case True
    then obtain c where k: "k = StreamCall c" by blast
    have once: "c \<in> set (stream_calls (outstanding p))" "c \<notin> set (stream_calls (outstanding ?q))"
      using stream_call_once [of "outstanding p" n c r] map_of_SomeD [OF n] parts(3) n k
      by (auto simp: calls_inv_def set_stream_calls)
    have "map_of (streams ?q) c = None" using parts(3) once(1) by (simp add: calls_inv_def)
    moreover have "sseController ?q = Some c" if "c \<notin> set (aborted_controllers p)"
      using conn_current [OF inv that] once(1) by simp
    ultimately show ?thesis
      using stream_answered_kept [OF q _ once(2), of "if signalled p k then FetchAborted else a" br] k
      by (simp add: answered_def signalled_def)
  qed
qed

lemma conn_disconnected:
  assumes inv: "connection_inv p"
  shows "\<exists>q. disconnectSse p = (None, q) \<and> connection_inv q \<and> sseController q = None \<and>
    connectBtn_disabled q = False \<and> controllers q = controllers p \<and> outstanding q = outstanding p"
proof (cases "sseController p")
  case None
  have "connection_inv (status_shown False ''Disconnected'' p)" using inv None
    by (auto simp: connection_inv_def shown_inv_def controllers_inv_def calls_inv_def status_shown_def)
  then show ?thesis using None by (simp add: disconnectSse_def updateSseStatus_eq running status_shown_def)
next
  case (Some c)
  have "connection_inv (status_shown False ''Disconnected'' (abort_stream c p))" using inv Some
    by (auto simp: connection_inv_def shown_inv_def controllers_inv_def calls_inv_def status_shown_def abort_stream_def)
  then show ?thesis using Some
    by (simp add: disconnectSse_def updateSseStatus_eq running status_shown_def abort_stream_def)
qed

lemma conn_connecting:
  assumes inv: "connection_inv q" and idle: "sseController q = None"
  shows "connection_inv ((status_shown False ''Connecting...''
      (q\<lparr>sseController := Some (controllers q), controllers := controllers q + 1\<rparr>))
    \<lparr>outstanding := outstanding q @ [(requests q, StreamCall (controllers q), r)], requests := requests q + 1\<rparr>)"
proof -
  let ?c = "controllers q"
  from inv have parts: "shown_inv q" "controllers_inv q" "calls_inv q" by (simp_all add: connection_inv_def)
  have fresh: "map_of (streams q) ?c = None" "?c \<notin> set (stream_calls (outstanding q))"
    using parts(2) idle by (auto simp: controllers_inv_def)
  have old: "c < ?c \<and> c \<in> set (aborted_controllers q)"
    if "map_of (streams q) c \<noteq> None \<or> c \<in> set (stream_calls (outstanding q))" for c
    using parts(2) idle that by (auto simp: controllers_inv_def)
  have new: "?c \<notin> set (aborted_controllers q)" using parts(2) by (auto simp: controllers_inv_def)
  let ?p = "(status_shown False ''Connecting...'' (q\<lparr>sseController := Some ?c, controllers := ?c + 1\<rparr>))
    \<lparr>outstanding := outstanding q @ [(requests q, StreamCall ?c, r)], requests := requests q + 1\<rparr>"
  have "shown_inv ?p" using fresh(1) by (simp add: shown_inv_def status_shown_def)
  moreover have "controllers_inv ?p" using old new parts(2)
    by (auto simp: controllers_inv_def status_shown_def less_Suc_eq)
  moreover have "calls_inv ?p" using parts(3) fresh
    by (auto simp: calls_inv_def status_shown_def less_Suc_eq)
  ultimately show ?thesis by (simp add: connection_inv_def)
qed

lemma conn_connectSse:
  assumes inv: "connection_inv p"
  shows "connection_inv (snd (connectSse p))"
proof -
  from conn_disconnected [OF inv] obtain q where q: "disconnectSse p = (None, q)" "connection_inv q" "sseController q = None"
    by blast
  from conn_connecting [OF q(2,3), of "get_request (js_trim (sseUrl q)) (sse_headers q)"] show ?thesis
    using q(1) by (simp add: connectSse_def running Let_def send_def updateSseStatus_eq status_shown_def)
qed

theorem conn_step: "page_step br p ev p' \<Longrightarrow> connection_inv p \<Longrightarrow> connection_inv p'"
proof (cases ev)
  case (Pair now e)
  assume "page_step br p ev p'" "connection_inv p"
  then have inv: "connection_inv (p\<lparr>clock := now\<rparr>)" and p': "p' = snd (page_handler br e (p\<lparr>clock := now\<rparr>))"
    by (simp_all add: Pair)
  let ?p = "p\<lparr>clock := now\<rparr>"
  consider "link_free e" | "e = ClickConnect" | "e = ClickDisconnect" | n a where "e = Answered n a" | c t where "e = Chunk c t"
    | c where "e = StreamClosed c" | c m where "e = StreamError c m" | c where "e = StreamAborted c"
    by (cases e) (auto simp: link_free_def)
  then show "connection_inv p'"
  proof cases
    case 1
    then show ?thesis using keepsD [OF conn_free_events inv] p' by simp
  next
    case 2
    then show ?thesis using conn_connectSse [OF inv] inv p' by (simp add: page_handler_def statements_apply)
  next
    case 3
    then show ?thesis using conn_disconnected [OF inv] inv p' by (auto simp: page_handler_def statements_apply)
  next
    case 4
    then show ?thesis using conn_answered [OF inv, of n _ _ br a] inv p'
      by (auto simp: page_handler_def statements_apply block_performs block_single split: option.splits)
  next
    case 5
    then show ?thesis using conn_chunk [OF inv] inv p' by (simp add: page_handler_def statements_apply)
  next
    case 6
    then show ?thesis using conn_closed [OF inv] inv p' by (simp add: page_handler_def statements_apply)
  next
    case 7
    then show ?thesis using conn_closed [OF inv] inv p' by (simp add: page_handler_def statements_apply)
  next
    case 8
    then show ?thesis using conn_aborted [OF inv] inv p' by (simp add: page_handler_def statements_apply)
  qed
qed

section \<open>The event console\<close>

definition plain_tag :: "string \<Rightarrow> bool" where
  "plain_tag t \<longleftrightarrow> t \<noteq> [] \<and> t \<noteq> ''event-card'' \<and> list_all (\<lambda>c. \<not> isspace c) t"

lemma class_tokens_word: "list_all (\<lambda>c. \<not> isspace c) t \<Longrightarrow> class_tokens t = [t]"
  by (induction t) simp_all

lemma class_tokens_space:
  "list_all (\<lambda>c. \<not> isspace c) w \<Longrightarrow> class_tokens (w @ CHR '' '' # t) = w # class_tokens t"
  by (induction w) (simp_all add: isspace_def char_code_def)

lemma card_type_plain:
  assumes "card_class c = ''event-card '' @ t" "plain_tag t"
  shows "card_type c = Some t"
proof -
  have "list_all (\<lambda>c. \<not> isspace c) ''event-card''" by (simp add: isspace_def char_code_def)
  from class_tokens_space [OF this, of t] have "class_tokens (card_class c) = [''event-card'', t]"
    using assms class_tokens_word [of t] by (simp add: plain_tag_def)
  with assms(2) show ?thesis by (simp add: card_type_def plain_tag_def)
qed

definition console_inv :: "page \<Rightarrow> bool" where
  "console_inv p \<longleftrightarrow>
     length (sseConsole p) = min 200 (eventCount p) \<and>
     (\<forall>c \<in> set (sseConsole p). card_class c = ''event-card '' @ card_tag c \<and>
        (plain_tag (card_tag c) \<longrightarrow> (card_hidden c \<longleftrightarrow> card_tag c \<notin> set (eventFilters p)))) \<and>
     localStorage p = (if lastEventId p = [] then None else Some (lastEventId p)) \<and>
     set (eventFilters p) \<subseteq> set filter_boxes"

interpretation console: rendering_frame console_inv
  by unfold_locales (simp_all add: console_inv_def)

lemma console_same [simp]:
  "console_inv (p\<lparr>radioConsole := x1\<rparr>) = console_inv p" "console_inv (p\<lparr>radiosCache := x2\<rparr>) = console_inv p"
  "console_inv (p\<lparr>activeRadioId := x3\<rparr>) = console_inv p" "console_inv (p\<lparr>texts := x4\<rparr>) = console_inv p"
  "console_inv (p\<lparr>globalToken := x12\<rparr>) = console_inv p" "console_inv (p\<lparr>streams := x11\<rparr>) = console_inv p"
  "console_inv (p\<lparr>apiToken := x13\<rparr>) = console_inv p" "console_inv (p\<lparr>sseToken := x14\<rparr>) = console_inv p"
  "console_inv (p\<lparr>sseUrl := x15\<rparr>) = console_inv p" "console_inv (p\<lparr>pwrDbm := x16\<rparr>) = console_inv p"
  "console_inv (p\<lparr>clock := x17\<rparr>) = console_inv p" "console_inv (p\<lparr>radioSel := x5\<rparr>) = console_inv p"
  "console_inv (p\<lparr>chanSel := x6\<rparr>) = console_inv p" "console_inv (p\<lparr>sseStatus := x7\<rparr>) = console_inv p"
  "console_inv (p\<lparr>connectBtn_disabled := x8\<rparr>) = console_inv p" "console_inv (p\<lparr>disconnectBtn_disabled := x9\<rparr>) = console_inv p"
  "console_inv (p\<lparr>outstanding := x10\<rparr>) = console_inv p" "console_inv (p\<lparr>requests := x18\<rparr>) = console_inv p"
  "console_inv (p\<lparr>sseController := x19\<rparr>) = console_inv p" "console_inv (p\<lparr>controllers := x20\<rparr>) = console_inv p"
  "console_inv (p\<lparr>aborted_controllers := x21\<rparr>) = console_inv p"
  by (simp_all add: console_inv_def)

lemma console_log: "keeps console_inv (logLine m level)"
  by (simp add: keeps_def running)

lemma console_card:
  assumes "console_inv p" "card_class c = ''event-card '' @ card_tag c" "card_hidden c = (card_tag c \<notin> set (eventFilters p))"
  shows "console_inv (p\<lparr>sseConsole := take 200 (c # sseConsole p), eventCount := eventCount p + 1\<rparr>)"
  using assms by (auto simp: console_inv_def dest: in_set_takeD)

lemma console_addSseEvent: "keeps console_inv (addSseEvent tag payload i)"
proof -
  have "keeps console_inv (storeLastEventId i)" for i
    unfolding storeLastEventId_def updateLastEventIdDisplay_def
    by (auto intro!: keeping console.kept_shown simp: list_all_iff console_inv_def)
  moreover have "keeps console_inv (perform (\<lambda>p. (let c = card p in
      p\<lparr>sseConsole := take 200 (c # sseConsole p), eventCount := eventCount p + 1\<rparr>)))"
    if "\<And>p. card_class (card p) = ''event-card '' @ card_tag (card p)"
      "\<And>p. card_hidden (card p) = (card_tag (card p) \<notin> set (eventFilters p))" for card
    unfolding Let_def using that by (intro keeps_perform console_card)
  ultimately show ?thesis unfolding addSseEvent_def Let_def [of "case i of None \<Rightarrow> [] | Some i \<Rightarrow> i"]
    by (intro keeping) (simp add: keeping console.kept_shown)
qed

lemmas console_kept = console.kept_shown console.kept_refresh console.kept_selected console_addSseEvent console_log

lemma console_telemetry: "keeps console_inv (applyTelemetryEvent tag payload)"
  unfolding applyTelemetryEvent_def applyReadySnapshot_def apply_incoming_def
  by (auto intro!: keeping console_kept simp: list_all_iff Let_def split: option.splits)

lemma console_event: "keeps console_inv (process_event ev)"
  unfolding process_event_def
  by (auto intro!: keeping console_telemetry console_kept simp: list_all_iff split: prod.splits)

lemma console_stream: "keeps console_inv (stream_failed br c e)" "keeps console_inv (stream_broken br c e)"
  "keeps console_inv (stream_closed br c)" "keeps console_inv (chunk_received br c chunk)"
  unfolding stream_failed_def stream_broken_def stream_closed_def chunk_received_def updateSseStatus_def
  by (auto intro!: keeping console_kept console_event simp: list_all_iff split: option.splits prod.splits)

lemma console_link: "keeps console_inv disconnectSse" "keeps console_inv connectSse" "keeps console_inv (send k r)"
  unfolding connectSse_def disconnectSse_def updateSseStatus_def send_def
  by (auto intro!: keeping simp: list_all_iff Let_def abort_stream_def split: option.splits)

lemma console_answered: "keeps console_inv (answered br k a)"
  unfolding answered_def
  by (cases k)
    (auto intro!: keeping console_kept console_stream console_link keeps_with_reply keeps_with_body
      simp: list_all_iff Let_def radios_answered_def select_answered_def channel_answered_def power_answered_def
        health_answered_def token_answered_def updateIdentityFromHealth_def loadRadios_def fetchDevToken_def setToken_def
        stream_answered_def updateSseStatus_def
      split: option.splits json.splits fetch_answer.splits)

lemma console_toggle: "v \<in> set filter_boxes \<Longrightarrow> keeps console_inv (toggleFilter v checked)"
  using card_type_plain
  by (auto simp: keeps_def toggleFilter_def applyFilterVisibility_def running console_inv_def split: if_splits)

lemma console_clear: "keeps console_inv clearSseEvents" "keeps console_inv resetResumeState"
  unfolding clearSseEvents_def resetResumeState_def updateLastEventIdDisplay_def
  by (auto intro!: keeping console_kept simp: list_all_iff console_inv_def)

lemma console_step: "page_step br p ev p' \<Longrightarrow> console_inv p \<Longrightarrow> console_inv p'"
proof -
  have "keeps console_inv (page_handler br e)" for e
    unfolding page_handler_def
    by (cases e)
      (auto intro!: keeping console_kept console_stream console_link console_answered console_toggle console_clear
        simp: list_all_iff Let_def onRadioSelected_def setToken_def fetchDevToken_def loadServiceIdentity_def loadRadios_def
          page_selectRadio_def page_setChannel_def page_setPower_def
        split: option.splits)
  then show "page_step br p ev p' \<Longrightarrow> console_inv p \<Longrightarrow> console_inv p'"
    by (cases ev) (auto simp: keeps_def)
qed

section \<open>Every reachable page\<close>

lemma page_starts:
  assumes "stored \<noteq> Some []"
  shows "connection_inv (snd (page_init br (loaded_page stored now)))" "console_inv (snd (page_init br (loaded_page stored now)))"
proof -
  let ?p = "loaded_page stored now" and ?q = "snd (page_init br (loaded_page stored now))"
  have q: "page_link ?q = ((None, 0, []), ([(0, HealthCall True, get_request (API_BASE @ ''/health'') [])], 1, []),
      ((''Disconnected'', ''badge badge-offline''), False, True))"
    "sseConsole ?q = []" "eventCount ?q = 0" "eventFilters ?q = fold List.insert filter_boxes []"
    "localStorage ?q = stored" "lastEventId ?q = (case stored of None \<Rightarrow> [] | Some i \<Rightarrow> i)"
    by (simp_all add: page_init_def loaded_page_def running initializeFilters_def updateLastEventIdDisplay_def
      updateSseStatus_def loadServiceIdentity_def send_def page_link_def)
  then show "connection_inv ?q"
    by (simp add: page_link_def connection_inv_def shown_inv_def controllers_inv_def calls_inv_def)
  show "console_inv ?q"
    using assms unfolding console_inv_def q(2-6) by (cases stored) (simp_all add: filter_boxes_def)
qed

text \<open>C23. The page tells the truth: whatever the operator clicks, whatever the service answers and in whatever
  pieces and order the stream arrives, the page says Connected, and offers Disconnect, exactly while it reads
  the stream of its one current connection, the event console holds the last 200 events at most and shows exactly
  those whose type is ticked, and the id it will resume from is the one it stored.\<close>

theorem page_tells_the_truth:
  assumes "page_run br (snd (page_init br (loaded_page stored now))) evs p" "stored \<noteq> Some []"
  shows "(fst (sseStatus p) = ''Connected'' \<longleftrightarrow> (\<exists>c. sseController p = Some c \<and> map_of (streams p) c \<noteq> None)) \<and>
    (disconnectBtn_disabled p \<longleftrightarrow> fst (sseStatus p) \<noteq> ''Connected'') \<and> (connectBtn_disabled p \<longleftrightarrow> \<not> disconnectBtn_disabled p) \<and>
    (\<forall>c d. map_of (streams p) c \<noteq> None \<and> map_of (streams p) d \<noteq> None \<and>
       c \<notin> set (aborted_controllers p) \<and> d \<notin> set (aborted_controllers p) \<longrightarrow> c = d) \<and>
    length (sseConsole p) = min 200 (eventCount p) \<and>
    (\<forall>c \<in> set (sseConsole p). plain_tag (card_tag c) \<longrightarrow> (card_hidden c \<longleftrightarrow> card_tag c \<notin> set (eventFilters p))) \<and>
    localStorage p = (if lastEventId p = [] then None else Some (lastEventId p))"
proof -
  have "connection_inv p \<and> console_inv p"
    using monitor.run_invariant [of br _ evs p "\<lambda>p. connection_inv p \<and> console_inv p"] assms page_starts [OF assms(2)]
      conn_step console_step by blast
  then have shown: "shown_inv p" and ctl: "controllers_inv p" and cons: "console_inv p"
    by (simp_all add: connection_inv_def)
  have "c = d" if "map_of (streams p) c \<noteq> None \<and> map_of (streams p) d \<noteq> None \<and>
       c \<notin> set (aborted_controllers p) \<and> d \<notin> set (aborted_controllers p)" for c d
    using ctl that unfolding controllers_inv_def by (metis option.inject)
  with shown cons show ?thesis by (simp add: shown_inv_def console_inv_def)
qed

theorem page_tells_the_truth_witness:
  "let p = fold (page_event_applied demo_browser)
         [(''t1'', ClickConnect), (''t2'', Answered 1 (Response 200 ''OK'' (Some [])))]
         (snd (page_init demo_browser (loaded_page None ''t0'')))
   in fst (sseStatus p) = ''Connected'' \<and> disconnectBtn_disabled p = False \<and> length (sseConsole p) = 1"
proof -
  let ?p = "fold (page_event_applied demo_browser)
         [(''t1'', ClickConnect), (''t2'', Answered 1 (Response 200 ''OK'' (Some [])))]
         (snd (page_init demo_browser (loaded_page None ''t0'')))"
  have "page_run demo_browser (snd (page_init demo_browser (loaded_page None ''t0'')))
      [(''t1'', ClickConnect), (''t2'', Answered 1 (Response 200 ''OK'' (Some [])))] ?p" by (simp only: page_run_def)
  from page_tells_the_truth [OF this]
  have truth: "disconnectBtn_disabled ?p \<longleftrightarrow> fst (sseStatus ?p) \<noteq> ''Connected''"
    "length (sseConsole ?p) = min 200 (eventCount ?p)" by blast+
  define p0 where "p0 = snd (page_init demo_browser (loaded_page None ''t0''))"
  have p0: "sseController p0 = None" "controllers p0 = 0" "outstanding p0 = [(0, HealthCall True, get_request (API_BASE @ ''/health'') [])]"
    "requests p0 = 1" "streams p0 = []" "connectBtn_disabled p0 = False" "eventCount p0 = 0" "aborted_controllers p0 = []"
    by (simp_all add: p0_def page_init_def loaded_page_def running initializeFilters_def updateLastEventIdDisplay_def
      updateSseStatus_def loadServiceIdentity_def send_def)
  define p1 where "p1 = page_event_applied demo_browser (''t1'', ClickConnect) p0"
  have p1: "map_of (outstanding p1) 1 = Some (StreamCall 0, get_request (js_trim (sseUrl p0)) (sse_headers p0))"
      "aborted_controllers p1 = []" "eventCount p1 = 0"
    using p0 by (simp_all add: p1_def page_event_applied_def page_handler_def running connectSse_def disconnectSse_def
      updateSseStatus_def Let_def send_def sse_headers_def)
  then have "fst (sseStatus (page_event_applied demo_browser (''t2'', Answered 1 (Response 200 ''OK'' (Some []))) p1)) = ''Connected''"
    "eventCount (page_event_applied demo_browser (''t2'', Answered 1 (Response 200 ''OK'' (Some []))) p1) = 1"
    by (simp_all add: page_event_applied_def page_handler_def running answered_def signalled_def stream_answered_def
      try_catch_def response_ok_def addSseEvent_def updateSseStatus_def Let_def)
  then have "fst (sseStatus ?p) = ''Connected''" "eventCount ?p = 1" by (simp_all add: p1_def p0_def)
  with truth show ?thesis by (simp add: Let_def)
qed

end
