(* ===== verification/Page_Data.thy ===== *)
theory Page_Data
  imports Page_Invariants
begin

text \<open>
  The data the service sends and what the page makes of it: a type of the cached radios and of the events
  under which no statement of the page throws, kept by every event, and what an event leaves in the cache and
  on the screen.
\<close>

section \<open>Scalars and objects\<close>

definition js_scalar :: "json \<Rightarrow> bool" where
  "js_scalar j \<longleftrightarrow> (case j of JArray _ \<Rightarrow> False | JObject _ \<Rightarrow> False | _ \<Rightarrow> True)"

definition scalar_field :: "js \<Rightarrow> bool" where
  "scalar_field v \<longleftrightarrow> (case v of None \<Rightarrow> True | Some j \<Rightarrow> js_scalar j)"

definition is_obj :: "json \<Rightarrow> bool" where
  "is_obj j \<longleftrightarrow> (\<exists>kvs. j = JObject kvs)"

lemma scalar_text: "scalar_field v \<Longrightarrow> js_text v \<noteq> None"
  by (cases v; cases "the v") (auto simp: scalar_field_def js_scalar_def)

lemma scalar_number: "scalar_field v \<Longrightarrow> js_number v \<noteq> None"
  by (cases v; cases "the v") (auto simp: scalar_field_def js_scalar_def)

lemma scalar_simps [simp]: "scalar_field None" "scalar_field (Some JNull)" "scalar_field (Some (JString s))"
  "scalar_field (Some (JInt i))" "scalar_field (Some (JFloat d))" "scalar_field (Some (JBool b))" "scalar_field (Some (num_json d))"
  by (simp_all add: scalar_field_def js_scalar_def num_json_def split: double.splits)

lemma scalar_or: "scalar_field a \<Longrightarrow> scalar_field b \<Longrightarrow> scalar_field (js_or a b)"
  by (simp add: js_or_def)

lemma obj_prop: "is_obj j \<Longrightarrow> js_prop k (Some j) = Some (json_find k j)" "is_obj j \<Longrightarrow> js_opt k (Some j) = json_find k j"
  "is_obj j \<Longrightarrow> js_truthy (Some j)"
  by (auto simp: is_obj_def)

lemma obj_set: "is_obj j \<Longrightarrow> is_obj (js_set k v j)" "is_obj j \<Longrightarrow> json_find i (js_set k v j) = (if i = k then Some v else json_find i j)"
  by (auto simp: is_obj_def js_set_def update_conv')

lemma obj_assign: "is_obj j \<Longrightarrow> is_obj (js_assign k v j)" "is_obj j \<Longrightarrow> json_find i (js_assign k v j) = (if i = k then v else json_find i j)"
  by (auto simp: is_obj_def js_assign_def js_set_def update_conv' split: option.splits)

lemma obj_spread: "is_obj (js_spread a b)"
  by (simp add: js_spread_def is_obj_def)

lemma obj_spread_find: "is_obj a \<Longrightarrow> is_obj b \<Longrightarrow>
    json_find k (js_spread (Some a) (Some b)) = (case json_find k b of None \<Rightarrow> json_find k a | Some v \<Rightarrow> Some v)"
  by (auto simp: is_obj_def split: option.splits)

lemma obj_new [simp]: "is_obj (js_object kvs)" "is_obj (JObject xs)"
  by (simp_all add: js_object_def is_obj_def)

section \<open>The type of the radios\<close>

definition state_ok :: "js \<Rightarrow> bool" where
  "state_ok v \<longleftrightarrow> (case v of None \<Rightarrow> True | Some s \<Rightarrow> is_obj s \<and>
     scalar_field (json_find ''frequencyMhz'' s) \<and> scalar_field (json_find ''powerDbm'' s) \<and>
     scalar_field (json_find ''channelIndex'' s))"

definition listed_channel :: "json \<Rightarrow> bool" where
  "listed_channel c \<longleftrightarrow> is_obj c \<and> scalar_field (json_find ''index'' c) \<and> scalar_field (json_find ''frequencyMhz'' c)"

definition channels_ok :: "js \<Rightarrow> bool" where
  "channels_ok v \<longleftrightarrow> (case v of None \<Rightarrow> True | Some c \<Rightarrow> (\<exists>xs. c = JArray xs \<and> list_all listed_channel xs))"

definition caps_ok :: "js \<Rightarrow> bool" where
  "caps_ok v \<longleftrightarrow> (case v of None \<Rightarrow> True | Some c \<Rightarrow> is_obj c \<and> channels_ok (json_find ''channels'' c) \<and>
     scalar_field (json_find ''minPowerDbm'' c) \<and> scalar_field (json_find ''maxPowerDbm'' c))"

definition id_ok :: "js \<Rightarrow> bool" where
  "id_ok v \<longleftrightarrow> (\<exists>i. v = js_str i)"

definition radio_ok :: "json \<Rightarrow> bool" where
  "radio_ok r \<longleftrightarrow> is_obj r \<and> id_ok (json_find ''id'' r) \<and> scalar_field (json_find ''status'' r) \<and>
     state_ok (json_find ''state'' r) \<and> caps_ok (json_find ''capabilities'' r)"

text \<open>The id of a cached radio, and the page's view of it.\<close>

definition radio_id :: "json \<Rightarrow> string" where
  "radio_id r = (case json_find ''id'' r of Some (JString i) \<Rightarrow> i | _ \<Rightarrow> [])"

lemma radio_id_find: "radio_ok r \<Longrightarrow> json_find ''id'' r = js_str (radio_id r)"
  by (auto simp: radio_ok_def id_ok_def radio_id_def)

lemma has_id_radio: "radio_ok r \<Longrightarrow> has_id (js_str i) r = Some (radio_id r = i)"
  using radio_id_find [of r] by (simp add: has_id_def obj_prop radio_ok_def)

definition page_ok :: "page \<Rightarrow> bool" where
  "page_ok p \<longleftrightarrow> list_all radio_ok (radiosCache p) \<and> (activeRadioId p = null \<or> (\<exists>i. activeRadioId p = js_str i))"

section \<open>Statements that do not throw\<close>

definition calm :: "(page \<Rightarrow> bool) \<Rightarrow> statement \<Rightarrow> bool" where
  "calm I s \<longleftrightarrow> (\<forall>p. I p \<longrightarrow> fst (s p) = None \<and> I (snd (s p)))"

named_theorems calming "statements that do not throw on data of the right type"

lemma calmD: "calm I s \<Longrightarrow> I p \<Longrightarrow> fst (s p) = None \<and> I (snd (s p))"
  by (simp add: calm_def)

lemma calm_perform [calming]: "(\<And>p. I p \<Longrightarrow> I (f p)) \<Longrightarrow> calm I (perform f)"
  by (simp add: calm_def running)

lemma calm_skip [calming]: "calm I skip"
  by (simp add: calm_def running)

lemma calm_block [calming]: "list_all (calm I) ss \<Longrightarrow> calm I (block ss)"
proof (induction ss)
  case (Cons s ss)
  show ?case unfolding calm_def
  proof (intro allI impI)
    fix p assume "I p"
    obtain r q where q: "s p = (r, q)" by fastforce
    have "r = None \<and> I q" using Cons.prems calmD [of I s p] \<open>I p\<close> q by simp
    moreover have "calm I (block ss)" using Cons by simp
    ultimately show "fst (block (s # ss) p) = None \<and> I (snd (block (s # ss) p))"
      using calmD [of I "block ss" q] q by (simp add: running)
  qed
qed (simp add: calm_def running)

lemma calm_evaluate [calming]:
  "(\<And>p. I p \<Longrightarrow> e p \<noteq> None) \<Longrightarrow> (\<And>p v. I p \<Longrightarrow> e p = Some v \<Longrightarrow> calm I (f v)) \<Longrightarrow> calm I (evaluate e f)"
  unfolding calm_def evaluate_def by (metis (no_types, lifting) option.case_eq_if option.collapse)

lemma calm_reading [calming]: "(\<And>q. I q \<Longrightarrow> calm I (r q)) \<Longrightarrow> calm I (reading r)"
  by (simp add: calm_def running)

lemma calm_if [calming]: "(c \<Longrightarrow> calm I a) \<Longrightarrow> (\<not> c \<Longrightarrow> calm I b) \<Longrightarrow> calm I (if c then a else b)"
  by simp

interpretation ok: rendering_frame page_ok
  by unfold_locales (simp_all add: page_ok_def)

lemma page_ok_updates [simp]:
  "page_ok (p\<lparr>radioSel := d\<rparr>) = page_ok p" "page_ok (p\<lparr>chanSel := d\<rparr>) = page_ok p" "page_ok (p\<lparr>texts := ts\<rparr>) = page_ok p"
  "page_ok (p\<lparr>eventCount := n\<rparr>) = page_ok p" "page_ok (p\<lparr>lastEventId := i\<rparr>) = page_ok p"
  "page_ok (p\<lparr>localStorage := l\<rparr>) = page_ok p" "page_ok (p\<lparr>sseConsole := cs\<rparr>) = page_ok p"
  "page_ok (p\<lparr>radioConsole := lg\<rparr>) = page_ok p" "page_ok (p\<lparr>streams := sm\<rparr>) = page_ok p"
  by (simp_all add: page_ok_def)

lemma calm_shown [calming]: "calm page_ok (set_shown target t)" "calm page_ok (logLine m level)"
  by (simp_all add: calm_def running)

section \<open>Rendering does not throw\<close>

lemma channels_of_ok:
  assumes "radio_ok r"
  shows "\<exists>xs. channels_of (Some r) = Some (Some (JArray xs)) \<and> list_all listed_channel xs"
proof -
  have caps: "is_obj r" "caps_ok (json_find ''capabilities'' r)" using assms by (simp_all add: radio_ok_def)
  show ?thesis
  proof (cases "json_find ''capabilities'' r")
    case None
    then show ?thesis using caps by (simp add: channels_of_def obj_prop js_or_def)
  next
    case (Some c)
    then show ?thesis using caps
      by (cases "json_find ''channels'' c") (auto simp: channels_of_def obj_prop js_or_def caps_ok_def channels_ok_def)
  qed
qed

lemma channel_matches_ok: "listed_channel c \<Longrightarrow> scalar_field f \<Longrightarrow> channel_matches f c \<noteq> None"
  using scalar_number [of f] scalar_number [of "json_find ''frequencyMhz'' c"]
  by (auto simp: channel_matches_def listed_channel_def obj_prop)

lemma js_find_hit:
  assumes "\<forall>x \<in> set xs. f x \<noteq> None"
  shows "\<exists>r. js_find f xs = Some r \<and> (\<forall>x. r = Some x \<longrightarrow> x \<in> set xs \<and> f x = Some True)"
proof -
  have "list_all (\<lambda>x. f x = Some (the (f x))) xs" using assms by (auto simp: list_all_iff)
  from js_find_total [OF this] show ?thesis
    using assms by (auto simp: find_Some_iff in_set_conv_nth) (metis nth_mem option.collapse option.distinct(1))
qed

lemma deriveChannelIndex_ok:
  assumes "radio_ok r"
  shows "\<exists>v. deriveChannelIndex (Some r) = Some v \<and> scalar_field v"
proof -
  have r: "is_obj r" "state_ok (json_find ''state'' r)" using assms by (simp_all add: radio_ok_def)
  obtain xs where xs: "channels_of (Some r) = Some (Some (JArray xs))" "list_all listed_channel xs"
    using channels_of_ok [OF assms] by blast
  have found: "\<exists>v. Option.bind (js_find (channel_matches f) xs) (\<lambda>found. if js_truthy found then js_prop ''index'' found else Some null) = Some v
      \<and> scalar_field v" if f: "scalar_field f" for f
  proof -
    have "\<forall>x \<in> set xs. channel_matches f x \<noteq> None" using xs(2) channel_matches_ok f by (auto simp: list_all_iff)
    from js_find_hit [OF this] obtain m where m: "js_find (channel_matches f) xs = Some m" "\<forall>x. m = Some x \<longrightarrow> x \<in> set xs"
      by blast
    show ?thesis
    proof (cases m)
      case (Some c)
      with m xs(2) have "listed_channel c" by (auto simp: list_all_iff)
      with m Some show ?thesis by (simp add: obj_prop listed_channel_def)
    qed (simp add: m)
  qed
  show ?thesis
  proof (cases "json_find ''state'' r")
    case None
    then show ?thesis using r xs by (simp add: deriveChannelIndex_def obj_prop js_nullish_def)
  next
    case (Some s)
    then have s: "is_obj s" "scalar_field (json_find ''frequencyMhz'' s)" "scalar_field (json_find ''channelIndex'' s)"
      using r(2) by (simp_all add: state_ok_def)
    show ?thesis using found [OF s(2)] s r xs Some by (simp add: deriveChannelIndex_def obj_prop Let_def)
  qed
qed

lemma channel_text_ok: "listed_channel c \<Longrightarrow> channel_text a b d c \<noteq> None"
  using scalar_text [of "json_find ''index'' c"] scalar_text [of "json_find ''frequencyMhz'' c"]
  by (auto simp: channel_text_def listed_channel_def obj_prop)

lemma those_ok: "list_all (\<lambda>x. f x \<noteq> None) xs \<Longrightarrow> those (map f xs) \<noteq> None"
  by (induction xs) auto

lemma channels_text_ok: "list_all listed_channel xs \<Longrightarrow> channels_text (Some (JArray xs)) \<noteq> None"
  using those_ok [of "channel_text ''Ch '' '' ('' '' MHz)''" xs] channel_text_ok
  by (auto simp: channels_text_def js_prop_def list_all_iff)

lemma calm_channel_option [calming]: "listed_channel c \<Longrightarrow> calm page_ok (append_channel_option c)"
  unfolding append_channel_option_def
  using scalar_text [of "json_find ''index'' c"] channel_text_ok [of c]
  by (intro calming) (auto simp: obj_prop listed_channel_def)

lemma calm_channels:
  assumes "radio_ok r"
  shows "calm page_ok (populateChannelDropdown (Some r))"
proof -
  obtain xs where xs: "channels_of (Some r) = Some (Some (JArray xs))" "list_all listed_channel xs"
    using channels_of_ok [OF assms] by blast
  obtain v where v: "deriveChannelIndex (Some r) = Some v" "scalar_field v" using deriveChannelIndex_ok [OF assms] by blast
  have "js_truthy (Some r)" using assms by (simp add: radio_ok_def obj_prop)
  with xs v scalar_text [OF v(2)] show ?thesis unfolding populateChannelDropdown_def
    by (auto intro!: calming simp: list_all_iff js_prop_def split: if_splits)
qed

lemma calm_no_channels: "calm page_ok (populateChannelDropdown null)"
  unfolding populateChannelDropdown_def by (auto intro!: calming)

lemma statusBadge_ok: "scalar_field v \<Longrightarrow> statusBadge v \<noteq> None"
  using scalar_text [of "js_or v (js_str ''offline'')"] scalar_or [of v "js_str ''offline''"]
  by (auto simp: statusBadge_def Let_def)

lemma formatNullable_ok: "scalar_field v \<Longrightarrow> formatNullable v u \<noteq> None"
  using scalar_text by (auto simp: formatNullable_def)

lemma power_range_ok: "scalar_field a \<Longrightarrow> scalar_field b \<Longrightarrow> power_range_text a b \<noteq> None"
  using scalar_text [of a] scalar_text [of b] by (auto simp: power_range_text_def)

lemma caps_fields:
  assumes "radio_ok r"
  shows "scalar_field (js_opt ''minPowerDbm'' (json_find ''capabilities'' r))"
    "scalar_field (js_opt ''maxPowerDbm'' (json_find ''capabilities'' r))"
  using assms by (cases "json_find ''capabilities'' r"; simp add: radio_ok_def caps_ok_def obj_prop)+

lemma state_fields:
  assumes "radio_ok r"
  shows "scalar_field (js_opt ''frequencyMhz'' (json_find ''state'' r))" "scalar_field (js_opt ''powerDbm'' (json_find ''state'' r))"
    "scalar_field (js_opt ''channelIndex'' (json_find ''state'' r))"
  using assms by (cases "json_find ''state'' r"; simp add: radio_ok_def state_ok_def obj_prop)+

lemma active_text: "page_ok p \<Longrightarrow> js_text (js_or (activeRadioId p) (js_str t)) \<noteq> None"
  by (auto simp: page_ok_def js_or_def)

lemma calm_render:
  assumes "radio_ok r"
  shows "calm page_ok (renderRadioState (Some r))"
proof -
  obtain xs where xs: "channels_of (Some r) = Some (Some (JArray xs))" "list_all listed_channel xs"
    using channels_of_ok [OF assms] by blast
  obtain v where v: "deriveChannelIndex (Some r) = Some v" "scalar_field v" using deriveChannelIndex_ok [OF assms] by blast
  have r: "is_obj r" "js_truthy (Some r)" "scalar_field (json_find ''status'' r)" using assms by (simp_all add: radio_ok_def obj_prop)
  have badge: "statusBadge (js_or (json_find ''status'' r) (js_str ''offline'')) \<noteq> None"
    using statusBadge_ok scalar_or r(3) by simp
  show ?thesis unfolding renderRadioState_def
    using r v(1) xs(1) badge scalar_text [OF v(2)] channels_text_ok [OF xs(2)] formatNullable_ok [OF state_fields(1) [OF assms]]
      formatNullable_ok [OF state_fields(2) [OF assms]] power_range_ok [OF caps_fields [OF assms]] active_text
    by (intro calming; simp add: list_all_iff obj_prop) (auto intro!: calming calm_channels [OF assms])
qed

lemma calm_render_none: "calm page_ok (renderRadioState null)"
  unfolding renderRadioState_def using active_text
  by (auto intro!: calming calm_no_channels simp: list_all_iff)

section \<open>The radio list does not throw\<close>

lemma find_radio: "list_all radio_ok rs \<Longrightarrow> js_find (has_id (js_str i)) rs = Some (List.find (\<lambda>r. radio_id r = i) rs)"
  by (rule js_find_total) (auto simp: list_all_iff has_id_radio)

lemma find_radio_index:
  "list_all radio_ok rs \<Longrightarrow> js_find_index (has_id (js_str i)) rs =
     Some (if \<exists>r \<in> set rs. radio_id r = i then Some (length (takeWhile (\<lambda>r. radio_id r \<noteq> i) rs)) else None)"
  by (rule js_find_index_total) (auto simp: list_all_iff has_id_radio)

lemma some_radio: "list_all radio_ok rs \<Longrightarrow> js_some (has_id (js_str i)) rs = Some (\<exists>r \<in> set rs. radio_id r = i)"
  by (simp add: js_some_def find_radio_index)

definition selected_radio :: "page \<Rightarrow> json option" where
  "selected_radio p = List.find (\<lambda>r. radio_id r = selectedRadioId p) (radiosCache p)"

lemma selected_radio_ok: "page_ok p \<Longrightarrow> selected_radio p = Some r \<Longrightarrow> radio_ok r \<and> r \<in> set (radiosCache p)"
  by (auto simp: selected_radio_def page_ok_def list_all_iff find_Some_iff)

lemma render_selected_eq:
  "page_ok p \<Longrightarrow> render_selected p = renderRadioState (js_or (selected_radio p) null) p"
  by (simp add: render_selected_def evaluate_def find_radio page_ok_def selected_radio_def)

lemma calm_selected [calming]: "calm page_ok render_selected"
proof -
  have "calm page_ok (renderRadioState (js_or (selected_radio p) null))" if "page_ok p" for p
    using selected_radio_ok [OF that] calm_render calm_render_none
    by (cases "selected_radio p") (auto simp: js_or_def)
  then show ?thesis by (simp add: calm_def render_selected_eq)
qed

lemma calm_radio_option [calming]:
  assumes "radio_ok r" shows "calm page_ok (append_radio_option r)"
proof -
  have "is_obj r" "scalar_field (js_or (json_find ''status'' r) (js_str ''offline''))"
    using assms scalar_or by (simp_all add: radio_ok_def)
  with scalar_text [OF this(2)] radio_id_find [OF assms] show ?thesis unfolding append_radio_option_def
    by (auto intro!: calming simp: obj_prop)
qed

lemma calm_choose [calming]: "calm page_ok (choose_radio previous)"
  unfolding choose_radio_def
proof (intro calming)
  fix p assume "page_ok p"
  then show "(if previous = [] then Some False else js_some (has_id (js_str previous)) (radiosCache p)) \<noteq> None"
    by (auto simp: some_radio page_ok_def)
next
  fix p assume "page_ok p"
  then show "(if js_truthy (activeRadioId p) then js_some (has_id (activeRadioId p)) (radiosCache p) else Some False) \<noteq> None"
    by (auto simp: some_radio page_ok_def)
next
  fix p assume "page_ok p"
  then show "js_text (activeRadioId p) \<noteq> None" by (auto simp: page_ok_def)
qed (simp_all add: page_ok_def)

lemma calm_refresh [calming]: "calm page_ok refreshRadioDropdown"
  unfolding refreshRadioDropdown_def
  by (auto intro!: calming calm_render_none simp: list_all_iff page_ok_def)

section \<open>Events do not throw\<close>

definition items_ok :: "js \<Rightarrow> bool" where
  "items_ok v \<longleftrightarrow> (case v of None \<Rightarrow> True | Some j \<Rightarrow> (\<forall>xs. j = JArray xs \<longrightarrow> list_all radio_ok xs))"

definition active_ok :: "js \<Rightarrow> bool" where
  "active_ok v \<longleftrightarrow> v = None \<or> v = null \<or> (\<exists>i. v = js_str i)"

definition event_ok :: "string \<Rightarrow> json \<Rightarrow> bool" where
  "event_ok tag payload \<longleftrightarrow> is_obj payload \<and>
     (tag = ''ready'' \<longrightarrow> (\<forall>s. json_find ''snapshot'' payload = Some s \<longrightarrow>
        is_obj s \<and> items_ok (json_find ''radios'' s) \<and> active_ok (json_find ''activeRadioId'' s))) \<and>
     active_ok (json_find ''radioId'' payload) \<and> scalar_field (json_find ''status'' payload) \<and>
     scalar_field (json_find ''frequencyMhz'' payload) \<and> scalar_field (json_find ''powerDbm'' payload) \<and>
     scalar_field (json_find ''channelIndex'' payload)"

lemma radio_ok_new:
  assumes "scalar_field status" "state_ok (Some st)"
  shows "radio_ok (new_radio (js_str i) model status (Some st))"
  using assms by (simp add: new_radio_def radio_ok_def id_ok_def caps_ok_def channels_ok_def scalar_field_def)

lemma state_or_ok:
  assumes "state_ok v"
  shows "is_obj (the (js_or v (Some (JObject []))))" "js_or v (Some (JObject [])) \<noteq> None" "state_ok (js_or v (Some (JObject [])))"
  using assms by (cases v; auto simp: state_ok_def js_or_def obj_prop)+

lemma merge_radio_ok:
  assumes "radio_ok incoming" "radio_ok existing"
  shows "radio_ok (merge_radio incoming existing)" "radio_id (merge_radio incoming existing) = radio_id existing"
proof -
  have i: "is_obj incoming" "is_obj existing" "state_ok (json_find ''state'' incoming)" "state_ok (json_find ''state'' existing)"
    "scalar_field (json_find ''status'' incoming)" "scalar_field (json_find ''status'' existing)"
    "id_ok (json_find ''id'' existing)" "caps_ok (json_find ''capabilities'' existing)"
    using assms by (simp_all add: radio_ok_def)
  obtain a b where a: "js_or (json_find ''state'' existing) (Some (JObject [])) = Some a" "is_obj a" "state_ok (Some a)"
    and b: "js_or (json_find ''state'' incoming) (Some (JObject [])) = Some b" "is_obj b" "state_ok (Some b)"
    using state_or_ok [OF i(3)] state_or_ok [OF i(4)] by (metis option.collapse option.sel)
  have "state_ok (Some (js_spread (Some a) (Some b)))"
    using a b obj_spread by (auto simp: state_ok_def obj_spread_find split: option.splits)
  with i a(1) b(1) show "radio_ok (merge_radio incoming existing)"
    by (simp add: merge_radio_def Let_def radio_ok_def obj_prop obj_assign scalar_or)
  show "radio_id (merge_radio incoming existing) = radio_id existing"
    using i by (simp add: merge_radio_def Let_def radio_id_def obj_prop obj_assign)
qed

lemma copy_state_ok:
  assumes "radio_ok radio" "is_obj payload" "scalar_field (json_find k payload)" "json_find ''state'' radio \<noteq> None"
  shows "radio_ok (copy_state (Some payload) k radio)" "radio_id (copy_state (Some payload) k radio) = radio_id radio"
    "json_find ''state'' (copy_state (Some payload) k radio) \<noteq> None"
proof -
  obtain st where st: "json_find ''state'' radio = Some st" using assms(4) by blast
  have r: "is_obj radio" "state_ok (Some st)" using assms(1) st by (simp_all add: radio_ok_def)
  then have "is_obj st" by (simp add: state_ok_def)
  then have "state_ok (Some (js_set k v st))" if "js_scalar v" for v
    using that r(2) by (simp add: state_ok_def obj_set scalar_field_def)
  then show "radio_ok (copy_state (Some payload) k radio)" "radio_id (copy_state (Some payload) k radio) = radio_id radio"
    "json_find ''state'' (copy_state (Some payload) k radio) \<noteq> None"
    using assms st r by (auto simp: copy_state_def obj_prop radio_ok_def obj_set radio_id_def scalar_field_def split: option.splits)
qed

lemma update_radio_ok:
  assumes "radio_ok radio" "event_ok tag payload"
  shows "radio_ok (update_radio tag (Some payload) radio)" "radio_id (update_radio tag (Some payload) radio) = radio_id radio"
proof -
  let ?r = "if js_truthy (js_opt ''state'' (Some radio)) then radio else js_set ''state'' (JObject []) radio"
  have p: "is_obj payload" "scalar_field (json_find ''status'' payload)" "scalar_field (json_find ''frequencyMhz'' payload)"
    "scalar_field (json_find ''powerDbm'' payload)" "scalar_field (json_find ''channelIndex'' payload)"
    using assms(2) by (simp_all add: event_ok_def)
  have obj: "is_obj radio" using assms(1) by (simp add: radio_ok_def)
  have r: "radio_ok ?r \<and> radio_id ?r = radio_id radio \<and> json_find ''state'' ?r \<noteq> None"
    using assms(1) obj by (auto simp: radio_ok_def obj_prop obj_set state_ok_def radio_id_def split: option.splits)
  then have "is_obj ?r" by (simp add: radio_ok_def)
  let ?s = "js_assign ''status'' (js_or (json_find ''status'' payload) (json_find ''status'' ?r)) ?r"
  have s: "radio_ok ?s \<and> radio_id ?s = radio_id radio \<and> json_find ''state'' ?s \<noteq> None"
    using r p(2) \<open>is_obj ?r\<close> by (simp add: radio_ok_def obj_assign scalar_or radio_id_def)
  note c = copy_state_ok [OF _ p(1)]
  show "radio_ok (update_radio tag (Some payload) radio)" "radio_id (update_radio tag (Some payload) radio) = radio_id radio"
    using r s p(3-5) \<open>is_obj ?r\<close> obj p(1)
    by (auto simp: update_radio_def Let_def obj_prop c)
qed

lemma page_ok_cache:
  assumes "page_ok p" "n < length (radiosCache p) \<Longrightarrow> radio_ok r"
  shows "page_ok (p\<lparr>radiosCache := (radiosCache p)[n := r]\<rparr>)"
proof -
  have "list_all radio_ok ((radiosCache p)[n := r])"
    using assms by (cases "n < length (radiosCache p)")
      (auto simp: page_ok_def list_all_iff list_update_beyond dest: set_update_subset_insert [THEN subsetD])
  with assms(1) show ?thesis by (simp add: page_ok_def)
qed

lemma calm_incoming:
  assumes "radio_ok incoming"
  shows "calm page_ok (apply_incoming incoming)"
proof -
  have i: "is_obj incoming" "scalar_field (json_find ''status'' incoming)" "state_ok (json_find ''state'' incoming)"
    using assms by (simp_all add: radio_ok_def)
  obtain st where st: "js_or (json_find ''state'' incoming) (Some (JObject [])) = Some st" "state_ok (Some st)"
    using state_or_ok [OF i(3)] by (metis option.collapse)
  have new: "radio_ok (new_radio (js_str (radio_id incoming)) m (json_find ''status'' incoming) (Some st))" for m
    using radio_ok_new [OF i(2) st(2)] .
  have merged: "page_ok (p\<lparr>radiosCache := (radiosCache p)[n := merge_radio incoming (radiosCache p ! n)]\<rparr>)"
    if "page_ok p" for p n
    by (rule page_ok_cache [OF that merge_radio_ok(1) [OF assms]]) (use that in \<open>simp add: page_ok_def list_all_length\<close>)
  have found: "(if radiosCache p = [] then Some None else
      Option.bind (js_prop ''id'' (Some incoming)) (\<lambda>i. js_find_index (has_id i) (radiosCache p))) \<noteq> None"
    if "page_ok p" for p
    using that by (simp add: obj_prop i(1) radio_id_find [OF assms] find_radio_index page_ok_def)
  show ?thesis unfolding apply_incoming_def
  proof (rule calm_evaluate [OF found])
    fix p existing
    show "calm page_ok (case existing of
        None \<Rightarrow> evaluate (\<lambda>p. js_prop ''id'' (Some incoming)) (\<lambda>i. perform (\<lambda>p. p\<lparr>radiosCache := radiosCache p @
          [new_radio i (js_opt ''model'' (Some incoming)) (js_opt ''status'' (Some incoming))
            (js_or (js_opt ''state'' (Some incoming)) (Some (JObject [])))]\<rparr>))
      | Some n \<Rightarrow> perform (\<lambda>p. p\<lparr>radiosCache := (radiosCache p)[n := merge_radio incoming (radiosCache p ! n)]\<rparr>))"
    proof (cases existing)
      case None
      have "page_ok (p\<lparr>radiosCache := radiosCache p @ [new_radio (js_str (radio_id incoming)) m (json_find ''status'' incoming) (Some st)]\<rparr>)"
        if "page_ok p" for p m using that new by (simp add: page_ok_def)
      with None show ?thesis
        by (auto intro!: calming simp: obj_prop i(1) radio_id_find [OF assms] st(1))
    next
      case (Some n)
      then show ?thesis using merged by (auto intro!: calming)
    qed
  qed
qed

lemma calm_telemetry:
  assumes "event_ok tag payload"
  shows "calm page_ok (applyTelemetryEvent tag (Some payload))"
proof (cases "tag = ''ready''")
  case True
  have obj: "is_obj payload" using assms by (simp add: event_ok_def)
  have "calm page_ok (applyReadySnapshot (json_find ''snapshot'' payload))"
  proof (cases "js_elements (js_opt ''radios'' (json_find ''snapshot'' payload))")
    case None
    then show ?thesis by (simp add: applyReadySnapshot_def calming)
  next
    case (Some radios)
    then obtain s where s: "json_find ''snapshot'' payload = Some s" by (cases "json_find ''snapshot'' payload") auto
    with assms True have s': "is_obj s" "items_ok (json_find ''radios'' s)" "active_ok (json_find ''activeRadioId'' s)"
      by (simp_all add: event_ok_def)
    with Some s have "json_find ''radios'' s = Some (JArray radios)"
      by (cases "json_find ''radios'' s" rule: js_elements.cases) (auto simp: obj_prop)
    with s'(2) have radios: "list_all radio_ok radios" by (simp add: items_ok_def)
    have "page_ok (p\<lparr>activeRadioId := js_or (json_find ''activeRadioId'' s) (activeRadioId p)\<rparr>)" if "page_ok p" for p
      using that s'(3) by (auto simp: page_ok_def active_ok_def js_or_def)
    with s s' Some radios show ?thesis
      by (auto intro!: calming calm_incoming simp: applyReadySnapshot_def obj_prop list_all_iff)
  qed
  with obj True show ?thesis by (auto simp: applyTelemetryEvent_def obj_prop calming is_obj_def)
next
  case False
  have obj: "is_obj payload" and ro: "active_ok (json_find ''radioId'' payload)"
    using assms by (simp_all add: event_ok_def)
  show ?thesis
  proof (cases "js_truthy (json_find ''radioId'' payload)")
    case False
    with obj \<open>tag \<noteq> _\<close> show ?thesis by (auto simp: applyTelemetryEvent_def obj_prop calming Let_def)
  next
    case True
    with ro obtain i where i: "json_find ''radioId'' payload = js_str i" by (auto simp: active_ok_def)
    let ?upd = "\<lambda>known p. (let cache = (case known of Some n \<Rightarrow> radiosCache p
                | None \<Rightarrow> radiosCache p @ [new_radio (js_str i) (js_str i) (js_str ''offline'') (Some (JObject []))]);
              n = (case known of Some n \<Rightarrow> n | None \<Rightarrow> length (radiosCache p))
          in p\<lparr>radiosCache := cache[n := update_radio tag (Some payload) (cache ! n)]\<rparr>)"
    have new: "radio_ok (new_radio (js_str i) (js_str i) (js_str ''offline'') (Some (JObject [])))"
      by (rule radio_ok_new) (simp_all add: state_ok_def)
    have upd: "page_ok (?upd known p)" if p: "page_ok p" for p known
    proof (cases known)
      case None
      from p update_radio_ok(1) [OF new assms] show ?thesis by (simp add: None page_ok_def)
    next
      case (Some n)
      have "page_ok (p\<lparr>radiosCache := (radiosCache p)[n := update_radio tag (Some payload) (radiosCache p ! n)]\<rparr>)"
        by (rule page_ok_cache [OF p update_radio_ok(1) [OF _ assms]]) (use p in \<open>simp add: page_ok_def list_all_length\<close>)
      then show ?thesis by (simp add: Some Let_def)
    qed
    have "calm page_ok (block [perform (?upd known), refreshRadioDropdown])" for known
      using upd [of _ known] by (auto intro!: calming)
    moreover have "js_find_index (has_id (js_str i)) (radiosCache p) \<noteq> None" if "page_ok p" for p
      using that by (simp add: find_radio_index page_ok_def)
    moreover have "js_is_object (Some payload)" using obj by (auto simp: is_obj_def)
    ultimately show ?thesis using obj True False
      by (simp add: applyTelemetryEvent_def obj_prop Let_def i calm_evaluate)
  qed
qed

lemma calm_addSseEvent [calming]: "calm page_ok (addSseEvent tag payload i)"
  unfolding addSseEvent_def storeLastEventId_def updateLastEventIdDisplay_def
  by (auto intro!: calming simp: Let_def list_all_iff split: option.splits)

lemma calm_event: "event_ok tag payload \<Longrightarrow> calm page_ok (process_event (tag, payload, i))"
  unfolding process_event_def by (auto intro!: calming calm_telemetry simp: list_all_iff)

end
