(* ===== verification/Page_Effects.thy ===== *)
theory Page_Effects
  imports Page_Data
begin

text \<open>
  What an event of the stream does to the page: which facts about which radio it replaces in the cache, and
  that the selected radio's facts are the ones on the screen.
\<close>

section \<open>What the cache knows\<close>

definition cached :: "page \<Rightarrow> string \<Rightarrow> json option" where
  "cached p i = List.find (\<lambda>r. radio_id r = i) (radiosCache p)"

definition known :: "string \<Rightarrow> page \<Rightarrow> string \<Rightarrow> js" where
  "known k p i = (case cached p i of None \<Rightarrow> undef | Some r \<Rightarrow> js_opt k (json_find ''state'' r))"

text \<open>The facts an event carries, by its type.\<close>

definition carried :: "string \<Rightarrow> string list" where
  "carried tag =
     (if tag = ''state'' then [''frequencyMhz'', ''powerDbm'', ''channelIndex'']
      else if tag = ''channelChanged'' then [''frequencyMhz'', ''channelIndex'']
      else if tag = ''powerChanged'' then [''powerDbm''] else [])"

lemma copy_state_find:
  assumes "is_obj radio" "is_obj payload" "json_find ''state'' radio = Some st" "is_obj st"
  shows "\<exists>st'. json_find ''state'' (copy_state (Some payload) k radio) = Some st' \<and> is_obj st' \<and> is_obj (copy_state (Some payload) k radio) \<and>
    json_find j st' = (if j = k \<and> json_find k payload \<noteq> undef then json_find k payload else json_find j st)"
  using assms by (auto simp: copy_state_def obj_prop obj_set split: option.splits)

lemma copy_states_find:
  assumes "is_obj radio" "is_obj payload" "json_find ''state'' radio = Some st" "is_obj st"
  shows "\<exists>st'. json_find ''state'' (fold (copy_state (Some payload)) ks radio) = Some st' \<and> is_obj st' \<and>
    json_find j st' = (if j \<in> set ks \<and> json_find j payload \<noteq> undef then json_find j payload else json_find j st)"
  using assms
proof (induction ks arbitrary: radio st)
  case (Cons k ks)
  from copy_state_find [OF Cons.prems, of k j] obtain st1 where
    1: "json_find ''state'' (copy_state (Some payload) k radio) = Some st1" "is_obj st1" "is_obj (copy_state (Some payload) k radio)"
      "json_find j st1 = (if j = k \<and> json_find k payload \<noteq> undef then json_find k payload else json_find j st)" by blast
  from Cons.IH [OF 1(3) Cons.prems(2) 1(1,2)] 1(4) show ?case by auto
qed simp

lemma update_radio_state:
  assumes "radio_ok radio" "is_obj payload"
  shows "js_opt k (json_find ''state'' (update_radio tag (Some payload) radio)) =
    (if k \<in> set (carried tag) \<and> json_find k payload \<noteq> undef then json_find k payload
     else js_opt k (json_find ''state'' radio))"
proof -
  have r: "is_obj radio" "state_ok (json_find ''state'' radio)" using assms(1) by (simp_all add: radio_ok_def)
  let ?r = "if js_truthy (js_opt ''state'' (Some radio)) then radio else js_set ''state'' (JObject []) radio"
  have "\<exists>st. json_find ''state'' ?r = Some st \<and> is_obj st \<and> js_opt k (json_find ''state'' radio) = json_find k st"
  proof (cases "json_find ''state'' radio")
    case None
    with r show ?thesis by (simp add: obj_prop obj_set)
  next
    case (Some st)
    with r show ?thesis by (simp add: obj_prop state_ok_def)
  qed
  then obtain st where st: "json_find ''state'' ?r = Some st" "is_obj st" "js_opt k (json_find ''state'' radio) = json_find k st"
    by blast
  have obj: "is_obj ?r" using r by (simp add: obj_set)
  let ?s = "js_assign ''status'' (js_or (js_opt ''status'' (Some payload)) (js_opt ''status'' (Some ?r))) ?r"
  have s: "is_obj ?s" "json_find ''state'' ?s = Some st" using obj st(1) by (simp_all add: obj_assign)
  have eq: "update_radio tag (Some payload) radio = fold (copy_state (Some payload)) (carried tag) (if tag = ''state'' then ?s else ?r)"
    by (auto simp: update_radio_def carried_def Let_def)
  have "\<exists>st'. json_find ''state'' (update_radio tag (Some payload) radio) = Some st' \<and> is_obj st' \<and>
    json_find k st' = (if k \<in> set (carried tag) \<and> json_find k payload \<noteq> undef then json_find k payload else json_find k st)"
    unfolding eq using copy_states_find [OF obj assms(2) st(1,2)] copy_states_find [OF s(1) assms(2) s(2) st(2)]
    by (cases "tag = ''state''") simp_all
  then show ?thesis using st(3) by (auto simp: obj_prop)
qed

text \<open>Replacing the first radio with an id, or appending one.\<close>

definition first_with :: "string \<Rightarrow> json list \<Rightarrow> nat" where
  "first_with i rs = length (takeWhile (\<lambda>r. radio_id r \<noteq> i) rs)"

lemma find_replaced:
  assumes "\<exists>r \<in> set rs. radio_id r = i" "radio_id new = i"
  shows "List.find (\<lambda>r. radio_id r = j) (rs[first_with i rs := new]) =
    (if j = i then Some new else List.find (\<lambda>r. radio_id r = j) rs)"
  using assms(1)
proof (induction rs)
  case (Cons a rs)
  show ?case
  proof (cases "radio_id a = i")
    case True
    then show ?thesis using assms(2) by (auto simp: first_with_def)
  next
    case False
    then have "\<exists>r \<in> set rs. radio_id r = i" using Cons.prems by auto
    from Cons.IH [OF this] False show ?thesis by (auto simp: first_with_def)
  qed
qed simp

lemma find_first: "\<exists>r \<in> set rs. radio_id r = i \<Longrightarrow> List.find (\<lambda>r. radio_id r = i) rs = Some (rs ! first_with i rs)"
  by (induction rs) (auto simp: first_with_def)

lemma find_appended: "List.find f (rs @ [x]) = (case List.find f rs of Some r \<Rightarrow> Some r | None \<Rightarrow> if f x then Some x else None)"
  by (induction rs) auto

definition placeholder :: "string \<Rightarrow> json" where
  "placeholder i = new_radio (js_str i) (js_str i) (js_str ''offline'') (Some (JObject []))"

lemma placeholder_ok [simp]: "radio_ok (placeholder i)" "radio_id (placeholder i) = i"
  by (simp add: placeholder_def radio_ok_new state_ok_def)
    (simp add: placeholder_def radio_id_def new_radio_def)

text \<open>The cache after an event about radio i, before the screen follows.\<close>

definition event_cache :: "string \<Rightarrow> json \<Rightarrow> string \<Rightarrow> json list \<Rightarrow> json list" where
  "event_cache tag payload i rs =
     (if \<exists>r \<in> set rs. radio_id r = i then rs[first_with i rs := update_radio tag (Some payload) (rs ! first_with i rs)]
      else rs @ [update_radio tag (Some payload) (placeholder i)])"

lemma event_cache_find:
  assumes "list_all radio_ok rs" "event_ok tag payload"
  shows "List.find (\<lambda>r. radio_id r = j) (event_cache tag payload i rs) =
    (if j = i then Some (update_radio tag (Some payload)
       (case List.find (\<lambda>r. radio_id r = i) rs of Some r \<Rightarrow> r | None \<Rightarrow> placeholder i))
     else List.find (\<lambda>r. radio_id r = j) rs)"
proof (cases "\<exists>r \<in> set rs. radio_id r = i")
  case True
  let ?r = "rs ! first_with i rs"
  from find_first [OF True] have f: "List.find (\<lambda>r. radio_id r = i) rs = Some ?r" .
  then have "radio_id ?r = i \<and> radio_ok ?r" using assms(1) by (auto simp: find_Some_iff list_all_iff)
  then have "radio_id (update_radio tag (Some payload) ?r) = i" using update_radio_ok(2) [OF _ assms(2)] by simp
  from find_replaced [OF True this] True f show ?thesis by (simp add: event_cache_def)
next
  case False
  then have none: "List.find (\<lambda>r. radio_id r = i) rs = None" by (auto simp: find_None_iff)
  have "radio_id (update_radio tag (Some payload) (placeholder i)) = i" using update_radio_ok(2) [OF _ assms(2)] by simp
  with False none show ?thesis by (auto simp: event_cache_def find_appended split: option.splits)
qed

interpretation cache: rendering_frame "\<lambda>p. Q (radiosCache p)" for Q
  by unfold_locales simp_all

lemma refresh_cache: "radiosCache (snd (refreshRadioDropdown p)) = radiosCache p"
  using cache.kept_refresh [of "\<lambda>c. c = radiosCache p"] by (simp add: keeps_def)

lemma selected_cache: "radiosCache (snd (render_selected p)) = radiosCache p"
  using cache.kept_selected [of "\<lambda>c. c = radiosCache p"] by (simp add: keeps_def)

lemma addSseEvent_cache: "radiosCache (snd (addSseEvent tag payload i p)) = radiosCache p"
  by (simp add: addSseEvent_def storeLastEventId_def updateLastEventIdDisplay_def Let_def running split: option.splits)

lemma telemetry_cache:
  assumes "page_ok p" "event_ok tag payload" "tag \<noteq> ''ready''" "json_find ''radioId'' payload = js_str i" "i \<noteq> []"
  shows "radiosCache (snd (applyTelemetryEvent tag (Some payload) p)) = event_cache tag payload i (radiosCache p)"
proof -
  have obj: "is_obj payload" "js_truthy (Some payload)" "js_is_object (Some payload)"
    using assms(2) by (auto simp: event_ok_def is_obj_def)
  have rs: "list_all radio_ok (radiosCache p)" using assms(1) by (simp add: page_ok_def)
  show ?thesis
    using assms(3-5) obj find_radio_index [OF rs, of i]
    by (simp add: applyTelemetryEvent_def obj_prop Let_def evaluate_def block_performs block_single refresh_cache
        event_cache_def first_with_def placeholder_def)
qed

section \<open>The effect of an event on the cache\<close>

lemma process_event_run:
  assumes "page_ok p" "event_ok tag payload"
  shows "\<exists>q. applyTelemetryEvent tag (Some payload) p = (None, q) \<and> page_ok q \<and>
    process_event (tag, payload, i) p = addSseEvent tag payload i
      (if selectedRadioId q \<noteq> [] then snd (render_selected q) else q)"
proof -
  obtain r q where q: "applyTelemetryEvent tag (Some payload) p = (r, q)" by fastforce
  with calmD [OF calm_telemetry [OF assms(2)] assms(1)] have ok: "r = None" "page_ok q" by simp_all
  obtain r2 q2 where q2: "render_selected q = (r2, q2)" by fastforce
  with calmD [OF calm_selected ok(2)] have "r2 = None" by simp
  then have step2: "reading (\<lambda>p. if selectedRadioId p \<noteq> [] then render_selected else skip) q =
      (None, if selectedRadioId q \<noteq> [] then snd (render_selected q) else q)"
    using q2 by (simp add: statements_apply)
  have "process_event (tag, payload, i) p =
      block [reading (\<lambda>p. if selectedRadioId p \<noteq> [] then render_selected else skip), addSseEvent tag payload i] q"
    using q ok(1) by (simp add: process_event_def block_step)
  also have "\<dots> = block [addSseEvent tag payload i] (if selectedRadioId q \<noteq> [] then snd (render_selected q) else q)"
    by (rule block_step) (rule step2)
  finally show ?thesis using q ok by (simp add: block_single)
qed

lemma process_event_cache:
  assumes "page_ok p" "event_ok tag payload" "tag \<noteq> ''ready''" "json_find ''radioId'' payload = js_str i" "i \<noteq> []"
  shows "radiosCache (snd (process_event (tag, payload, eid) p)) = event_cache tag payload i (radiosCache p)"
proof -
  from process_event_run [OF assms(1,2)] obtain q where q: "applyTelemetryEvent tag (Some payload) p = (None, q)" "page_ok q"
    "process_event (tag, payload, eid) p = addSseEvent tag payload eid (if selectedRadioId q \<noteq> [] then snd (render_selected q) else q)"
    by blast
  with telemetry_cache [OF assms] show ?thesis by (simp add: addSseEvent_cache selected_cache)
qed

lemma known_placeholder: "js_opt k (json_find ''state'' (placeholder i)) = undef"
  by (simp add: placeholder_def new_radio_def)

text \<open>An event about a radio replaces exactly the facts it carries, of that radio alone.\<close>

lemma event_replaces_facts:
  assumes "page_ok p" "event_ok tag payload" "tag \<noteq> ''ready''" "json_find ''radioId'' payload = js_str i" "i \<noteq> []"
  shows "known k (snd (process_event (tag, payload, eid) p)) j =
    (if j = i \<and> k \<in> set (carried tag) \<and> json_find k payload \<noteq> undef then json_find k payload else known k p j)"
proof -
  have rs: "list_all radio_ok (radiosCache p)" using assms(1) by (simp add: page_ok_def)
  let ?old = "case List.find (\<lambda>r. radio_id r = i) (radiosCache p) of Some r \<Rightarrow> r | None \<Rightarrow> placeholder i"
  have "radio_ok ?old" using rs by (auto simp: find_Some_iff list_all_iff split: option.splits)
  moreover have "is_obj payload" using assms(2) by (simp add: event_ok_def)
  moreover have "js_opt k (json_find ''state'' ?old) = known k p i"
    by (simp add: known_def cached_def known_placeholder split: option.splits)
  ultimately show ?thesis
    using update_radio_state [of ?old payload k tag] event_cache_find [OF rs assms(2), of j i]
    by (cases "json_find k payload") (auto simp: known_def cached_def process_event_cache [OF assms])
qed

section \<open>The effect on the screen\<close>

definition channel_option :: "json \<Rightarrow> string \<times> string" where
  "channel_option c = (the (js_text (json_find ''index'' c)), the (channel_text ''Ch '' '' | '' '' MHz'' c))"

definition derived_index :: "json \<Rightarrow> js" where
  "derived_index r = the (deriveChannelIndex (Some r))"

definition channels_list :: "json \<Rightarrow> json list" where
  "channels_list r = the (js_elements (the (channels_of (Some r))))"

definition preselect :: "js \<Rightarrow> dropdown \<Rightarrow> dropdown" where
  "preselect v d = (if v = null then d else set_dropdown_value (the (js_text v)) d)"

definition channel_dropdown :: "json \<Rightarrow> dropdown" where
  "channel_dropdown r =
     (if channels_list r = [] then append_option [] ''No supported channels'' empty_dropdown
      else preselect (derived_index r)
        (fold (\<lambda>c. append_option (fst (channel_option c)) (snd (channel_option c))) (channels_list r) empty_dropdown))"

lemma channels_list_ok:
  assumes "radio_ok r"
  shows "channels_of (Some r) = Some (Some (JArray (channels_list r)))" "list_all listed_channel (channels_list r)"
  using channels_of_ok [OF assms] by (auto simp: channels_list_def)

lemma derived_index_ok:
  assumes "radio_ok r"
  shows "deriveChannelIndex (Some r) = Some (derived_index r)" "scalar_field (derived_index r)"
  using deriveChannelIndex_ok [OF assms] by (auto simp: derived_index_def)

lemma append_channel_option_run:
  "listed_channel c \<Longrightarrow> append_channel_option c p =
     (None, p\<lparr>chanSel := append_option (fst (channel_option c)) (snd (channel_option c)) (chanSel p)\<rparr>)"
  using scalar_text [of "json_find ''index'' c"] channel_text_ok [of c "''Ch ''" "'' | ''" "'' MHz''"]
  by (auto simp: append_channel_option_def evaluate_def running channel_option_def listed_channel_def obj_prop)

lemma append_channels_run:
  "list_all listed_channel xs \<Longrightarrow> block (map append_channel_option xs @ ss) p =
     block ss (p\<lparr>chanSel := fold (\<lambda>c. append_option (fst (channel_option c)) (snd (channel_option c))) xs (chanSel p)\<rparr>)"
  by (induction xs arbitrary: p) (simp_all add: block_step [OF append_channel_option_run])

lemma populate_run:
  assumes "radio_ok r"
  shows "populateChannelDropdown (Some r) p = (None, p\<lparr>chanSel := channel_dropdown r\<rparr>)"
proof -
  note c = channels_list_ok [OF assms] and d = derived_index_ok [OF assms]
  have r: "js_truthy (Some r)" using assms by (simp add: radio_ok_def obj_prop)
  have n: "js_prop ''length'' (Some (JArray xs)) = Some (Some (JInt (int (length xs))))" for xs
    by (simp add: js_prop_def)
  show ?thesis
  proof (cases "channels_list r = []")
    case True
    with c r n show ?thesis
      by (simp add: populateChannelDropdown_def block_performs block_single evaluate_def statements_apply channel_dropdown_def)
  next
    case False
    then have "populateChannelDropdown (Some r) p = block (map append_channel_option (channels_list r) @
        [evaluate (\<lambda>p. deriveChannelIndex (Some r)) (\<lambda>selected.
           if selected \<noteq> null then
             evaluate (\<lambda>p. js_text selected) (\<lambda>t. perform (\<lambda>p. p\<lparr>chanSel := set_dropdown_value t (chanSel p)\<rparr>))
           else skip)]) (p\<lparr>chanSel := empty_dropdown\<rparr>)"
      using c r n by (simp add: populateChannelDropdown_def block_performs block_single evaluate_def)
    then show ?thesis using False c d scalar_text [OF d(2)]
      by (auto simp: append_channels_run block_single evaluate_def statements_apply channel_dropdown_def preselect_def)
  qed
qed

definition rendered :: "json \<Rightarrow> page \<Rightarrow> (string \<times> string) list" where
  "rendered r p = fold (\<lambda>(k, t). AList.update k t)
     [(''selectedRadioId'', if selectedRadioId p \<noteq> [] then selectedRadioId p else ''-''),
      (''activeRadioId'', the (js_text (js_or (activeRadioId p) (js_str ''-'')))),
      (''radioStatus'', the (statusBadge (js_or (json_find ''status'' r) (js_str ''offline'')))),
      (''radioChannelIndex'', if derived_index r = null then ''unknown'' else ''Ch '' @ the (js_text (derived_index r))),
      (''radioFrequency'', the (formatNullable (js_opt ''frequencyMhz'' (json_find ''state'' r)) '' MHz'')),
      (''radioPower'', the (formatNullable (js_opt ''powerDbm'' (json_find ''state'' r)) '' dBm'')),
      (''radioPowerRange'', the (power_range_text (js_opt ''minPowerDbm'' (json_find ''capabilities'' r))
         (js_opt ''maxPowerDbm'' (json_find ''capabilities'' r)))),
      (''radioChannels'', the (channels_text (Some (JArray (channels_list r)))))]
     (texts p)"

lemma render_run:
  assumes "radio_ok r" "page_ok p"
  shows "renderRadioState (Some r) p = (None, p\<lparr>texts := rendered r p, chanSel := channel_dropdown r\<rparr>)"
proof -
  note c = channels_list_ok [OF assms(1)] and d = derived_index_ok [OF assms(1)]
  have r: "is_obj r" "js_truthy (Some r)" "scalar_field (json_find ''status'' r)" using assms by (simp_all add: radio_ok_def obj_prop)
  obtain t1 where t1: "statusBadge (js_or (json_find ''status'' r) (js_str ''offline'')) = Some t1"
    using statusBadge_ok [OF scalar_or [OF r(3), of "js_str ''offline''"]] by auto
  obtain t2 where t2: "js_text (js_or (activeRadioId p) (js_str ''-'')) = Some t2" using active_text [OF assms(2)] by blast
  obtain t3 where t3: "js_text (derived_index r) = Some t3" using scalar_text [OF d(2)] by blast
  obtain t4 where t4: "formatNullable (js_opt ''frequencyMhz'' (json_find ''state'' r)) '' MHz'' = Some t4"
    using formatNullable_ok [OF state_fields(1) [OF assms(1)]] by blast
  obtain t5 where t5: "formatNullable (js_opt ''powerDbm'' (json_find ''state'' r)) '' dBm'' = Some t5"
    using formatNullable_ok [OF state_fields(2) [OF assms(1)]] by blast
  obtain t6 where t6: "power_range_text (js_opt ''minPowerDbm'' (json_find ''capabilities'' r))
      (js_opt ''maxPowerDbm'' (json_find ''capabilities'' r)) = Some t6"
    using power_range_ok [OF caps_fields [OF assms(1)]] by blast
  obtain t7 where t7: "channels_text (Some (JArray (channels_list r))) = Some t7" using channels_text_ok [OF c(2)] by blast
  note ts = t1 t2 t3 t4 t5 t6 t7
  have id_shown: "selectedRadioId (q\<lparr>texts := x\<rparr>) = selectedRadioId q" for q :: page and x by (simp add: selectedRadioId_def)
  show ?thesis
    unfolding renderRadioState_def using r c(1) d(1)
    by (simp add: block_runs populate_run [OF assms(1)] obj_prop ts rendered_def)
qed

definition shown :: "string \<Rightarrow> page \<Rightarrow> string option" where
  "shown target p = map_of (texts p) target"

lemma rendered_shows:
  "map_of (rendered r p) ''radioPower'' = Some (the (formatNullable (js_opt ''powerDbm'' (json_find ''state'' r)) '' dBm''))"
  "map_of (rendered r p) ''radioFrequency'' = Some (the (formatNullable (js_opt ''frequencyMhz'' (json_find ''state'' r)) '' MHz''))"
  "map_of (rendered r p) ''radioChannelIndex'' =
     Some (if derived_index r = null then ''unknown'' else ''Ch '' @ the (js_text (derived_index r)))"
  by (simp_all add: rendered_def update_conv')

lemma addSseEvent_screen:
  "radioSel (snd (addSseEvent tag payload i p)) = radioSel p" "chanSel (snd (addSseEvent tag payload i p)) = chanSel p"
  "activeRadioId (snd (addSseEvent tag payload i p)) = activeRadioId p"
  "target \<noteq> ''lastEventId'' \<Longrightarrow> target \<noteq> ''eventCount'' \<Longrightarrow> shown target (snd (addSseEvent tag payload i p)) = shown target p"
  by (simp_all add: addSseEvent_def storeLastEventId_def updateLastEventIdDisplay_def Let_def running shown_def update_conv'
      split: option.splits)

text \<open>Rendering does not choose a radio.\<close>

lemma keeps_selection: "keeps (\<lambda>p. Q (radioSel p)) (renderRadioState radio)"
  unfolding renderRadioState_def populateChannelDropdown_def append_channel_option_def set_shown_def
  by (auto intro!: keeping simp: list_all_iff split: prod.splits)

lemma selected_keep: "radioSel (snd (renderRadioState radio p)) = radioSel p"
  using keeps_selection [of "\<lambda>d. d = radioSel p"] by (simp add: keeps_def)

lemma render_selected_run:
  assumes "page_ok p" "selected_radio p = Some r"
  shows "render_selected p = (None, p\<lparr>texts := rendered r p, chanSel := channel_dropdown r\<rparr>)"
  using selected_radio_ok [OF assms] assms
  by (simp add: render_selected_eq [OF assms(1)] js_or_def radio_ok_def obj_prop render_run)

text \<open>After an event the screen shows what the cache holds of the selected radio.\<close>

lemma event_screen:
  assumes "page_ok p" "event_ok tag payload"
    and "p' = snd (process_event (tag, payload, i) p)" "selectedRadioId p' \<noteq> []" "selected_radio p' = Some r"
  shows "shown ''radioPower'' p' = Some (the (formatNullable (known ''powerDbm'' p' (selectedRadioId p')) '' dBm''))"
    "shown ''radioFrequency'' p' = Some (the (formatNullable (known ''frequencyMhz'' p' (selectedRadioId p')) '' MHz''))"
    "chanSel p' = channel_dropdown r" "fst (process_event (tag, payload, i) p) = None" "page_ok p'"
proof -
  from process_event_run [OF assms(1,2), of i] obtain q where q: "page_ok q"
    "process_event (tag, payload, i) p = addSseEvent tag payload i (if selectedRadioId q \<noteq> [] then snd (render_selected q) else q)"
    by blast
  have sel: "selectedRadioId p' = selectedRadioId q"
  proof (cases "selected_radio q")
    case None
    then show ?thesis using assms(3) q
      by (auto simp: selectedRadioId_def addSseEvent_screen render_selected_eq js_or_def selected_keep)
  next
    case (Some r')
    then show ?thesis using assms(3) q
      by (simp add: selectedRadioId_def addSseEvent_screen render_selected_run)
  qed
  have "radiosCache p' = radiosCache q" using assms(3) q by (simp add: addSseEvent_cache selected_cache)
  with sel assms(5) have r: "selected_radio q = Some r" by (simp add: selected_radio_def)
  have p': "p' = snd (addSseEvent tag payload i (q\<lparr>texts := rendered r q, chanSel := channel_dropdown r\<rparr>))"
    using assms(3,4) q sel render_selected_run [OF q(1) r] by simp
  have "known k p' (selectedRadioId p') = js_opt k (json_find ''state'' r)" for k
    using assms(5) by (simp add: known_def cached_def selected_radio_def)
  then show "shown ''radioPower'' p' = Some (the (formatNullable (known ''powerDbm'' p' (selectedRadioId p')) '' dBm''))"
    "shown ''radioFrequency'' p' = Some (the (formatNullable (known ''frequencyMhz'' p' (selectedRadioId p')) '' MHz''))"
    "chanSel p' = channel_dropdown r"
    unfolding p' by (simp_all add: addSseEvent_screen) (simp_all add: shown_def rendered_shows)
  show "fst (process_event (tag, payload, i) p) = None" "page_ok p'"
    using calmD [OF calm_event [OF assms(2)] assms(1)] assms(3) by simp_all
qed

section \<open>The operator's radio stays selected\<close>

lemma dropdown_value_set: "v \<in> set (map fst (options d)) \<Longrightarrow> dropdown_value (set_dropdown_value v d) = v"
proof -
  assume "v \<in> set (map fst (options d))"
  then have "\<exists>ov \<in> set (options d). fst ov = v" by auto
  from takeWhile_hit [OF this] show ?thesis by (simp add: dropdown_value_def set_dropdown_value_def Let_def)
qed

lemma append_radio_option_run:
  assumes "radio_ok r"
  shows "\<exists>t. append_radio_option r p = (None, p\<lparr>radioSel := append_option (radio_id r) t (radioSel p)\<rparr>)"
proof -
  have "is_obj r" "scalar_field (js_or (json_find ''status'' r) (js_str ''offline''))"
    using assms scalar_or by (simp_all add: radio_ok_def)
  with scalar_text [OF this(2)] radio_id_find [OF assms] show ?thesis
    by (auto simp: append_radio_option_def evaluate_apply obj_prop statements_apply)
qed

lemma append_radios_run:
  "list_all radio_ok rs \<Longrightarrow> \<exists>d. block (map append_radio_option rs @ ss) p = block ss (p\<lparr>radioSel := d\<rparr>) \<and>
     map fst (options d) = map fst (options (radioSel p)) @ map radio_id rs"
proof (induction rs arbitrary: p)
  case Nil
  show ?case by (rule exI [of _ "radioSel p"]) simp
next
  case (Cons r rs)
  then obtain t where t: "append_radio_option r p = (None, p\<lparr>radioSel := append_option (radio_id r) t (radioSel p)\<rparr>)"
    using append_radio_option_run [of r p] by auto
  let ?q = "p\<lparr>radioSel := append_option (radio_id r) t (radioSel p)\<rparr>"
  from Cons.IH [of ?q] Cons.prems obtain d where
    "block (map append_radio_option rs @ ss) ?q = block ss (?q\<lparr>radioSel := d\<rparr>)"
    "map fst (options d) = map fst (options (radioSel ?q)) @ map radio_id rs" by auto
  with block_step [of "append_radio_option r" p ?q] t show ?case
    by (intro exI [of _ d]) (simp add: append_option_def)
qed

lemma refresh_selected:
  assumes "page_ok p" "selectedRadioId p = k" "k \<noteq> []" "\<exists>r \<in> set (radiosCache p). radio_id r = k"
  shows "selectedRadioId (snd (refreshRadioDropdown p)) = k"
proof -
  have rs: "list_all radio_ok (radiosCache p)" "radiosCache p \<noteq> []" using assms by (auto simp: page_ok_def)
  let ?q = "p\<lparr>radioSel := empty_dropdown\<rparr>"
  from append_radios_run [OF rs(1), of "[choose_radio k, render_selected]" ?q] obtain d where
    d: "block (map append_radio_option (radiosCache p) @ [choose_radio k, render_selected]) ?q =
        block [choose_radio k, render_selected] (?q\<lparr>radioSel := d\<rparr>)" "map fst (options d) = map radio_id (radiosCache p)"
    by (auto simp: empty_dropdown_def)
  let ?p2 = "p\<lparr>radioSel := set_dropdown_value k d\<rparr>"
  have "choose_radio k (p\<lparr>radioSel := d\<rparr>) = (None, ?p2)"
    using assms(3,4) some_radio [OF rs(1), of k] by (simp add: choose_radio_def evaluate_apply statements_apply)
  then have run: "refreshRadioDropdown p = render_selected ?p2"
    using d(1) rs(2) assms(2)
    by (simp add: refreshRadioDropdown_def statements_apply(4) block_performs block_reading block_single block_step)
  have sel: "selectedRadioId ?p2 = k" using d(2) assms(4) dropdown_value_set [of k d]
    by (simp add: selectedRadioId_def) (metis image_eqI list.set_map)
  have ok: "page_ok ?p2" using assms(1) by simp
  have "radioSel (snd (render_selected ?p2)) = radioSel ?p2"
    by (simp only: render_selected_eq [OF ok] selected_keep)
  then show ?thesis using sel by (simp only: run selectedRadioId_def)
qed

section \<open>The effect of a ready snapshot\<close>

definition incoming_radio :: "json \<Rightarrow> json" where
  "incoming_radio incoming =
     new_radio (js_str (radio_id incoming)) (json_find ''model'' incoming) (json_find ''status'' incoming)
       (js_or (json_find ''state'' incoming) (Some (JObject [])))"

definition incoming_cache :: "json \<Rightarrow> json list \<Rightarrow> json list" where
  "incoming_cache incoming rs =
     (let i = radio_id incoming
      in if \<exists>r \<in> set rs. radio_id r = i then rs[first_with i rs := merge_radio incoming (rs ! first_with i rs)]
         else rs @ [incoming_radio incoming])"

lemma apply_incoming_run:
  assumes "page_ok p" "radio_ok incoming"
  shows "apply_incoming incoming p = (None, p\<lparr>radiosCache := incoming_cache incoming (radiosCache p)\<rparr>)"
proof -
  have rs: "list_all radio_ok (radiosCache p)" "is_obj incoming" using assms by (simp_all add: page_ok_def radio_ok_def)
  show ?thesis
    using radio_id_find [OF assms(2)] find_radio_index [OF rs(1), of "radio_id incoming"]
    by (auto simp: apply_incoming_def evaluate_apply statements_apply obj_prop rs(2) incoming_cache_def Let_def
        first_with_def incoming_radio_def)
qed

lemma incoming_cache_ok:
  assumes "page_ok p" "radio_ok incoming"
  shows "page_ok (p\<lparr>radiosCache := incoming_cache incoming (radiosCache p)\<rparr>)"
  using calmD [OF calm_incoming [OF assms(2)] assms(1)] by (simp add: apply_incoming_run [OF assms])

lemma incoming_runs:
  "page_ok p \<Longrightarrow> list_all radio_ok xs \<Longrightarrow>
   block (map apply_incoming xs @ ss) p = block ss (p\<lparr>radiosCache := fold incoming_cache xs (radiosCache p)\<rparr>) \<and>
   page_ok (p\<lparr>radiosCache := fold incoming_cache xs (radiosCache p)\<rparr>)"
proof (induction xs arbitrary: p)
  case (Cons x xs)
  then have x: "radio_ok x" "list_all radio_ok xs" by simp_all
  from Cons.IH [OF incoming_cache_ok [OF Cons.prems(1) x(1)] x(2)] apply_incoming_run [OF Cons.prems(1) x(1)]
  show ?case by (simp add: block_step)
qed simp

text \<open>What the snapshot says of a radio's state replaces what the page knew, what it leaves out stays.\<close>

definition snapshot_says :: "string \<Rightarrow> json \<Rightarrow> js \<Rightarrow> js" where
  "snapshot_says k incoming old = (case js_opt k (json_find ''state'' incoming) of None \<Rightarrow> old | Some v \<Rightarrow> Some v)"

lemma merge_radio_state:
  assumes "radio_ok incoming" "radio_ok existing"
  shows "js_opt k (json_find ''state'' (merge_radio incoming existing)) =
    snapshot_says k incoming (js_opt k (json_find ''state'' existing))"
proof -
  have i: "is_obj incoming" "is_obj existing" "state_ok (json_find ''state'' incoming)" "state_ok (json_find ''state'' existing)"
    using assms by (simp_all add: radio_ok_def)
  have st: "\<exists>a. js_or v (Some (JObject [])) = Some a \<and> is_obj a \<and> json_find k a = js_opt k v" if "state_ok v" for v
    using that by (cases v) (auto simp: state_ok_def js_or_def obj_prop)
  from st [OF i(3)] st [OF i(4)] obtain a b where
    "js_or (json_find ''state'' existing) (Some (JObject [])) = Some a" "is_obj a" "json_find k a = js_opt k (json_find ''state'' existing)"
    "js_or (json_find ''state'' incoming) (Some (JObject [])) = Some b" "is_obj b" "json_find k b = js_opt k (json_find ''state'' incoming)"
    by blast
  with i show ?thesis
    by (simp add: merge_radio_def Let_def obj_prop obj_assign obj_spread obj_spread_find snapshot_says_def split: option.splits)
qed

lemma incoming_radio_state:
  assumes "radio_ok incoming"
  shows "js_opt k (json_find ''state'' (incoming_radio incoming)) = snapshot_says k incoming undef"
    "radio_ok (incoming_radio incoming)" "radio_id (incoming_radio incoming) = radio_id incoming"
proof -
  have i: "state_ok (json_find ''state'' incoming)" "scalar_field (json_find ''status'' incoming)" using assms by (simp_all add: radio_ok_def)
  obtain st where st: "js_or (json_find ''state'' incoming) (Some (JObject [])) = Some st" "state_ok (Some st)"
      "js_opt k (json_find ''state'' incoming) = json_find k st" "is_obj st"
    using i(1) by (cases "json_find ''state'' incoming") (auto simp: state_ok_def js_or_def obj_prop)
  then show "js_opt k (json_find ''state'' (incoming_radio incoming)) = snapshot_says k incoming undef"
    by (simp add: incoming_radio_def new_radio_def obj_prop snapshot_says_def split: option.splits)
  show "radio_ok (incoming_radio incoming)" "radio_id (incoming_radio incoming) = radio_id incoming"
    using radio_ok_new [OF i(2) st(2)] st(1) by (simp_all add: incoming_radio_def) (simp add: new_radio_def radio_id_def)
qed

definition state_in :: "string \<Rightarrow> json list \<Rightarrow> string \<Rightarrow> js" where
  "state_in k rs i = (case List.find (\<lambda>r. radio_id r = i) rs of None \<Rightarrow> undef | Some r \<Rightarrow> js_opt k (json_find ''state'' r))"

lemma known_state_in: "known k p i = state_in k (radiosCache p) i"
  by (simp add: known_def cached_def state_in_def)

lemma incoming_cache_state:
  assumes "list_all radio_ok rs" "radio_ok incoming"
  shows "state_in k (incoming_cache incoming rs) j =
    (if j = radio_id incoming then snapshot_says k incoming (state_in k rs j) else state_in k rs j)"
proof (cases "\<exists>r \<in> set rs. radio_id r = radio_id incoming")
  case True
  let ?r = "rs ! first_with (radio_id incoming) rs"
  from find_first [OF True] have f: "List.find (\<lambda>r. radio_id r = radio_id incoming) rs = Some ?r" .
  then have r: "radio_id ?r = radio_id incoming" "radio_ok ?r" using assms(1) by (auto simp: find_Some_iff list_all_iff)
  then have "radio_id (merge_radio incoming ?r) = radio_id incoming" using merge_radio_ok(2) [OF assms(2)] by simp
  from find_replaced [OF True this] True f merge_radio_state [OF assms(2) r(2)] show ?thesis
    by (simp add: incoming_cache_def state_in_def Let_def)
next
  case False
  then have none: "List.find (\<lambda>r. radio_id r = radio_id incoming) rs = None" by (auto simp: find_None_iff)
  with False incoming_radio_state [OF assms(2)] show ?thesis
    by (auto simp: incoming_cache_def state_in_def find_appended Let_def split: option.splits)
qed

lemma incoming_cache_list_ok: "list_all radio_ok rs \<Longrightarrow> radio_ok x \<Longrightarrow> list_all radio_ok (incoming_cache x rs)"
  using incoming_cache_ok [of "(loaded_page None [])\<lparr>radiosCache := rs\<rparr>" x]
  by (simp add: page_ok_def loaded_page_def)

lemma snapshot_state:
  assumes "list_all radio_ok rs" "list_all radio_ok xs" "distinct (map radio_id xs)"
  shows "state_in k (fold incoming_cache xs rs) j =
    (case List.find (\<lambda>x. radio_id x = j) xs of None \<Rightarrow> state_in k rs j | Some x \<Rightarrow> snapshot_says k x (state_in k rs j))"
  using assms
proof (induction xs arbitrary: rs)
  case (Cons x xs)
  have none: "List.find (\<lambda>y. radio_id y = radio_id x) xs = None"
    using Cons.prems(3) by (auto simp: find_None_iff) (metis image_eqI)
  from Cons.prems have "list_all radio_ok (incoming_cache x rs)" using incoming_cache_list_ok by simp
  with Cons.IH [OF this] Cons.prems incoming_cache_state [OF Cons.prems(1), of x k j] none show ?case by (auto split: option.splits)
qed simp

definition ready_payload :: "js \<Rightarrow> json list \<Rightarrow> json \<Rightarrow> bool" where
  "ready_payload active xs payload \<longleftrightarrow>
     (\<exists>s. is_obj payload \<and> json_find ''snapshot'' payload = Some s \<and> is_obj s \<and>
        json_find ''radios'' s = Some (JArray xs) \<and> json_find ''activeRadioId'' s = active)"

lemma ready_cache:
  assumes "page_ok p" "event_ok ''ready'' payload" "ready_payload active xs payload"
  shows "radiosCache (snd (applyTelemetryEvent ''ready'' (Some payload) p)) = fold incoming_cache xs (radiosCache p)"
    "list_all radio_ok xs"
proof -
  from assms(3) obtain s where s: "is_obj payload" "json_find ''snapshot'' payload = Some s" "is_obj s"
    "json_find ''radios'' s = Some (JArray xs)" "json_find ''activeRadioId'' s = active" by (auto simp: ready_payload_def)
  with assms(2) have xs: "list_all radio_ok xs" "active_ok active" by (auto simp: event_ok_def items_ok_def)
  let ?p = "p\<lparr>activeRadioId := js_or active (activeRadioId p)\<rparr>"
  have "page_ok ?p" using assms(1) xs(2) by (auto simp: page_ok_def active_ok_def js_or_def)
  from incoming_runs [OF this xs(1), of "[refreshRadioDropdown]"]
  show "radiosCache (snd (applyTelemetryEvent ''ready'' (Some payload) p)) = fold incoming_cache xs (radiosCache p)"
    using s by (auto simp: applyTelemetryEvent_def applyReadySnapshot_def obj_prop block_runs refresh_cache is_obj_def)
  show "list_all radio_ok xs" by (rule xs(1))
qed

lemma ready_replaces_facts:
  assumes "page_ok p" "event_ok ''ready'' payload" "ready_payload active xs payload" "distinct (map radio_id xs)"
  shows "known k (snd (process_event (''ready'', payload, eid) p)) j =
    (case List.find (\<lambda>x. radio_id x = j) xs of None \<Rightarrow> known k p j | Some x \<Rightarrow> snapshot_says k x (known k p j))"
proof -
  from process_event_run [OF assms(1,2)] obtain q where q: "applyTelemetryEvent ''ready'' (Some payload) p = (None, q)"
    "process_event (''ready'', payload, eid) p = addSseEvent ''ready'' payload eid (if selectedRadioId q \<noteq> [] then snd (render_selected q) else q)"
    by blast
  with ready_cache [OF assms(1-3)] have "radiosCache (snd (process_event (''ready'', payload, eid) p)) = fold incoming_cache xs (radiosCache p)"
    by (simp add: addSseEvent_cache selected_cache)
  then show ?thesis using snapshot_state [OF _ ready_cache(2) [OF assms(1-3)] assms(4)] assms(1)
    unfolding known_state_in by (simp add: page_ok_def)
qed

end
