(* ===== verification/Js_Round_Trip.thy ===== *)
theory Js_Round_Trip
  imports Js_Json
begin

text \<open>
  JSON.parse reads back what JSON.stringify writes on one line, up to what the format cannot carry: numbers
  that are not finite become null. Stated for values whose numbers are integral and whose objects
  have distinct keys that are no array indices; all texts that the page script writes are of this kind.
\<close>

fun readback :: "json \<Rightarrow> json" where
  "readback (JInt i) = num_json (rnd64 (of_int i))"
| "readback (JFloat d) = (if js_is_finite d then num_json d else JNull)"
| "readback (JArray xs) = JArray (map readback xs)"
| "readback (JObject kvs) = JObject (map (\<lambda>(k, v). (k, readback v)) kvs)"
| "readback j = j"

fun writable :: "json \<Rightarrow> bool" where
  "writable (JInt i) = (\<bar>i\<bar> \<le> 2 ^ 53)"
| "writable (JFloat d) = (case d of Fin r \<Rightarrow> r = of_int \<lfloor>r\<rfloor> \<and> \<bar>r\<bar> \<le> 2 ^ 53 | _ \<Rightarrow> True)"
| "writable (JArray xs) = list_all writable xs"
| "writable (JObject kvs) = (distinct (map fst kvs) \<and> list_all (\<lambda>(k, v). \<not> is_index_key k \<and> writable v) kvs)"
| "writable j = True"

section \<open>White space and numbers\<close>

definition ends_value :: "string \<Rightarrow> bool" where
  "ends_value rest \<longleftrightarrow> (case rest of [] \<Rightarrow> True | c # t \<Rightarrow> c \<in> {CHR '','', CHR '']'', CHR ''}''})"

lemma ends_value_simps [simp]: "ends_value []" "ends_value (CHR '','' # t)" "ends_value (CHR '']'' # t)" "ends_value (CHR ''}'' # t)"
  by (simp_all add: ends_value_def)

lemma skip_ws_id: "char_code c \<notin> {9, 10, 13, 32} \<Longrightarrow> skip_ws (c # s) = c # s"
  by (simp add: skip_ws_def)

lemma skip_ws_punctuation [simp]:
  "skip_ws [] = []" "skip_ws (CHR '','' # s) = CHR '','' # s" "skip_ws (CHR '']'' # s) = CHR '']'' # s"
  "skip_ws (CHR ''}'' # s) = CHR ''}'' # s" "skip_ws (CHR '':'' # s) = CHR '':'' # s" "skip_ws (CHR 0x22 # s) = CHR 0x22 # s"
  "skip_ws (CHR ''['' # s) = CHR ''['' # s" "skip_ws (CHR ''{'' # s) = CHR ''{'' # s"
  by (simp_all add: skip_ws_def char_code_def)

lemma show_nat_no_leading_zero: "hd (show_nat n) = CHR ''0'' \<Longrightarrow> n = 0"
proof (induction n rule: show_nat.induct)
  case (1 n)
  show ?case
  proof (cases "n < 10")
    case True
    with 1(2) show ?thesis by (subst (asm) show_nat.simps) (simp add: digit_char_props)
  next
    case False
    then have "hd (show_nat n) = hd (show_nat (n div 10))" by (subst show_nat.simps) simp
    with 1 False show ?thesis by simp
  qed
qed

lemma strtod_mag_delimited:
  assumes "list_all isdigit ds" "ds \<noteq> []" "ends_value rest"
  shows "strtod_mag 10 isdigit (CHR ''e'') 10 1 (ds @ rest) = Some (of_nat (digits_value 10 ds))"
    "takeWhile isdigit (ds @ rest) = ds" "dropWhile isdigit (ds @ rest) = rest"
proof -
  have c: "case rest of [] \<Rightarrow> True | c # t \<Rightarrow> \<not> isdigit c"
    using assms(3) by (auto simp: ends_value_def isdigit_def char_code_def split: list.splits)
  from takeWhile_digits [OF assms(1) c] show t: "takeWhile isdigit (ds @ rest) = ds" "dropWhile isdigit (ds @ rest) = rest"
    by simp_all
  show "strtod_mag 10 isdigit (CHR ''e'') 10 1 (ds @ rest) = Some (of_nat (digits_value 10 ds))"
    using assms(2,3) unfolding strtod_mag_def Let_def t
    by (cases rest) (auto simp: ends_value_def exponent_part_def tolower_def char_code_def)
qed

lemma first_of_rest:
  assumes "ends_value rest"
  shows "take 1 rest \<noteq> ''.''" "rest \<noteq> [] \<Longrightarrow> tolower (hd rest) \<noteq> CHR ''e''"
  using assms by (auto simp: ends_value_def tolower_def char_code_def split: list.splits)

lemma parse_number_nat:
  assumes "ends_value rest"
  shows "parse_number (show_nat n @ rest) = Some (num_json (rnd64 (of_nat n)), rest)"
    "parse_number (CHR ''-'' # show_nat n @ rest) = Some (num_json (rnd64 (- of_nat n)), rest)"
proof -
  have ds: "list_all isdigit (show_nat n)" "show_nat n \<noteq> []" using show_nat_props [of n] by auto
  have lead: "\<not> (hd (show_nat n) = CHR ''0'' \<and> length (show_nat n) > 1)"
    using show_nat_no_leading_zero [of n] show_nat.simps [of 0] by auto
  have minus: "take 1 (show_nat n @ rest) \<noteq> ''-''"
    using ds isdigit_facts(2) by (cases "show_nat n") auto
  note d = strtod_mag_delimited [OF ds assms] and r = first_of_rest [OF assms]
  show "parse_number (show_nat n @ rest) = Some (num_json (rnd64 (of_nat n)), rest)"
    using d r lead minus by (auto simp: parse_number_def Let_def split: prod.split)
  show "parse_number (CHR ''-'' # show_nat n @ rest) = Some (num_json (rnd64 (- of_nat n)), rest)"
    using d r lead by (auto simp: parse_number_def Let_def split: prod.split)
qed

lemma parse_number_int:
  "ends_value rest \<Longrightarrow> parse_number (show_int i @ rest) = Some (num_json (rnd64 (of_int i)), rest)"
  using parse_number_nat [of rest "nat i"] parse_number_nat [of rest "nat (- i)"] by (simp add: show_int_def)

lemma digit_start:
  assumes "isdigit c \<or> c = CHR ''-''"
  shows "skip_ws (c # s) = c # s" "char_code c \<noteq> 34" "c \<noteq> CHR ''[''" "c \<noteq> CHR ''{''"
    "parse_literal (c # s) = parse_number (c # s)"
  using assms by (auto simp: skip_ws_def isdigit_def char_code_def parse_literal_def)

lemma show_int_start: "\<exists>c s. show_int i = c # s \<and> (isdigit c \<or> c = CHR ''-'')"
proof (cases "i < 0")
  case False
  obtain c s where c: "show_nat (nat i) = c # s" by (cases "show_nat (nat i)") auto
  then have "isdigit c" using show_nat_digits [of c "nat i"] by simp
  with c False show ?thesis by (simp add: show_int_def)
qed (simp add: show_int_def)

lemma parse_int_value:
  assumes "ends_value rest"
  shows "parse_value (Suc f) (show_int i @ rest) = Some (num_json (rnd64 (of_int i)), rest)"
proof -
  from show_int_start [of i] obtain c s where c: "show_int i = c # s" "isdigit c \<or> c = CHR ''-''" by blast
  with digit_start(1,5) [OF c(2), of "s @ rest"] digit_start(2-4) [OF c(2)] parse_number_int [OF assms, of i] show ?thesis by simp
qed

section \<open>Strings\<close>

lemma control_escapes:
  "\<forall>n \<in> set [0..<32]. hex4 (''00'' @ [hex_lower (n div 16), hex_lower (n mod 16)]) = Some n"
  by code_simp

lemma unicode_escape_control:
  assumes "n < 32"
  shows "unicode_escape (''00'' @ [hex_lower (n div 16), hex_lower (n mod 16)] @ t) = Some ([char_of n], 4)"
proof -
  have "hex4 (''00'' @ [hex_lower (n div 16), hex_lower (n mod 16)]) = Some n" using control_escapes assms by simp
  then have "hex4 (''00'' @ [hex_lower (n div 16), hex_lower (n mod 16)] @ t) = Some n"
    by (simp add: hex4_def split: if_splits)
  with assms show ?thesis by (simp add: unicode_escape_def utf8_def)
qed

lemma char_of_code [simp]: "char_of (char_code c) = c"
  by (simp add: char_code_def)

lemma parse_quoted_char:
  "parse_chars (quote_char c @ t) = prepend [c] (parse_chars t)"
proof -
  let ?n = "char_code c"
  have esc: "parse_chars (CHR 0x5C # e # t) = prepend bs (parse_chars t)"
    if "simple_escape e = Some bs" "e \<noteq> CHR ''u''" for e bs
    using that by (simp add: char_code_def)
  have named: "c = char_of n" if "?n = n" for n using that char_of_code by metis
  consider "?n \<in> {34, 92, 8, 9, 10, 12, 13}" | "?n < 32" "?n \<notin> {8, 9, 10, 12, 13}" | "32 \<le> ?n" "?n \<noteq> 34" "?n \<noteq> 92"
    by fastforce
  then show ?thesis
  proof cases
    case 1
    have chars: "char_of (34 :: nat) = CHR 0x22" "char_of (92 :: nat) = CHR 0x5C" "char_of (8 :: nat) = CHR 0x08"
      "char_of (9 :: nat) = CHR 0x09" "char_of (10 :: nat) = CHR 0x0A" "char_of (12 :: nat) = CHR 0x0C"
      "char_of (13 :: nat) = CHR 0x0D" by code_simp+
    from 1 named have "c \<in> {CHR 0x22, CHR 0x5C, CHR 0x08, CHR 0x09, CHR 0x0A, CHR 0x0C, CHR 0x0D}"
      unfolding chars [symmetric] by blast
    then show ?thesis by (auto simp: quote_char_def esc simple_escape_def char_code_def)
  next
    case 2
    have q: "quote_char c = CHR 0x5C # CHR ''u'' # ''00'' @ [hex_lower (?n div 16), hex_lower (?n mod 16)]"
      using 2 by (simp add: quote_char_def Let_def)
    have "unicode_escape (''00'' @ [hex_lower (?n div 16), hex_lower (?n mod 16)] @ t) = Some ([c], 4)"
      using unicode_escape_control [OF 2(1), of t] by simp
    then show ?thesis unfolding q by (simp add: char_code_def)
  next
    case 3
    then show ?thesis by (simp add: quote_char_def Let_def)
  qed
qed

lemma parse_quoted: "parse_chars (concat (map quote_char s) @ CHR 0x22 # t) = Some (s, t)"
proof (induction s)
  case (Cons c s)
  then show ?case using parse_quoted_char [of c "concat (map quote_char s) @ CHR 0x22 # t"]
    by (simp add: prepend_def)
qed (simp add: char_code_def)

lemma parse_string_value: "parse_value (Suc f) (quote s @ rest) = Some (JString s, rest)"
  by (simp add: quote_def parse_quoted char_code_def)

lemma parse_key_quoted: "parse_key (quote k @ CHR '':'' # rest) = Some (k, rest)"
  by (simp add: quote_def parse_key_def parse_quoted char_code_def)

section \<open>Values\<close>

lemma property_order_id: "list_all (\<lambda>(k, v). \<not> is_index_key k) kvs \<Longrightarrow> property_order kvs = kvs"
proof -
  assume "list_all (\<lambda>(k, v). \<not> is_index_key k) kvs"
  then have "filter (\<lambda>(k, v). is_index_key k) kvs = []" "filter (\<lambda>(k, v). \<not> is_index_key k) kvs = kvs"
    by (auto simp: list_all_iff filter_empty_conv intro!: filter_True)
  then show ?thesis by (simp add: property_order_def)
qed

lemma stringify_object:
  assumes "list_all (\<lambda>(k, v). \<not> is_index_key k) kvs"
  shows "stringify False d (JObject kvs) =
    CHR ''{'' # js_join '','' (map (\<lambda>(k, v). quote k @ '':'' @ stringify False (Suc d) v) kvs) @ ''}''"
proof -
  have "property_order (map (\<lambda>(k, v). (k, stringify False (Suc d) v)) kvs) = map (\<lambda>(k, v). (k, stringify False (Suc d) v)) kvs"
    using assms by (intro property_order_id) (auto simp: list_all_iff)
  then show ?thesis
    by (cases kvs) (auto simp: bracketed_def comp_def case_prod_unfold)
qed

lemma stringify_array:
  "stringify False d (JArray xs) = CHR ''['' # js_join '','' (map (stringify False (Suc d)) xs) @ '']''"
  by (cases xs) (simp_all add: bracketed_def)

lemma number_text_value:
  assumes "r = of_int \<lfloor>r\<rfloor>" "\<bar>r\<bar> \<le> 2 ^ 53"
  shows "number_json_text (Fin r) = show_int \<lfloor>r\<rfloor>" "rnd64 (of_int \<lfloor>r\<rfloor>) = Fin r" "num_json (Fin r) = JInt \<lfloor>r\<rfloor>"
proof -
  have i: "\<bar>\<lfloor>r\<rfloor>\<bar> \<le> 2 ^ 53" using assms by (metis of_int_abs of_int_le_numeral_power_cancel_iff)
  show "number_json_text (Fin r) = show_int \<lfloor>r\<rfloor>" using assms by (simp add: number_json_text_def js_is_finite_def)
  show "rnd64 (of_int \<lfloor>r\<rfloor>) = Fin r" using rnd64_int [OF i] assms(1) by simp
  show "num_json (Fin r) = JInt \<lfloor>r\<rfloor>" using assms by (simp add: num_json_def)
qed

lemma int_is_number:
  assumes "\<bar>i\<bar> \<le> 2 ^ 53"
  shows "number_json_text (rnd64 (of_int i)) = show_int i"
  using rnd64_int [OF assms] number_text_int [OF assms] by (simp add: number_json_text_def js_is_finite_def del: number_text.simps)

lemma parse_literals:
  "parse_value (Suc f) (''null'' @ rest) = Some (JNull, rest)" "parse_value (Suc f) (''true'' @ rest) = Some (JBool True, rest)"
  "parse_value (Suc f) (''false'' @ rest) = Some (JBool False, rest)"
  by (simp_all add: skip_ws_def char_code_def parse_literal_def)

text \<open>Every value starts with a character that is no white space and closes nothing.\<close>

definition opens :: "string \<Rightarrow> bool" where
  "opens t \<longleftrightarrow> (\<exists>c s. t = c # s \<and> char_code c \<notin> {9, 10, 13, 32} \<and> c \<noteq> CHR '']'' \<and> c \<noteq> CHR ''}'')"

lemma show_int_opens: "opens (show_int i)"
proof -
  obtain c s where "show_int i = c # s" "isdigit c \<or> c = CHR ''-''" using show_int_start by blast
  then show ?thesis by (auto simp: opens_def isdigit_def char_code_def)
qed

lemma opens_literals: "opens ''null''" "opens ''true''" "opens ''false''" "opens (quote k)" "opens (quote k @ t)" "opens (CHR ''['' # t)" "opens (CHR ''{'' # t)"
  by (simp_all add: opens_def quote_def char_code_def)

lemma stringify_opens: "writable j \<Longrightarrow> opens (stringify False d j)"
proof (cases j)
  case (JFloat x)
  assume "writable j"
  with JFloat show ?thesis using number_text_value show_int_opens opens_literals
    by (cases x) (auto simp: number_json_text_def js_is_finite_def)
next
  case (JInt i)
  assume "writable j"
  with JInt show ?thesis by (simp add: int_is_number show_int_opens)
next
  case (JObject kvs)
  then show ?thesis using opens_literals(7) by (auto simp: bracketed_def)
next
  case (JArray xs)
  then show ?thesis using opens_literals(6) by (auto simp: bracketed_def)
qed (simp_all add: opens_literals)

lemma opens_join: "opens t \<Longrightarrow> opens (js_join sep (t # ts))"
  by (cases ts) (auto simp: opens_def)

lemma opens_skip: "opens t \<Longrightarrow> skip_ws (t @ u) = t @ u \<and> take 1 (t @ u) \<noteq> '']'' \<and> take 1 (t @ u) \<noteq> ''}''"
  by (auto simp: opens_def skip_ws_def)

lemma parse_elements_join:
  assumes "\<And>x f r. x \<in> set xs \<Longrightarrow> ends_value r \<Longrightarrow> 2 * length (g x) \<le> f \<Longrightarrow> parse_value f (g x @ r) = Some (h x, r)"
    and "\<And>x. x \<in> set xs \<Longrightarrow> opens (g x)" "xs \<noteq> []" "2 * length (js_join '','' (map g xs)) < f"
  shows "parse_elements f (js_join '','' (map g xs) @ CHR '']'' # rest) = Some (map h xs, rest)"
  using assms
proof (induction xs arbitrary: f)
  case (Cons x xs)
  from Cons.prems(4) obtain f' where f: "f = Suc f'" by (cases f) auto
  show ?case
  proof (cases "xs = []")
    case True
    then show ?thesis using Cons.prems(1) [of x] Cons.prems(4) by (simp add: f)
  next
    case False
    then have j: "js_join '','' (map g (x # xs)) = g x @ CHR '','' # js_join '','' (map g xs)"
      by (cases xs) auto
    have len: "2 * length (js_join '','' (map g xs)) < f'" "2 * length (g x) \<le> f'"
      using Cons.prems(4) unfolding j by (simp_all add: f)
    have "parse_elements f' (js_join '','' (map g xs) @ CHR '']'' # rest) = Some (map h xs, rest)"
      using Cons.prems(1,2) False len(1) by (intro Cons.IH) auto
    moreover have "parse_value f' (g x @ CHR '','' # js_join '','' (map g xs) @ CHR '']'' # rest) =
        Some (h x, CHR '','' # js_join '','' (map g xs) @ CHR '']'' # rest)"
      using Cons.prems(1) [of x] len(2) by simp
    ultimately show ?thesis unfolding j by (simp add: f prepend_def)
  qed
qed simp

lemma update_fresh: "k \<notin> fst ` set acc \<Longrightarrow> AList.update k v acc = acc @ [(k, v)]"
  by (induction acc) auto

lemma parse_members_join:
  assumes "\<And>k v f r. (k, v) \<in> set kvs \<Longrightarrow> ends_value r \<Longrightarrow> 2 * length (g v) \<le> f \<Longrightarrow> parse_value f (g v @ r) = Some (h v, r)"
    and "kvs \<noteq> []" "2 * length (js_join '','' (map (\<lambda>(k, v). quote k @ '':'' @ g v) kvs)) < f"
    and "distinct (map fst kvs)" "fst ` set kvs \<inter> fst ` set acc = {}"
  shows "parse_members f acc (js_join '','' (map (\<lambda>(k, v). quote k @ '':'' @ g v) kvs) @ CHR ''}'' # rest) =
    Some (acc @ map (\<lambda>(k, v). (k, h v)) kvs, rest)"
  using assms
proof (induction kvs arbitrary: f acc)
  case (Cons kv kvs)
  obtain k v where kv: "kv = (k, v)" by (cases kv)
  from Cons.prems(3) obtain f' where f: "f = Suc f'" by (cases f) auto
  have fresh: "AList.update k (h v) acc = acc @ [(k, h v)]" using Cons.prems(5) kv by (intro update_fresh) auto
  show ?case
  proof (cases "kvs = []")
    case True
    then show ?thesis using Cons.prems(1) [of k v] Cons.prems(3) by (simp add: f kv parse_key_quoted fresh)
  next
    case False
    let ?rest = "js_join '','' (map (\<lambda>(k, v). quote k @ '':'' @ g v) kvs) @ CHR ''}'' # rest"
    from False have j: "js_join '','' (map (\<lambda>(k, v). quote k @ '':'' @ g v) (kv # kvs)) =
        quote k @ CHR '':'' # g v @ CHR '','' # js_join '','' (map (\<lambda>(k, v). quote k @ '':'' @ g v) kvs)"
      by (cases kvs) (auto simp: kv)
    have len: "2 * length (js_join '','' (map (\<lambda>(k, v). quote k @ '':'' @ g v) kvs)) < f'" "2 * length (g v) \<le> f'"
      using Cons.prems(3) unfolding j by (simp_all add: f)
    have "parse_members f' (acc @ [(k, h v)]) ?rest = Some ((acc @ [(k, h v)]) @ map (\<lambda>(k, v). (k, h v)) kvs, rest)"
      using Cons.prems(1,4,5) False len(1) kv by (intro Cons.IH) auto
    moreover have "parse_value f' (g v @ CHR '','' # ?rest) = Some (h v, CHR '','' # ?rest)"
      using Cons.prems(1) [of k v] len(2) kv by simp
    ultimately show ?thesis unfolding j using fresh by (simp add: f kv parse_key_quoted)
  qed
qed simp

lemma parse_stringify:
  assumes "writable j" "ends_value rest" "2 * length (stringify False d j) \<le> f"
  shows "parse_value f (stringify False d j @ rest) = Some (readback j, rest)"
  using assms
proof (induction j arbitrary: d f rest)
  case JNull
  then show ?case using parse_literals(1) [of "f - 1" rest] by simp
next
  case (JBool b)
  then show ?case using parse_literals(2,3) [of "f - 1" rest] by (cases b) simp_all
next
  case (JInt i)
  obtain g where "f = Suc g" using JInt show_int_start [of i] by (cases f) (auto simp: int_is_number)
  then show ?case using JInt parse_int_value [OF JInt.prems(2), of g i] by (simp add: int_is_number)
next
  case (JFloat x)
  show ?case
  proof (cases "js_is_finite x")
    case True
    with JFloat obtain r where r: "x = Fin r" "r = of_int \<lfloor>r\<rfloor>" "\<bar>r\<bar> \<le> 2 ^ 53"
      by (cases x) (auto simp: js_is_finite_def)
    obtain g where "f = Suc g" using JFloat(3) show_int_start [of "\<lfloor>r\<rfloor>"] number_text_value(1) [OF r(2,3)] r(1)
      by (cases f) auto
    then show ?thesis using True r(1) number_text_value [OF r(2,3)] parse_int_value [OF JFloat.prems(2), of g "\<lfloor>r\<rfloor>"] by simp
  next
    case False
    then show ?thesis using JFloat parse_literals(1) [of "f - 1" rest] by (simp add: number_json_text_def)
  qed
next
  case (JString s)
  obtain g where "f = Suc g" using JString(3) by (cases f) (auto simp: quote_def)
  then show ?case using parse_string_value by simp
next
  case (JArray xs)
  let ?t = "js_join '','' (map (stringify False (Suc d)) xs)"
  have f: "f = Suc (f - 1)" "2 * length ?t < f - 1" using JArray.prems(3) by (simp_all only: stringify_array) auto
  show ?case
  proof (cases "xs = []")
    case True
    then show ?thesis by (subst f(1)) (simp add: bracketed_def char_code_def)
  next
    case False
    have w: "writable x" if "x \<in> set xs" for x using JArray.prems(1) that by (simp add: list_all_iff)
    have "opens ?t" using False w stringify_opens by (cases xs) (simp_all add: opens_join)
    have "parse_elements (f - 1) (?t @ CHR '']'' # rest) = Some (map readback xs, rest)"
      using f(2) False w by (intro parse_elements_join) (auto intro!: JArray.IH stringify_opens)
    with opens_skip [OF \<open>opens ?t\<close>] show ?thesis
      unfolding stringify_array by (subst f(1)) (simp add: char_code_def)
  qed
next
  case (JObject kvs)
  let ?g = "stringify False (Suc d)"
  let ?t = "js_join '','' (map (\<lambda>(k, v). quote k @ '':'' @ ?g v) kvs)"
  have w: "list_all (\<lambda>(k, v). \<not> is_index_key k) kvs" "distinct (map fst kvs)" "\<And>k v. (k, v) \<in> set kvs \<Longrightarrow> writable v"
    using JObject.prems(1) by (auto simp: list_all_iff)
  have f: "f = Suc (f - 1)" "2 * length ?t < f - 1" using JObject.prems(3) by (simp_all only: stringify_object [OF w(1)]) auto
  show ?case
  proof (cases "kvs = []")
    case True
    then show ?thesis by (subst f(1)) (simp add: bracketed_def char_code_def property_order_def)
  next
    case False
    have "opens ?t" using False by (cases kvs) (auto simp: case_prod_unfold intro!: opens_join opens_literals(5))
    have "parse_members (f - 1) [] (?t @ CHR ''}'' # rest) = Some ([] @ map (\<lambda>(k, v). (k, readback v)) kvs, rest)"
      using f(2) False w(2,3) JObject.IH by (intro parse_members_join) (auto intro: snds.intros)
    with opens_skip [OF \<open>opens ?t\<close>] show ?thesis
      unfolding stringify_object [OF w(1)] by (subst f(1)) (simp add: char_code_def)
  qed
qed

theorem json_round_trip:
  assumes "writable j"
  shows "json_parse_text (json_stringify j) = Some (readback j)"
  using parse_stringify [OF assms, of "[]" 0 "2 * length (json_stringify j) + 2"]
  by (simp add: json_parse_text_def json_stringify_def)

end
