(* ===== verification/Sse_Frames.thy ===== *)
theory Sse_Frames
  imports Sse_Stream
begin

text \<open>
  Events as the event-stream format frames them, one event, id and data line each and an empty line at
  the end, are read back by the page's reader, one by one and with nothing left over.
\<close>

abbreviation newline :: char where
  "newline \<equiv> CHR 0x0A"

definition trimmed :: "string \<Rightarrow> bool" where
  "trimmed t \<longleftrightarrow> t = [] \<or> \<not> isspace (hd t) \<and> \<not> isspace (last t)"

definition one_line :: "string \<Rightarrow> bool" where
  "one_line t \<longleftrightarrow> newline \<notin> set t \<and> trimmed t"

definition frame_body :: "string \<times> string \<times> string \<Rightarrow> string" where
  "frame_body = (\<lambda>(tag, i, d). ''event: '' @ tag @ [newline] @ ''id: '' @ i @ [newline] @ ''data: '' @ d)"

definition stream_text :: "(string \<times> string \<times> string) list \<Rightarrow> string" where
  "stream_text evs = concat (map (\<lambda>ev. frame_body ev @ [newline, newline]) evs)"

lemma trim_space: "trimmed t \<Longrightarrow> js_trim (CHR '' '' # t) = t"
proof -
  assume t: "trimmed t"
  have "isspace (CHR '' '')" by (simp add: isspace_def char_code_def)
  moreover have "dropWhile isspace t = t" "dropWhile isspace (rev t) = rev t"
    using t by (simp_all add: trimmed_def dropWhile_eq_self_iff hd_rev) blast+
  ultimately show ?thesis by (simp add: js_trim_def)
qed

lemma split_prefix:
  assumes "newline \<notin> set l" "sep \<noteq> []" "hd sep = newline"
  shows "js_split sep (l @ t) = (l @ hd (js_split sep t)) # tl (js_split sep t)"
  using assms(1)
proof (induction l)
  case Nil
  then show ?case by (simp add: js_split_ne)
next
  case (Cons c l)
  then have "\<not> prefix sep (c # l @ t)" using assms(2,3) by (cases sep) auto
  with Cons show ?case by (simp add: js_split_Cons)
qed

lemma split_at_newline:
  "c \<noteq> newline \<Longrightarrow> js_split [newline, newline] (newline # c # t) =
     (newline # hd (js_split [newline, newline] (c # t))) # tl (js_split [newline, newline] (c # t))"
  by (subst js_split_Cons) simp

lemma split_frame:
  assumes "newline \<notin> set tag" "newline \<notin> set i" "newline \<notin> set d"
  shows "js_split [newline, newline] (frame_body (tag, i, d) @ [newline, newline]) = [frame_body (tag, i, d), []]"
proof -
  let ?s = "js_split [newline, newline]"
  have e: "?s [newline, newline] = [[], []]" by (simp add: js_split_Cons)
  have 1: "?s (''data: '' @ d @ [newline, newline]) = [''data: '' @ d, []]"
    using split_prefix [of "''data: '' @ d" "[newline, newline]" "[newline, newline]"] assms(3) e by simp
  have 2: "?s (newline # ''data: '' @ d @ [newline, newline]) = [newline # ''data: '' @ d, []]"
    using split_at_newline [of "CHR ''d''" "''ata: '' @ d @ [newline, newline]"] 1 by simp
  have 3: "?s (''id: '' @ i @ newline # ''data: '' @ d @ [newline, newline]) = [''id: '' @ i @ newline # ''data: '' @ d, []]"
    using split_prefix [of "''id: '' @ i" "[newline, newline]" "newline # ''data: '' @ d @ [newline, newline]"] assms(2) 2 by simp
  have 4: "?s (newline # ''id: '' @ i @ newline # ''data: '' @ d @ [newline, newline]) =
      [newline # ''id: '' @ i @ newline # ''data: '' @ d, []]"
    using split_at_newline [of "CHR ''i''" "''d: '' @ i @ newline # ''data: '' @ d @ [newline, newline]"] 3 by simp
  show ?thesis
    using split_prefix [of "''event: '' @ tag" "[newline, newline]"
        "newline # ''id: '' @ i @ newline # ''data: '' @ d @ [newline, newline]"] assms(1) 4
    by (simp add: frame_body_def)
qed

lemma split_line: "newline \<notin> set l \<Longrightarrow> js_split [newline] (l @ newline # t) = l # js_split [newline] t"
  using split_prefix [of l "[newline]" "newline # t"] by (simp add: js_split_Cons)

lemma split_last_line: "newline \<notin> set l \<Longrightarrow> js_split [newline] l = [l]"
  using split_prefix [of l "[newline]" "[]"] by simp

lemma read_frame:
  assumes "one_line tag" "one_line i" "one_line d"
  shows "sse_event (frame_body (tag, i, d)) = (tag, sse_payload d, Some i)"
proof -
  have "js_split [newline] (frame_body (tag, i, d)) = [''event: '' @ tag, ''id: '' @ i, ''data: '' @ d]"
    using assms split_line [of "''event: '' @ tag" "''id: '' @ i @ newline # ''data: '' @ d"]
      split_line [of "''id: '' @ i" "''data: '' @ d"] split_last_line [of "''data: '' @ d"]
    by (simp add: frame_body_def one_line_def)
  then show ?thesis
    using assms trim_space by (simp add: sse_event_def field_line_def one_line_def)
qed

lemma sse_parts_framed:
  assumes "\<forall>(tag, i, d) \<in> set evs. newline \<notin> set tag \<and> newline \<notin> set i \<and> newline \<notin> set d"
  shows "sse_parts [] (stream_text evs) = (map frame_body evs, [])"
  using assms
proof (induction evs)
  case (Cons ev evs)
  obtain tag i d where ev: "ev = (tag, i, d)" by (cases ev)
  have "sse_parts [] (frame_body ev @ [newline, newline]) = ([frame_body ev], [])"
    using split_frame [of tag i d] Cons.prems ev by (simp add: sse_parts_def)
  with Cons show ?case
    using sse_parts_append [of "[]" "frame_body ev @ [newline, newline]" "stream_text evs"]
    by (simp add: stream_text_def ev)
qed (simp add: stream_text_def sse_parts_def)

lemma frame_not_blank: "js_trim (frame_body ev) \<noteq> []"
proof -
  obtain tag i d where ev: "ev = (tag, i, d)" by (cases ev)
  have e: "\<not> isspace (CHR ''e'')" by (simp add: isspace_def char_code_def)
  then have "dropWhile isspace (frame_body ev) = frame_body ev" by (simp add: frame_body_def ev)
  moreover have "CHR ''e'' \<in> set (frame_body ev)" by (simp add: frame_body_def ev)
  then have "dropWhile isspace (rev (frame_body ev)) \<noteq> []" using e by (auto simp: dropWhile_eq_Nil_conv)
  ultimately show ?thesis by (simp add: js_trim_def)
qed



end
