(* ===== verification/Monitor_Link.thy ===== *)
theory Monitor_Link
  imports Page_Effects Js_Round_Trip Sse_Frames Service_Wiring
begin

text \<open>
  The monitor page and the service together. What the hub publishes and the gateway answers reaches the
  page as JSON text, so the page sees the value read back from it (readback of Js_Round_Trip: numbers that
  are not finite become null). The lemmas show that everything the service sends has the type the page
  expects; the properties follow commands and events from one side to the other.
\<close>

section \<open>What the service sends has the type the page expects\<close>

lemma readback_find: "json_find k (readback (JObject kvs)) = map_option readback (map_of kvs k)"
  by (induction kvs) auto

lemma readback_scalar: "js_scalar j \<Longrightarrow> scalar_field (Some (readback j))"
  by (cases j) (auto simp: js_scalar_def)

lemma readback_obj [simp]: "is_obj (readback (JObject kvs))"
  by simp

lemmas service_scalars = power_dbm_json_def power_json_def optional_json_def positive_json_def optional_bool_json_def

lemma snapshot_item_ok: "radio_ok (readback (snapshot_item V d))"
proof -
  obtain st caps where v: "descriptor_view V d = (st, caps)" by fastforce
  show ?thesis
    by (simp add: snapshot_item_def v radio_ok_def id_ok_def state_ok_def caps_ok_def optional_json_def positive_json_def
        split: option.split)
qed

lemma channels_from_ok: "list_all listed_channel (map readback (channels_from n fs))"
  by (induction fs arbitrary: n) (auto simp: listed_channel_def)

lemma radio_item_ok: "radio_ok (readback (build_radio_item V d))" "radio_id (readback (build_radio_item V d)) = rd_id d"
proof -
  obtain st caps where v: "descriptor_view V d = (st, caps)" by fastforce
  show "radio_ok (readback (build_radio_item V d))"
    using channels_from_ok
    by (simp add: build_radio_item_def build_radio_state_def v radio_ok_def id_ok_def state_ok_def caps_ok_def channels_ok_def
        build_channels_def power_json_def optional_json_def positive_json_def split: option.split)
  show "radio_id (readback (build_radio_item V d)) = rd_id d"
    by (simp add: build_radio_item_def v radio_id_def)
qed

definition hub_ok :: "telemetry_hub \<Rightarrow> bool" where
  "hub_ok h \<longleftrightarrow> (\<forall>(tag, payload) \<in> set (published h). event_ok tag (readback payload)) \<and>
     (case last_ready_payload h of None \<Rightarrow> True | Some p \<Rightarrow> event_ok ''ready'' (readback p))"

lemma ready_snapshot_ok: "event_ok ''ready'' (readback (JObject [(''snapshot'', build_ready_snapshot V m)]))"
  using snapshot_item_ok
  by (auto simp: event_ok_def build_ready_snapshot_def items_ok_def active_ok_def optional_json_def list_all_iff
      split: option.split)

lemma state_event_ok: "event_ok ''state'' (readback (state_payload i st c w f ts))"
  by (simp add: event_ok_def state_payload_def active_ok_def power_dbm_json_def)

lemma hub_events_ok [simp]:
  "event_ok ''powerChanged'' (readback (JObject [(''radioId'', JString i), (''powerDbm'', power_dbm_json w), (''ts'', JString ts)]))"
  "event_ok ''channelChanged'' (readback (JObject [(''radioId'', JString i), (''frequencyMhz'', JFloat f),
     (''channelIndex'', JInt c), (''ts'', JString ts)]))"
  "event_ok ''heartbeat'' (readback (JObject [(''ts'', JString ts)]))"
  by (simp_all add: event_ok_def active_ok_def power_dbm_json_def)

lemma hub_ok_publish: "hub_ok h \<Longrightarrow> event_ok tag (readback payload) \<Longrightarrow> hub_ok (publishEvent tag payload h)"
  by (simp add: hub_ok_def publishEvent_def)

lemma hub_ok_service:
  "hub_ok (sys_hub s) \<Longrightarrow> hub_ok (sys_hub (publish (publishPowerChanged P i w) s))"
  "hub_ok (sys_hub s) \<Longrightarrow> hub_ok (sys_hub (publish (publishChannelChanged P i c f) s))"
  "hub_ok (sys_hub s) \<Longrightarrow> hub_ok (sys_hub (publish (publishRadioState P i st c w f) s))"
  using state_event_ok
  by (auto simp: publish_def publishPowerChanged_def publishChannelChanged_def publishRadioState_def
      intro!: hub_ok_publish split: prod.split simp del: readback.simps)

lemma hub_ok_heartbeat: "hub_ok h \<Longrightarrow> heartbeat_fired aborted ts h = (h', again) \<Longrightarrow> hub_ok h'"
proof -
  assume h: "hub_ok h" and f: "heartbeat_fired aborted ts h = (h', again)"
  let ?h = "publishEvent ''heartbeat'' (JObject [(''ts'', JString ts)]) h\<lparr>heartbeat_ticks := heartbeat_ticks h + 1\<rparr>"
  have 1: "hub_ok (publishEvent ''heartbeat'' (JObject [(''ts'', JString ts)]) h)"
    by (rule hub_ok_publish [OF h hub_events_ok(3)])
  then have 2: "hub_ok (?h)" by (simp add: hub_ok_def publishEvent_def)
  have 3: "hub_ok (publishEvent ''ready'' snap ?h)" if "last_ready_payload h = Some snap" for snap
    by (rule hub_ok_publish [OF 2]) (use h that in \<open>simp add: hub_ok_def\<close>)
  show ?thesis using f h 1 2 3 by (auto simp: heartbeat_fired_def Let_def publishEvent_def split: if_splits option.splits)
qed

lemma execute_hub_ok: "execute V P c s = Some (r, s') \<Longrightarrow> hub_ok (sys_hub s) \<Longrightarrow> hub_ok (sys_hub s')"
proof (erule execute_cases)
  fix k assume "hub_ok (sys_hub s)" "selectRadio k s = (r, s')"
  then show "hub_ok (sys_hub s')" by (auto elim: selectRadio_cases)
next
  fix k w assume "hub_ok (sys_hub s)" "setPower V P k w s = Some (r, s')"
  then show "hub_ok (sys_hub s')" by (auto elim!: setPower_cases intro!: hub_ok_service)
next
  fix k i assume "hub_ok (sys_hub s)" "setChannel V P k i s = Some (r, s')"
  then show "hub_ok (sys_hub s')" by (auto elim!: setChannel_cases intro!: hub_ok_service)
qed

lemma service_step_hub_ok: "service_step V P s ev s' \<Longrightarrow> hub_ok (sys_hub s) \<Longrightarrow> hub_ok (sys_hub s')"
proof (erule service_stepE)
  fix c r assume "hub_ok (sys_hub s)" "execute V P c s = Some (r, s')"
  then show "hub_ok (sys_hub s')" using execute_hub_ok by blast
next
  fix aborted ts h again
  assume "hub_ok (sys_hub s)" "s' = s\<lparr>sys_hub := h\<rparr>" "heartbeat_fired aborted ts (sys_hub s) = (h, again)"
  then show "hub_ok (sys_hub s')" using hub_ok_heartbeat by fastforce
next
  fix t a now deadline res
  assume h: "hub_ok (sys_hub s)" and c: "readiness_check V t a now deadline s = (res, s')"
  have "hub_ok (publishReady (build_ready_snapshot V (sys_radios s)) (sys_hub s))"
    using h ready_snapshot_ok [of V "sys_radios s"]
    by (simp add: publishReady_def publishEvent_def hub_ok_def Let_def del: readback.simps)
  with h c show "hub_ok (sys_hub s')" by (auto simp: readiness_check_def split: if_splits)
next
  assume "hub_ok (sys_hub s)" "s' = app_stop s"
  then show "hub_ok (sys_hub s')" by (simp add: app_stop_def hub_stop_def hub_ok_def)
qed simp

lemma service_run_hub_ok: "service_run V P s tr s' \<Longrightarrow> hub_ok (sys_hub s) \<Longrightarrow> hub_ok (sys_hub s')"
  using service.run_invariant [where I = "\<lambda>s. hub_ok (sys_hub s)"] service_step_hub_ok by blast

lemma app_start_hub_ok: "app_start P cfg e = Some s \<Longrightarrow> hub_ok (sys_hub s)"
  by (auto simp: app_start_def bind_eq_Some_conv hub_ok_def hub_start_def initial_hub_def)

end
