(* ===== verification/Monitor_Commands.thy ===== *)
theory Monitor_Commands
  imports Monitor_Link
begin

text \<open>
  Commands and readings between the monitor page and the service: the radio list as the page shows it, the
  requests that the page's buttons send as the gateway takes them, and what an accepted command leaves on the
  screen.
\<close>

section \<open>The radio list\<close>

definition listed :: "int \<Rightarrow> double \<Rightarrow> json" where
  "listed n x = readback (JObject [(''index'', JInt n), (''frequencyMhz'', JFloat x)])"

lemma num_json_number: "json_to_number (num_json d) = Some d"
proof (cases "num_json d")
  case (JInt i)
  with json_number_num_json [of d] show ?thesis by (simp add: json_number_def)
next
  case (JFloat e)
  with json_number_num_json [of d] show ?thesis by (simp add: json_number_def)
qed (use json_number_num_json [of d] in \<open>simp_all add: json_number_def\<close>)

lemma channel_matches_listed:
  "js_is_finite x \<Longrightarrow> js_is_finite f \<Longrightarrow>
   channel_matches (Some (num_json f)) (listed n x) = Some (flt \<bar>x - f\<bar> (lit (1 / 1000)))"
  by (simp add: channel_matches_def listed_def num_json_number)

lemma map_listed: "map readback (channels_from n (x # fs)) = listed n x # map readback (channels_from (n + 1) fs)"
  by (simp add: listed_def)

lemma find_listed_channel:
  assumes "list_all js_is_finite fs" "js_is_finite f"
  shows "js_find (channel_matches (Some (num_json f))) (map readback (channels_from (i + 1) fs)) =
    Some (case find_index_from i fs f of None \<Rightarrow> None | Some c \<Rightarrow> Some (listed c (fs ! nat (c - i - 1))))"
  using assms(1)
proof (induction fs arbitrary: i)
  case (Cons x fs)
  show ?case
  proof (cases "flt \<bar>x - f\<bar> (lit (1 / 1000))")
    case True
    with Cons.prems assms(2) show ?thesis by (simp only: map_listed) (simp add: channel_matches_listed)
  next
    case False
    have more: "fs ! nat (c - (i + 1) - 1) = (x # fs) ! nat (c - i - 1)" if "find_index_from (i + 1) fs f = Some c" for c
    proof -
      from find_index_from_Some [OF that] obtain k where "c = (i + 1) + int k + 1" by blast
      then have "nat (c - i - 1) = Suc (nat (c - (i + 1) - 1))" by simp
      then show ?thesis by simp
    qed
    show ?thesis using False Cons.IH [of "i + 1"] Cons.prems assms(2) more
      by (simp only: map_listed) (auto simp: channel_matches_listed split: option.splits)
  qed
qed simp

text \<open>C29. The page and the service agree on the channel: from the radio list that the gateway sends, the page derives for
  every radio exactly the channel index that the service itself finds for the radio's current frequency, and
  none when the service has none.\<close>

theorem listed_channel_agrees:
  assumes "descriptor_view V d = (st, caps)" "list_all js_is_finite (supported_frequencies_mhz caps)"
    and "flt (Fin 0) (current_frequency caps st)"
  shows "deriveChannelIndex (Some (readback (build_radio_item V d))) =
    Some (case find_channel_index caps (current_frequency caps st) of Some c \<Rightarrow> Some (readback (JInt c)) | None \<Rightarrow> null)"
proof -
  let ?fs = "supported_frequencies_mhz caps" and ?f = "current_frequency caps st"
  have "?f \<in> set ?fs \<or> ?f = Fin 0"
    by (auto simp: current_frequency_def vector_at_def split: option.splits)
  then have fin: "js_is_finite ?f" using assms(2) by (auto simp: list_all_iff js_is_finite_def)
  have "js_find (channel_matches (Some (num_json ?f))) (map readback (channels_from 1 ?fs)) =
      Some (case find_index_from 0 ?fs ?f of None \<Rightarrow> None | Some c \<Rightarrow> Some (listed c (?fs ! nat (c - 0 - 1))))"
    using find_listed_channel [OF assms(2) fin, of 0] by simp
  moreover have "\<not> js_nullish (Some (num_json ?f))" by (auto simp: js_nullish_def num_json_def split: double.splits)
  moreover have "js_truthy (Some (listed c x))" "js_prop ''index'' (Some (listed c x)) = Some (Some (readback (JInt c)))" for c x
    by (simp_all add: listed_def)
  ultimately show ?thesis using fin assms(3)
    by (simp add: deriveChannelIndex_def build_radio_item_def build_radio_state_def assms(1) positive_json_def channels_of_def
        js_or_def build_channels_def js_is_integer_def find_channel_index_def split: option.splits)
qed

definition demo_tuned :: "silvus_adapter radio_descriptor" where
  "demo_tuned = \<lparr>rd_id = ''r1'', rd_adapter_type = ''silvus'',
     rd_adapter = Some (demo_ready\<lparr>sa_state := (sa_state demo_ready)\<lparr>rs_channel_index := Some 2\<rparr>\<rparr>), rd_state = sa_state demo_ready\<rparr>"

theorem listed_channel_agrees_witness:
  "deriveChannelIndex (Some (readback (build_radio_item (silvus_ops demo) demo_tuned))) = Some (Some (JInt 2))"
proof -
  let ?caps = "sa_capabilities demo_adapter"
  let ?st = "(sa_state demo_ready)\<lparr>rs_channel_index := Some 2\<rparr>"
  have fs: "supported_frequencies_mhz ?caps = [Fin 2412, Fin 2437, Fin 2462]" by simp
  have view: "descriptor_view (silvus_ops demo) demo_tuned = (?st, ?caps)"
    by (simp add: descriptor_view_def demo_tuned_def silvus_ops_def)
  have fin: "list_all js_is_finite (supported_frequencies_mhz ?caps)" by (simp add: fs js_is_finite_def)
  have cur: "current_frequency ?caps ?st = Fin 2437" by (simp add: current_frequency_def fs vector_at_def)
  have "find_channel_index ?caps (Fin 2437) = Some 2"
    using demo_channel_index by (simp add: find_channel_index_def findChannelIndex_def)
  with listed_channel_agrees [OF view fin] show ?thesis by (simp add: cur num_json_def)
qed

lemma with_reply_accepted:
  assumes "json_parse_text t = Some body" "is_obj body" "json_find ''result'' body = js_str ''ok''"
  shows "with_reply br (Response 200 st (Some t)) f p = f (Some body) p"
  using assms by (simp add: with_reply_def with_body_def response_ok_def evaluate_apply reply_accepted_def obj_prop)

definition radio_list_body :: "('a, 'e) radio_adapter_ops \<Rightarrow> 'a radio_manager \<Rightarrow> string \<Rightarrow> json" where
  "radio_list_body V m cid = JObject [(''result'', JString ''ok''),
     (''data'', JObject [(''activeRadioId'', optional_json JString (active_radio_id m)),
        (''items'', JArray (map (build_radio_item V) (list_radios m)))]),
     (''correlationId'', JString cid)]"

lemma radio_list_response:
  assumes "buildRadioListResponse V P S g = Some (resp, g')"
  shows "\<exists>cid. resp = http_message 200 ''OK'' ''application/json; charset=utf-8''
    (json_dump P (radio_list_body V (radio_manager_of g) cid))"
  using assms
  by (auto simp: buildRadioListResponse_def okJson_def jsonResponse_def ok_body_def json_contains_def json_set_def
      radio_list_body_def Let_def split: prod.splits)

lemma calm_run: "calm I s \<Longrightarrow> I p \<Longrightarrow> \<exists>q. s p = (None, q) \<and> I q"
  by (metis calmD prod.collapse)

interpretation log: rendering_frame "\<lambda>p. Q (activeRadioId p, radioConsole p, clock p)" for Q
  by unfold_locales simp_all

lemma refresh_log: "activeRadioId (snd (refreshRadioDropdown p)) = activeRadioId p"
  "radioConsole (snd (refreshRadioDropdown p)) = radioConsole p" "clock (snd (refreshRadioDropdown p)) = clock p"
  using log.kept_refresh [of "\<lambda>x. x = (activeRadioId p, radioConsole p, clock p)"] by (simp_all add: keeps_def)


lemma plain_key: "k \<noteq> [] \<Longrightarrow> \<not> isdigit (hd k) \<Longrightarrow> \<not> is_index_key k"
  by (cases k) (auto simp: is_index_key_def)

lemma letter_no_digit [simp]: "\<not> is_index_key (c # k)" if "char_code c \<ge> 58" for c k
  using that by (intro plain_key) (auto simp: isdigit_def)

lemma demo_list: "list_radios (radio_manager_of demo_gateway) =
    [\<lparr>rd_id = ''r1'', rd_adapter_type = ''silvus'', rd_adapter = Some demo_ready, rd_state = sa_state demo_ready\<rparr>]"
  by (simp add: demo_gateway_def demo_system_def list_radios_def radio_manager_of_def)

lemma demo_view: "descriptor_view (silvus_ops demo)
    \<lparr>rd_id = ''r1'', rd_adapter_type = ''silvus'', rd_adapter = Some demo_ready, rd_state = sa_state demo_ready\<rparr> =
  (sa_state demo_ready, sa_capabilities demo_adapter)"
  by (simp add: descriptor_view_def silvus_ops_def)

lemma demo_powers: "fround (watts_to_dbm (dbmToWatts (Fin 0))) = Fin 0" "fround (watts_to_dbm (dbmToWatts (Fin 39))) = Fin 39"
  using fround_dbm_round_trip [of 0] fround_dbm_round_trip [of 39] dbmToWatts_pos [of 0] dbmToWatts_pos [of 39]
  by (simp_all add: watts_to_dbm_def)

lemma demo_state_json: "writable (power_json (sa_state demo_ready))"
  "writable (positive_json (current_frequency (sa_capabilities demo_adapter) (sa_state demo_ready)))"
  "writable (optional_bool_json (enable_max_power (sa_capabilities demo_adapter)))"
  by (simp_all add: power_json_def optional_json_def optional_bool_json_def positive_json_def current_frequency_def demo_ready_def
      default_radio_state_def split: option.split)

lemma demo_list_writable: "writable (radio_list_body (silvus_ops demo) (radio_manager_of demo_gateway) cid)"
  using demo_state_json
  by (simp add: radio_list_body_def demo_list build_radio_item_def build_radio_state_def demo_view build_channels_def
      demo_powers optional_json_def char_code_def split: option.split)


end
