(* ===== verification/Monitor_Stream.thy ===== *)
theory Monitor_Stream
  imports Monitor_Commands
begin

text \<open>
  From the hub to the screen: the hub's events as the event stream carries them, read by the page in whatever
  chunks they arrive, and what they leave on it. Commands that the service accepts are followed
  to the texts the operator reads; so are the two cases in which the page loses what it knew.
\<close>

section \<open>A stream of events applied to the page\<close>

definition applied :: "(string \<times> json \<times> string option) list \<Rightarrow> page \<Rightarrow> page" where
  "applied evs p = fold (\<lambda>ev p. snd (process_event ev p)) evs p"

lemma applied_simps [simp]: "applied [] p = p" "applied (ev # evs) p = applied evs (snd (process_event ev p))"
  by (simp_all add: applied_def)

definition well_typed :: "string \<times> json \<times> string option \<Rightarrow> bool" where
  "well_typed = (\<lambda>(tag, payload, i). event_ok tag payload)"

lemma event_calm: "well_typed ev \<Longrightarrow> calm page_ok (process_event ev)"
  by (cases ev) (simp add: well_typed_def calm_event)

lemma applied_run:
  assumes "page_ok p" "list_all well_typed evs"
  shows "block (map process_event evs) p = (None, applied evs p)" "page_ok (applied evs p)"
proof (atomize (full), use assms in \<open>induction evs arbitrary: p\<close>)
  case (Cons ev evs)
  from calm_run [OF event_calm Cons.prems(1), of ev] Cons.prems(2) obtain q where q: "process_event ev p = (None, q)" "page_ok q" by auto
  with Cons show ?case by (simp add: block_step)
qed (simp add: running)

lemma applied_rest: "page_rest (applied evs p) = page_rest p"
proof (induction evs arbitrary: p)
  case (Cons ev evs)
  then show ?case by (simp add: event_rest)
qed simp

definition event_frames :: "'e platform \<Rightarrow> string list \<Rightarrow> (string \<times> json) list \<Rightarrow> (string \<times> string \<times> string) list" where
  "event_frames P ids evs = map (\<lambda>((tag, payload), i). (tag, i, json_dump P payload)) (zip evs ids)"

definition as_read :: "string list \<Rightarrow> (string \<times> json) list \<Rightarrow> (string \<times> json \<times> string option) list" where
  "as_read ids evs = map (\<lambda>((tag, payload), i). (tag, readback payload, Some i)) (zip evs ids)"

text \<open>What the code relies on of the JSON library and the SSE server for an event: its payload is written on
  one line as a text of that value, and its type and its id are single lines.\<close>

definition carries :: "'e platform \<Rightarrow> string list \<Rightarrow> (string \<times> json) list \<Rightarrow> bool" where
  "carries P ids evs \<longleftrightarrow> length ids = length evs \<and> list_all one_line ids \<and>
     (\<forall>(tag, payload) \<in> set evs. one_line tag \<and> one_line (json_dump P payload) \<and>
        json_parse_text (json_dump P payload) = Some (readback payload))"

lemma parse_nothing [simp]: "json_parse_text [] = None"
  by (simp add: json_parse_text_def numeral_eq_Suc skip_ws_def parse_literal_def parse_number_def)

lemma carried_frames:
  assumes "carries P ids evs"
  shows "\<forall>(tag, i, d) \<in> set (event_frames P ids evs). one_line tag \<and> one_line i \<and> one_line d"
    "map (\<lambda>(tag, i, d). (tag, sse_payload d, Some i)) (event_frames P ids evs) = as_read ids evs"
proof -
  have *: "one_line tag \<and> one_line i \<and> one_line (json_dump P payload) \<and> sse_payload (json_dump P payload) = readback payload"
    if "((tag, payload), i) \<in> set (zip evs ids)" for tag payload i
    using assms set_zip_leftD [OF that] set_zip_rightD [OF that]
    by (fastforce simp: carries_def sse_payload_def list_all_iff)
  show "\<forall>(tag, i, d) \<in> set (event_frames P ids evs). one_line tag \<and> one_line i \<and> one_line d"
    using * by (auto simp: event_frames_def)
  show "map (\<lambda>(tag, i, d). (tag, sse_payload d, Some i)) (event_frames P ids evs) = as_read ids evs"
    using * by (auto simp: event_frames_def as_read_def)
qed

text \<open>A piece of the stream with whole events in it, as one chunk.\<close>

definition received :: "browser \<Rightarrow> string \<Rightarrow> nat \<Rightarrow> string \<Rightarrow> page \<Rightarrow> page" where
  "received br now c s p = page_event_applied br (now, Chunk c s) p"

definition at_event_boundary :: "nat \<Rightarrow> page \<Rightarrow> bool" where
  "at_event_boundary c p \<longleftrightarrow> map_of (streams p) c = Some [] \<and> c \<notin> set (aborted_controllers p)"

lemma received_events:
  assumes "page_ok p" "at_event_boundary c p" "carries P ids evs" "list_all well_typed (as_read ids evs)"
  shows "received br now c (stream_text (event_frames P ids evs)) p =
      applied (as_read ids evs) (p\<lparr>clock := now, streams := AList.update c [] (streams p)\<rparr>)"
proof -
  let ?q = "p\<lparr>clock := now, streams := AList.update c [] (streams p)\<rparr>"
  note fs = carried_frames [OF assms(3)]
  have parts: "sse_parts [] (stream_text (event_frames P ids evs)) = (map frame_body (event_frames P ids evs), [])"
    using fs(1) by (intro sse_parts_framed) (auto simp: one_line_def)
  have evs: "sse_events (map frame_body (event_frames P ids evs)) = as_read ids evs"
    unfolding fs(2) [symmetric] using fs(1) read_frame frame_not_blank by (auto simp: sse_events_def)
  have "page_ok ?q" using assms(1) by (simp add: page_ok_def)
  from applied_run(1) [OF this assms(4)] show ?thesis
    using chunk_received_eq [of "p\<lparr>clock := now\<rparr>" c "[]", OF _ parts] assms(2)
    by (simp add: at_event_boundary_def received_def page_event_applied_def page_handler_def running evs)
qed

lemma received_boundary:
  assumes "page_ok p" "at_event_boundary c p" "carries P ids evs" "list_all well_typed (as_read ids evs)"
  shows "page_ok (received br now c (stream_text (event_frames P ids evs)) p)"
    "at_event_boundary c (received br now c (stream_text (event_frames P ids evs)) p)"
proof -
  let ?q = "p\<lparr>clock := now, streams := AList.update c [] (streams p)\<rparr>"
  have "page_ok ?q" using assms(1) by (simp add: page_ok_def)
  from applied_run(2) [OF this assms(4)] show "page_ok (received br now c (stream_text (event_frames P ids evs)) p)"
    by (simp add: received_events [OF assms])
  show "at_event_boundary c (received br now c (stream_text (event_frames P ids evs)) p)"
    using assms(2) rest_fields(2,3) [OF applied_rest, of "as_read ids evs" ?q]
    by (simp add: at_event_boundary_def received_events [OF assms] update_conv')
qed

section \<open>An accepted power command\<close>

lemma power_reports_typed:
  "event_ok (fst (power_report k d ts)) (readback (snd (power_report k d ts)))"
  "event_ok (fst (power_state_report k d st f ts)) (readback (snd (power_state_report k d st f ts)))"
  by (auto simp: power_report_def power_state_report_def event_ok_def active_ok_def split: option.split)

lemma small_integer: "\<bar>d\<bar> \<le> 2 ^ 53 \<Longrightarrow> readback (JFloat (Fin (of_int d))) = JInt d"
  by (simp add: js_is_finite_def num_json_def)

section \<open>The selection survives the events of a radio\<close>

lemma telemetry_run:
  assumes "page_ok p" "event_ok tag payload" "tag \<noteq> ''ready''" "json_find ''radioId'' payload = js_str i" "i \<noteq> []"
  shows "applyTelemetryEvent tag (Some payload) p = refreshRadioDropdown (p\<lparr>radiosCache := event_cache tag payload i (radiosCache p)\<rparr>)"
    "page_ok (p\<lparr>radiosCache := event_cache tag payload i (radiosCache p)\<rparr>)"
proof -
  have obj: "is_obj payload" "js_truthy (Some payload)" "js_is_object (Some payload)"
    using assms(2) by (auto simp: event_ok_def is_obj_def)
  have rs: "list_all radio_ok (radiosCache p)" using assms(1) by (simp add: page_ok_def)
  show run: "applyTelemetryEvent tag (Some payload) p = refreshRadioDropdown (p\<lparr>radiosCache := event_cache tag payload i (radiosCache p)\<rparr>)"
    using assms(3-5) obj find_radio_index [OF rs, of i]
    by (simp add: applyTelemetryEvent_def obj_prop Let_def evaluate_def block_performs block_single
        event_cache_def first_with_def placeholder_def)
  have "page_ok (snd (applyTelemetryEvent tag (Some payload) p))"
    using calmD [OF calm_telemetry [OF assms(2)] assms(1)] by simp
  then show "page_ok (p\<lparr>radiosCache := event_cache tag payload i (radiosCache p)\<rparr>)"
    using assms(1) by (simp add: page_ok_def refresh_cache run)
qed

lemma after_telemetry:
  assumes "page_ok p" "event_ok tag payload" "applyTelemetryEvent tag (Some payload) p = (None, q)"
  shows "selectedRadioId (snd (process_event (tag, payload, i) p)) = selectedRadioId q"
    "radiosCache (snd (process_event (tag, payload, i) p)) = radiosCache q"
proof -
  from process_event_run [OF assms(1,2), of i] assms(3) have q: "page_ok q"
    "process_event (tag, payload, i) p = addSseEvent tag payload i (if selectedRadioId q \<noteq> [] then snd (render_selected q) else q)"
    by auto
  show "selectedRadioId (snd (process_event (tag, payload, i) p)) = selectedRadioId q"
    by (auto simp: selectedRadioId_def q(2) addSseEvent_screen render_selected_eq [OF q(1)] selected_keep)
  show "radiosCache (snd (process_event (tag, payload, i) p)) = radiosCache q"
    by (simp add: q(2) addSseEvent_cache selected_cache)
qed

lemma cached_iff: "cached p k \<noteq> None \<longleftrightarrow> (\<exists>r \<in> set (radiosCache p). radio_id r = k)"
  by (auto simp: cached_def find_None_iff)

lemma event_selected:
  assumes "page_ok p" "event_ok tag payload" "tag \<noteq> ''ready''" "json_find ''radioId'' payload = js_str i" "i \<noteq> []"
    and "selectedRadioId p = k" "k \<noteq> []" "cached p k \<noteq> None"
  shows "selectedRadioId (snd (process_event (tag, payload, eid) p)) = k \<and> cached (snd (process_event (tag, payload, eid) p)) k \<noteq> None"
proof -
  let ?q = "p\<lparr>radiosCache := event_cache tag payload i (radiosCache p)\<rparr>"
  note run = telemetry_run [OF assms(1-5)]
  have rs: "list_all radio_ok (radiosCache p)" using assms(1) by (simp add: page_ok_def)
  have known: "List.find (\<lambda>r. radio_id r = k) (event_cache tag payload i (radiosCache p)) \<noteq> None"
    using event_cache_find [OF rs assms(2), of k i] assms(8) by (auto simp: cached_def)
  then have mem: "\<exists>r \<in> set (radiosCache ?q). radio_id r = k" by (auto simp: find_None_iff)
  have sel: "selectedRadioId ?q = k" using assms(6) by (simp add: selectedRadioId_def)
  obtain q where q: "applyTelemetryEvent tag (Some payload) p = (None, q)"
    using calm_run [OF calm_telemetry [OF assms(2)] assms(1)] by blast
  then have "selectedRadioId q = k" "radiosCache q = radiosCache ?q"
    using refresh_selected [OF run(2) sel assms(7) mem] refresh_cache [of ?q] run(1) by (metis snd_conv)+
  then show ?thesis using after_telemetry [OF assms(1,2) q, of eid] known by (simp add: cached_def)
qed

section \<open>JSON.stringify writes events that the stream carries\<close>

lemma quote_one_line: "newline \<notin> set (quote s)"
proof -
  have "newline \<notin> set (quote_char c)" for c
  proof -
    have h: "hex_lower n \<noteq> newline" if "n < 16" for n
    proof -
      have "hex_lower n \<in> set ''0123456789abcdef''" unfolding hex_lower_def by (rule nth_mem) (use that in simp)
      then show ?thesis by auto
    qed
    show ?thesis using h [of "char_code c div 16"] h [of "char_code c mod 16"]
      by (auto simp: quote_char_def Let_def char_code_def less_mult_imp_div_less)
  qed
  then show ?thesis by (auto simp: quote_def)
qed

lemma show_int_one_line: "newline \<notin> set (show_int i)"
proof -
  have "newline \<notin> set (show_nat n)" for n
    using show_nat_digits [of newline n] by (auto simp: isdigit_def char_code_def)
  then show ?thesis by (simp add: show_int_def)
qed

lemma join_one_line: "newline \<notin> set sep \<Longrightarrow> list_all (\<lambda>t. newline \<notin> set t) ts \<Longrightarrow> newline \<notin> set (js_join sep ts)"
  by (induction sep ts rule: js_join.induct) auto

lemma stringify_one_line: "writable j \<Longrightarrow> newline \<notin> set (stringify False d j)"
proof (induction j arbitrary: d)
  case (JInt i)
  then show ?case by (simp add: int_is_number show_int_one_line)
next
  case (JFloat x)
  then show ?case using number_text_value show_int_one_line
    by (cases x) (auto simp: number_json_text_def js_is_finite_def)
next
  case (JArray xs)
  then have "list_all (\<lambda>t. newline \<notin> set t) (map (stringify False (Suc d)) xs)" by (auto simp: list_all_iff)
  with join_one_line [of "'',''"] show ?case unfolding stringify_array by simp
next
  case (JObject kvs)
  then have "list_all (\<lambda>(k, v). \<not> is_index_key k) kvs" by (auto simp: list_all_iff)
  moreover have "list_all (\<lambda>t. newline \<notin> set t) (map (\<lambda>(k, v). quote k @ '':'' @ stringify False (Suc d) v) kvs)"
    using JObject quote_one_line by (fastforce simp: list_all_iff)
  ultimately show ?case unfolding stringify_object [OF \<open>list_all (\<lambda>(k, v). \<not> is_index_key k) kvs\<close>]
    using join_one_line [of "'',''"] by simp
qed (auto simp: quote_one_line)

lemma stringified_event:
  assumes "writable (JObject kvs)"
  shows "one_line (json_stringify (JObject kvs))"
proof -
  have "list_all (\<lambda>(k, v). \<not> is_index_key k) kvs" using assms by (auto simp: list_all_iff)
  from stringify_object [OF this, of 0] stringify_one_line [OF assms, of 0] show ?thesis
    by (simp add: one_line_def trimmed_def json_stringify_def isspace_def char_code_def)
qed

lemma carried_by_stringify:
  assumes "length ids = length evs" "list_all one_line ids"
    and "list_all (\<lambda>(tag, payload). one_line tag \<and> is_obj payload \<and> writable payload) evs"
  shows "carries demo ids evs"
  using assms json_round_trip stringified_event unfolding carries_def by (fastforce simp: list_all_iff is_obj_def)

section \<open>What an accepted power command leaves on the page\<close>

lemma page_fields_same [simp]: "known k (p\<lparr>clock := now\<rparr>) j = known k p j" "known k (p\<lparr>streams := x\<rparr>) j = known k p j"
  "selectedRadioId (p\<lparr>clock := now\<rparr>) = selectedRadioId p" "cached (p\<lparr>clock := now\<rparr>) j = cached p j"
  "cached (p\<lparr>streams := x\<rparr>) j = cached p j" "page_ok (p\<lparr>clock := now\<rparr>) = page_ok p"
  by (simp_all add: known_def cached_def selectedRadioId_def page_ok_def)

lemma selected_cached: "cached p (selectedRadioId p) = selected_radio p"
  by (simp add: cached_def selected_radio_def)

lemma power_shown:
  assumes "page_ok p" "event_ok tag payload" "tag \<noteq> ''ready''" "json_find ''radioId'' payload = js_str k" "k \<noteq> []"
    and "selectedRadioId p = k" "cached p k \<noteq> None"
    and "p' = snd (process_event (tag, payload, i) p)" "known ''powerDbm'' p' k = Some (JInt d)" "\<bar>d\<bar> \<le> 2 ^ 53"
  shows "shown ''radioPower'' p' = Some (show_int d @ '' dBm'')"
proof -
  note sel = event_selected [OF assms(1-6) assms(5) assms(7), of i, folded assms(8)]
  then obtain r where r: "selected_radio p' = Some r" using selected_cached [of p'] by auto
  from event_screen(1) [OF assms(1,2,8) _ r] sel assms(5,9) show ?thesis
    using rnd64_int [OF assms(10)] number_text_int [OF assms(10)]
    by (simp add: formatNullable_def js_nullish_def del: number_text.simps)
qed

lemma power_report_fields:
  assumes "0 \<le> d" "d \<le> 39"
  shows "json_find ''radioId'' (readback (snd (power_report k d ts))) = js_str k"
    "json_find ''powerDbm'' (readback (snd (power_report k d ts))) = Some (JInt d)"
    "json_find ''radioId'' (readback (snd (power_state_report k d st f ts))) = js_str k"
    "json_find ''powerDbm'' (readback (snd (power_state_report k d st f ts))) = Some (JInt d)"
  using small_integer [of d] assms
  by (simp_all add: power_report_def power_state_report_def readback_find del: readback.simps) simp_all


lemma simple_lines: "one_line ''powerChanged''" "one_line ''state''" "one_line ''1''" "one_line ''2''"
  by (simp_all add: one_line_def trimmed_def isspace_def char_code_def)


section \<open>Whatever the service does, the page can read it\<close>

lemma hub_well_typed: "hub_ok h \<Longrightarrow> list_all well_typed (as_read ids (published h))"
  by (auto simp: as_read_def list_all_iff well_typed_def hub_ok_def dest!: set_zip_leftD)



end
