(* ===== verification/Monitor_Losses.thy ===== *)
theory Monitor_Losses
  imports Monitor_Stream
begin

text \<open>
  What the page loses without the operator doing anything: the heartbeat event redraws the controls, and every
  twelfth heartbeat brings the snapshot of the moment the service became ready once more.
\<close>

section \<open>Events that name no radio\<close>

lemma unaddressed_run:
  assumes "event_ok tag payload" "tag \<noteq> ''ready''" "json_find ''radioId'' payload = undef"
  shows "applyTelemetryEvent tag (Some payload) p = (None, p)"
  using assms by (auto simp: applyTelemetryEvent_def event_ok_def is_obj_def running)

definition heartbeat_event :: "string \<Rightarrow> string \<times> json" where
  "heartbeat_event ts = (''heartbeat'', JObject [(''ts'', JString ts)])"

lemma heartbeat_event_ok:
  "event_ok (fst (heartbeat_event ts)) (readback (snd (heartbeat_event ts)))"
  "fst (heartbeat_event ts) \<noteq> ''ready''" "json_find ''radioId'' (readback (snd (heartbeat_event ts))) = undef"
  by (simp_all add: heartbeat_event_def event_ok_def active_ok_def)

lemma heartbeat_known:
  assumes "page_ok p"
  shows "known k (snd (process_event (fst (heartbeat_event ts), readback (snd (heartbeat_event ts)), i) p)) j = known k p j"
  using after_telemetry(2) [OF assms heartbeat_event_ok(1) unaddressed_run [OF heartbeat_event_ok], of ts i]
  by (simp add: known_def cached_def)

text \<open>With a radio selected a heartbeat redraws everything that depends on it.\<close>

lemma heartbeat_redraws:
  assumes "page_ok p" "selected_radio p = Some r" "selectedRadioId p \<noteq> []"
  shows "process_event (fst (heartbeat_event ts), readback (snd (heartbeat_event ts)), i) p =
    addSseEvent (fst (heartbeat_event ts)) (readback (snd (heartbeat_event ts))) i (p\<lparr>texts := rendered r p, chanSel := channel_dropdown r\<rparr>)"
proof -
  from process_event_run [OF assms(1) heartbeat_event_ok(1), of ts i] unaddressed_run [OF heartbeat_event_ok, of ts p]
  have "process_event (fst (heartbeat_event ts), readback (snd (heartbeat_event ts)), i) p =
      addSseEvent (fst (heartbeat_event ts)) (readback (snd (heartbeat_event ts))) i (snd (render_selected p))"
    using assms(3) by auto
  then show ?thesis by (simp add: render_selected_run [OF assms(1,2)])
qed

lemma as_read_heartbeat: "as_read [i] [heartbeat_event ts] = [(fst (heartbeat_event ts), readback (snd (heartbeat_event ts)), Some i)]"
  by (simp add: as_read_def heartbeat_event_def)


definition demo_shown_radio :: json where
  "demo_shown_radio = JObject [(''id'', JString ''r1''), (''state'', JObject [(''powerDbm'', JInt 20)])]"

definition demo_watching :: page where
  "demo_watching = (loaded_page None [])\<lparr>streams := [(0, [])], radiosCache := [demo_shown_radio],
     radioSel := \<lparr>options = [(''r1'', ''r1'')], selectedIndex = Some 0\<rparr>\<rparr>"

lemma demo_watching_ok: "page_ok demo_watching" "at_event_boundary 0 demo_watching"
  "selected_radio demo_watching = Some demo_shown_radio" "selectedRadioId demo_watching = ''r1''"
  by (simp_all add: demo_watching_def demo_shown_radio_def page_ok_def radio_ok_def id_ok_def state_ok_def caps_ok_def
      loaded_page_def at_event_boundary_def selected_radio_def selectedRadioId_def dropdown_value_def radio_id_def)

lemma demo_carries_heartbeat: "carries demo [''1''] [heartbeat_event ''t'']"
  by (intro carried_by_stringify)
    (simp_all add: heartbeat_event_def one_line_def trimmed_def isspace_def char_code_def)


section \<open>The snapshot of every twelfth heartbeat\<close>

text \<open>Nothing but a readiness check that announces the service replaces the hub's snapshot.\<close>

lemma heartbeat_keeps_snapshot: "heartbeat_fired aborted ts h = (h', again) \<Longrightarrow> last_ready_payload h' = last_ready_payload h"
  by (auto simp: heartbeat_fired_def publishEvent_def Let_def split: if_splits option.splits)

lemma publish_keeps_snapshot:
  "last_ready_payload (sys_hub (publish (publishPowerChanged P i w) s)) = last_ready_payload (sys_hub s)"
  "last_ready_payload (sys_hub (publish (publishChannelChanged P i c f) s)) = last_ready_payload (sys_hub s)"
  "last_ready_payload (sys_hub (publish (publishRadioState P i st c w f) s)) = last_ready_payload (sys_hub s)"
  by (auto simp: publish_def publishPowerChanged_def publishChannelChanged_def publishRadioState_def publishEvent_def split: prod.split)

lemma execute_keeps_snapshot:
  "execute V P c s = Some (r, s') \<Longrightarrow> last_ready_payload (sys_hub s') = last_ready_payload (sys_hub s)"
  by (erule execute_cases) (auto elim!: selectRadio_cases setPower_cases setChannel_cases simp: publish_keeps_snapshot)

definition rechecks :: "service_event \<Rightarrow> bool" where
  "rechecks ev = (case ev of ReadinessChecked _ _ _ _ \<Rightarrow> True | _ \<Rightarrow> False)"

lemma run_keeps_snapshot:
  "service_run V P s tr s' \<Longrightarrow> \<not> list_ex rechecks tr \<Longrightarrow> last_ready_payload (sys_hub s') = last_ready_payload (sys_hub s)"
proof (induction rule: service_run.induct)
  case (turn s tr s' ev s'')
  then have "last_ready_payload (sys_hub s'') = last_ready_payload (sys_hub s')"
    by (auto elim!: service_stepE simp: rechecks_def execute_keeps_snapshot heartbeat_keeps_snapshot app_stop_def hub_stop_def)
  with turn show ?case by simp
qed simp

lemma snapshot_item_id: "radio_id (readback (snapshot_item V d)) = rd_id d"
  by (simp add: snapshot_item_def radio_id_def split: prod.split)

lemma snapshot_item_state:
  assumes "descriptor_view V d = (st, caps)"
  shows "snapshot_says ''powerDbm'' (readback (snapshot_item V d)) old =
      Some (readback (optional_json (\<lambda>w. JFloat (fround (wattsToDbmRaw w))) (rs_power_watts st)))"
    "snapshot_says ''frequencyMhz'' (readback (snapshot_item V d)) old = Some (readback (positive_json (current_frequency caps st)))"
  by (simp_all add: snapshot_says_def snapshot_item_def assms)

definition ready_event :: "('a, 'e) radio_adapter_ops \<Rightarrow> 'a radio_manager \<Rightarrow> string \<times> json" where
  "ready_event V m = (''ready'', JObject [(''snapshot'', build_ready_snapshot V m)])"

lemma ready_event_ok: "event_ok (fst (ready_event V m)) (readback (snd (ready_event V m)))"
  using ready_snapshot_ok [of V m] by (simp add: ready_event_def del: readback.simps)

lemma find_snapshot_item:
  "distinct (map rd_id ds) \<Longrightarrow> d \<in> set ds \<Longrightarrow>
   List.find (\<lambda>x. radio_id x = rd_id d) (map (\<lambda>d. readback (snapshot_item V d)) ds) = Some (readback (snapshot_item V d))"
proof (induction ds)
  case (Cons e ds)
  then show ?case by (cases "e = d") (auto simp: snapshot_item_id simp del: readback.simps)
qed simp

lemma snapshot_arrives:
  assumes "page_ok p" "distinct (map rd_id (list_radios m))" "d \<in> set (list_radios m)"
  shows "known k (snd (process_event (fst (ready_event V m), readback (snd (ready_event V m)), i) p)) (rd_id d) =
    snapshot_says k (readback (snapshot_item V d)) (known k p (rd_id d))"
proof -
  let ?xs = "map (\<lambda>d. readback (snapshot_item V d)) (list_radios m)"
  have "ready_payload (Some (readback (optional_json JString (active_radio_id m)))) ?xs (readback (snd (ready_event V m)))"
    by (simp add: ready_payload_def ready_event_def build_ready_snapshot_def comp_def)
  moreover have "distinct (map radio_id ?xs)" using assms(2) by (simp add: comp_def snapshot_item_id)
  moreover have "List.find (\<lambda>x. radio_id x = rd_id d) ?xs = Some (readback (snapshot_item V d))"
    by (rule find_snapshot_item [OF assms(2,3)])
  ultimately show ?thesis
    using ready_replaces_facts [OF assms(1) ready_event_ok [of V m, unfolded ready_event_def fst_conv], of _ ?xs k i "rd_id d"]
    by (simp add: ready_event_def)
qed


lemma demo_no_power: "rs_power_watts (sa_state demo_ready) = None"
  by (simp add: demo_ready_def default_radio_state_def)

lemma demo_snapshot_writable: "writable (snd (ready_event (silvus_ops demo) (sys_radios demo_system)))"
  using demo_list demo_state_json(2)
  by (simp add: ready_event_def build_ready_snapshot_def snapshot_item_def demo_view demo_gateway_def radio_manager_of_def
      optional_json_def char_code_def demo_no_power split: option.split)

lemma announced: "readiness_check V True True now deadline (s\<lparr>sys_hub := h\<rparr>) =
    (Announced, s\<lparr>sys_hub := publishReady (build_ready_snapshot V (sys_radios s)) h\<rparr>)"
  by (simp add: readiness_check_def)


end
