(* ===== verification/Monitor_Requests.thy ===== *)
theory Monitor_Requests
  imports Monitor_Losses
begin

text \<open>
  The commands of the page as the gateway takes them: from the controls on the screen to the handler that
  runs the command, through the URL, the headers and the JSON body of the request.
\<close>

section \<open>A request on its way\<close>

text \<open>A fetch as the gateway's HTTP server hands it over: header names in lower case, the path as sent.\<close>

definition arriving :: "fetch_request \<Rightarrow> http_request" where
  "arriving r = \<lparr>req_method = fetch_method r, req_path = fetch_url r,
     req_headers = map_of (map (\<lambda>(k, v). (map tolower k, v)) (fetch_headers r)),
     req_body = (case fetch_body r of None \<Rightarrow> [] | Some b \<Rightarrow> b)\<rparr>"

lemma arriving_post:
  "req_method (arriving (post_request url body p)) = ''POST''" "req_path (arriving (post_request url body p)) = url"
  "req_body (arriving (post_request url body p)) = json_stringify (js_object body)"
  "req_headers (arriving (post_request url body p)) ''authorization'' =
     (if globalToken p = [] then None else Some (''Bearer '' @ globalToken p))"
proof -
  have "map tolower ''Authorization'' = ''authorization''" "map tolower ''Content-Type'' = ''content-type''"
    by code_simp+
  then show "req_headers (arriving (post_request url body p)) ''authorization'' =
     (if globalToken p = [] then None else Some (''Bearer '' @ globalToken p))"
    by (simp add: arriving_def post_request_def apiHeaders_def)
qed (simp_all add: arriving_def post_request_def)

lemma radio_route_handled:
  assumes "list_all uri_unreserved k" "k \<noteq> []" "req_path req = radio_route k what" "what = ''power'' \<or> what = ''channel''"
    "req_method req = ''POST''"
  shows "handleRadiosPrefix V P S cfg req g =
    with_auth P S cfg AccessLevel.Control (if what = ''power'' then handleSetPower V P S k else handleSetChannel V P S k) req g"
proof -
  have "CHR ''/'' \<notin> set k"
    using assms(1) by (auto simp: list_all_iff uri_unreserved_def isdigit_def char_code_def tolower_def)
  then have f: "str_find (CHR ''/'') (k @ CHR ''/'' # what) = Some (length k)" by (rule str_find_append)
  have "path_suffix (req_path req) = Some (k @ CHR ''/'' # what)"
    by (simp add: assms(3) radio_route_def API_BASE_def path_suffix_def encodeURIComponent_id [OF assms(1)])
  then show ?thesis using assms(2,4,5) f
    by (auto simp: handleRadiosPrefix_def with_auth_def Let_def)
qed

section \<open>Set Power\<close>

lemma find_selected: "page_ok p \<Longrightarrow> js_find (has_id (js_str (selectedRadioId p))) (radiosCache p) = Some (selected_radio p)"
  by (simp add: find_radio page_ok_def selected_radio_def)

lemma setPower_sends:
  assumes "page_ok p" "selectedRadioId p = k" "outstanding (snd (page_setPower p)) = outstanding p @ [(n, PowerCall, r)]"
  shows "k \<noteq> [] \<and> r = post_request (radio_route k ''power'') [(''powerDbm'', Some (num_json (text_number (pwrDbm p))))] p \<and>
    (\<exists>lo hi. power_bound ''minPowerDbm'' (Fin 0) (js_or (selected_radio p) null) = Some lo \<and>
       power_bound ''maxPowerDbm'' (Fin 39) (js_or (selected_radio p) null) = Some hi \<and>
       js_is_finite (text_number (pwrDbm p)) \<and> \<not> flt (text_number (pwrDbm p)) lo \<and> \<not> flt hi (text_number (pwrDbm p)))"
  using assms(3)
  by (cases "power_bound ''minPowerDbm'' (Fin 0) (js_or (selected_radio p) null)";
      cases "power_bound ''maxPowerDbm'' (Fin 39) (js_or (selected_radio p) null)")
    (auto simp: page_setPower_def running Let_def evaluate_apply find_selected [OF assms(1)] send_def
      post_request_def apiHeaders_def assms(2) [symmetric] split: if_splits)

text \<open>An empty box counts as 0 dBm.\<close>

lemma empty_power_box: "text_number [] = Fin 0" "js_is_finite (text_number [])"
  by (simp_all add: text_number_def js_trim_def js_is_finite_def split: prod.split)

text \<open>C24. The Set Power button commands the selected radio with the number in the box: when it sends a request at all, the
  number lies within the bounds the page knows of that radio, and the gateway takes the request, whatever its state,
  as a power command with control rights for exactly that radio and that number, with the page's bearer token; a number outside 0 to 39 is
  refused by the gateway, and no other radio can be meant as long as ids need no URL encoding.\<close>

theorem page_power_reaches_radio:
  assumes "page_ok p" "selectedRadioId p = k" "list_all uri_unreserved k"
    and "text_number (pwrDbm p) = Fin (of_int d)" "\<bar>d\<bar> \<le> 2 ^ 53"
    and "outstanding (snd (page_setPower p)) = outstanding p @ [(n, PowerCall, r)]"
    and "json_parse P (json_stringify (JObject [(''powerDbm'', JInt d)])) = Some (JObject [(''powerDbm'', JInt d)])"
  shows "(\<exists>lo hi. power_bound ''minPowerDbm'' (Fin 0) (js_or (selected_radio p) null) = Some lo \<and>
      power_bound ''maxPowerDbm'' (Fin 39) (js_or (selected_radio p) null) = Some hi \<and>
      \<not> flt (Fin (of_int d)) lo \<and> \<not> flt hi (Fin (of_int d))) \<and>
    req_headers (arriving r) ''authorization'' = (if globalToken p = [] then None else Some (''Bearer '' @ globalToken p)) \<and>
    handleRadiosPrefix V P S cfg (arriving r) g = with_auth P S cfg AccessLevel.Control (handleSetPower V P S k) (arriving r) g \<and>
    handleSetPower V P S k (arriving r) g =
      (if d < 0 \<or> 39 < d then out_of_range P S ''Power must be between 0 and 39 dBm'' g
       else do {
         (res, s) \<leftarrow> setPower V P k (fpow10 (Fin (of_int d) / Fin 10) / Fin 1000) (gw_sys g);
         answer_command P S res (JObject [(''powerDbm'', JFloat (Fin (of_int d)))]) (g\<lparr>gw_sys := s\<rparr>)
       })"
proof -
  note sent = setPower_sends [OF assms(1,2,6), THEN conjunct1] setPower_sends [OF assms(1,2,6), THEN conjunct2, THEN conjunct1]
    setPower_sends [OF assms(1,2,6), THEN conjunct2, THEN conjunct2]
  have num: "num_json (Fin (of_int d)) = JInt d" using small_integer [OF assms(5)] by (simp add: js_is_finite_def)
  have r: "r = post_request (radio_route k ''power'') [(''powerDbm'', Some (JInt d))] p" using sent(2) assms(4) num by simp
  have body: "json_parse P (req_body (arriving r)) = Some (JObject [(''powerDbm'', JInt d)])"
    using assms(7) by (simp add: r arriving_post js_object_def)
  have number: "json_number (JInt d) = Some (Fin (of_int d))"
    using rnd64_int [OF assms(5)] by (simp add: json_number_def)
  have "handleSetPower V P S k (arriving r) g =
      (if d < 0 \<or> 39 < d then out_of_range P S ''Power must be between 0 and 39 dBm'' g
       else do {
         (res, s) \<leftarrow> setPower V P k (fpow10 (Fin (of_int d) / Fin 10) / Fin 1000) (gw_sys g);
         answer_command P S res (JObject [(''powerDbm'', JFloat (Fin (of_int d)))]) (g\<lparr>gw_sys := s\<rparr>)
       })"
    by (simp add: handleSetPower_def body number)
  moreover have "handleRadiosPrefix V P S cfg (arriving r) g = with_auth P S cfg AccessLevel.Control (handleSetPower V P S k) (arriving r) g"
    using radio_route_handled [OF assms(3) sent(1), of "arriving r" "''power''" V P S cfg g] by (simp add: r arriving_post)
  moreover have "req_headers (arriving r) ''authorization'' = (if globalToken p = [] then None else Some (''Bearer '' @ globalToken p))"
    unfolding r by (rule arriving_post(4))
  ultimately show ?thesis using sent(3) [unfolded assms(4)] by blast
qed

lemma ten: "text_number ''10'' = Fin (of_int 10)"
proof -
  have d: "list_all isdigit ''10''" by code_simp
  have v: "digit_val CHR ''1'' = 1" "digit_val CHR ''0'' = 0" by code_simp+
  have e: "decimal_value ''10'' = Some 10"
    using strtod_mag_delimited [OF d, of "[]"] by (simp add: v decimal_value_def exponent_ok_def digits_value_def char_code_def)
  show ?thesis using rnd64_int [of 10] by (simp add: text_number_def e js_trim_def isspace_def char_code_def tolower_def)
qed

lemma demo_power_request: "outstanding (snd (page_setPower demo_watching)) = outstanding demo_watching @
    [(0, PowerCall, post_request (radio_route ''r1'' ''power'') [(''powerDbm'', Some (JInt 10))] demo_watching)]"
proof -
  have "power_bound k x (Some demo_shown_radio) = Some x" for k x
    by (simp add: power_bound_def demo_shown_radio_def js_is_finite_def)
  moreover have "requests demo_watching = 0" "pwrDbm demo_watching = ''10''" by (simp_all add: demo_watching_def loaded_page_def)
  moreover have "\<not> js_eq (js_opt ''manualPowerControl'' (js_opt ''capabilities'' (Some demo_shown_radio))) (Some (JBool False))"
    by (simp add: demo_shown_radio_def js_eq_def)
  moreover have "num_json (Fin 10) = JInt 10" "js_truthy (Some demo_shown_radio)"
    by (simp_all add: num_json_def demo_shown_radio_def)
  ultimately show ?thesis
    using find_selected [OF demo_watching_ok(1)] demo_watching_ok(3,4) ten
    by (simp add: page_setPower_def running Let_def evaluate_apply send_def js_or_def js_is_finite_def post_request_def apiHeaders_def)
qed

theorem page_power_reaches_radio_witness:
  "\<exists>r. outstanding (snd (page_setPower demo_watching)) = outstanding demo_watching @ [(0, PowerCall, r)] \<and>
    handleRadiosPrefix (silvus_ops demo) demo demo_services demo_open (arriving r) demo_gateway =
      with_auth demo demo_services demo_open AccessLevel.Control (handleSetPower (silvus_ops demo) demo demo_services ''r1'')
        (arriving r) demo_gateway"
proof -
  have k: "list_all uri_unreserved ''r1''" by code_simp
  have "writable (JObject [(''powerDbm'', JInt 10)])" by (simp add: char_code_def)
  from json_round_trip [OF this] have body: "json_parse demo (json_stringify (JObject [(''powerDbm'', JInt 10)])) =
      Some (JObject [(''powerDbm'', JInt 10)])"
    using rnd64_int [of 10] by (simp add: num_json_def)
  have p10: "text_number (pwrDbm demo_watching) = Fin (of_int 10)" by (simp add: demo_watching_def loaded_page_def ten [simplified])
  have "\<bar>10 :: int\<bar> \<le> 2 ^ 53" by simp
  from page_power_reaches_radio [OF demo_watching_ok(1,4) k p10 this demo_power_request body] demo_power_request
  show ?thesis by blast
qed

section \<open>Set Channel\<close>

lemma setChannel_sends:
  assumes "selectedRadioId p = k" "outstanding (snd (page_setChannel p)) = outstanding p @ [(n, ChannelCall, r)]"
  shows "k \<noteq> [] \<and> \<not> flt (parse_int (dropdown_value (chanSel p))) (Fin 1) \<and>
    r = post_request (radio_route k ''channel'') [(''channelIndex'', Some (num_json (parse_int (dropdown_value (chanSel p)))))] p"
  using assms(2)
  by (auto simp: page_setChannel_def running Let_def send_def post_request_def apiHeaders_def assms(1) [symmetric] split: if_splits)

text \<open>C25. The Set Channel button commands the channel in the list: when the list stands at a channel index and the
  button sends a request, the gateway takes it, whatever its state, as a channel command with
  control rights for the selected radio, by that index alone; an index outside the radio's profile
  is refused and an unknown radio not found.\<close>

theorem page_channel_reaches_radio:
  assumes "selectedRadioId p = k" "list_all uri_unreserved k" "dropdown_value (chanSel p) = show_nat i" "i < 2 ^ 31"
    and "outstanding (snd (page_setChannel p)) = outstanding p @ [(n, ChannelCall, r)]"
    and "json_parse P (json_stringify (JObject [(''channelIndex'', JInt (int i))])) = Some (JObject [(''channelIndex'', JInt (int i))])"
  shows "1 \<le> i \<and>
    req_headers (arriving r) ''authorization'' = (if globalToken p = [] then None else Some (''Bearer '' @ globalToken p)) \<and>
    handleRadiosPrefix V P S cfg (arriving r) g = with_auth P S cfg AccessLevel.Control (handleSetChannel V P S k) (arriving r) g \<and>
    handleSetChannel V P S k (arriving r) g =
      (case get_adapter (radio_manager_of g) k of
         None \<Rightarrow> not_found P S ''Radio not found'' g
       | Some a \<Rightarrow>
           if int (length (supported_frequencies_mhz (op_capabilities V a))) < int i
           then out_of_range P S ''channelIndex is outside supported range'' g
           else do {
             (res, s) \<leftarrow> setChannel V P k (int i) (gw_sys g);
             answer_command P S res (JObject [(''channelIndex'', JInt (int i)),
               (''frequencyMhz'', positive_json (supported_frequencies_mhz (op_capabilities V a) ! (i - 1)))]) (g\<lparr>gw_sys := s\<rparr>)
           })"
proof -
  note sent = setChannel_sends [OF assms(1,5)]
  have i: "parse_int (show_nat i) = Fin (of_nat i)" using assms(4) by (intro parse_int_show_nat) simp
  have pos: "1 \<le> i" using sent by (simp add: assms(3) i)
  have r: "r = post_request (radio_route k ''channel'') [(''channelIndex'', Some (JInt (int i)))] p"
    using sent assms(4) by (simp add: assms(3) i num_json_def)
  have body: "json_parse P (req_body (arriving r)) = Some (JObject [(''channelIndex'', JInt (int i))])"
    using assms(6) by (simp add: r arriving_post js_object_def)
  have index: "int32_of (int i) = int i" using assms(4) signed_take_bit_int_eq_self [of 31 "int i"]
    by (simp add: int32_of_def signed_of_nat)
  have "handleSetChannel V P S k (arriving r) g =
      (case get_adapter (radio_manager_of g) k of
         None \<Rightarrow> not_found P S ''Radio not found'' g
       | Some a \<Rightarrow>
           if int (length (supported_frequencies_mhz (op_capabilities V a))) < int i
           then out_of_range P S ''channelIndex is outside supported range'' g
           else do {
             (res, s) \<leftarrow> setChannel V P k (int i) (gw_sys g);
             answer_command P S res (JObject [(''channelIndex'', JInt (int i)),
               (''frequencyMhz'', positive_json (supported_frequencies_mhz (op_capabilities V a) ! (i - 1)))]) (g\<lparr>gw_sys := s\<rparr>)
           })"
    using pos
    by (auto simp: handleSetChannel_def body requested_index_def requested_frequency_def index resolve_channel_def
        vector_at_def nat_diff_distrib split: option.split)
  moreover have "handleRadiosPrefix V P S cfg (arriving r) g = with_auth P S cfg AccessLevel.Control (handleSetChannel V P S k) (arriving r) g"
    using radio_route_handled [OF assms(2), of "arriving r" "''channel''" V P S cfg g] sent by (simp add: r arriving_post)
  moreover have "req_headers (arriving r) ''authorization'' = (if globalToken p = [] then None else Some (''Bearer '' @ globalToken p))"
    unfolding r by (rule arriving_post(4))
  ultimately show ?thesis using pos by blast
qed

lemma two: "show_nat 2 = ''2''"
  by (subst show_nat.simps) code_simp

definition demo_choosing :: page where
  "demo_choosing = demo_watching\<lparr>chanSel := \<lparr>options = [(''2'', ''Ch 2 | 2437 MHz'')], selectedIndex = Some 0\<rparr>\<rparr>"

lemma demo_choosing_ok: "selectedRadioId demo_choosing = ''r1''" "dropdown_value (chanSel demo_choosing) = show_nat 2"
  "outstanding demo_choosing = []" "requests demo_choosing = 0"
  by (simp_all add: demo_choosing_def demo_watching_def selectedRadioId_def dropdown_value_def loaded_page_def two)

theorem page_channel_reaches_radio_witness:
  "\<exists>r. outstanding (snd (page_setChannel demo_choosing)) = outstanding demo_choosing @ [(0, ChannelCall, r)] \<and>
    handleRadiosPrefix (silvus_ops demo) demo demo_services demo_open (arriving r) demo_gateway =
      with_auth demo demo_services demo_open AccessLevel.Control (handleSetChannel (silvus_ops demo) demo demo_services ''r1'')
        (arriving r) demo_gateway"
proof -
  have k: "list_all uri_unreserved ''r1''" by code_simp
  have "writable (JObject [(''channelIndex'', JInt 2)])" by (simp add: char_code_def)
  from json_round_trip [OF this] have body: "json_parse demo (json_stringify (JObject [(''channelIndex'', JInt (int 2))])) =
      Some (JObject [(''channelIndex'', JInt (int 2))])"
    using rnd64_int [of 2] by (simp add: num_json_def)
  have "parse_int (show_nat 2) = Fin (of_nat 2)" by (rule parse_int_show_nat) simp
  then have "\<exists>r. outstanding (snd (page_setChannel demo_choosing)) = outstanding demo_choosing @ [(0, ChannelCall, r)]"
    using demo_choosing_ok by (simp add: page_setChannel_def running Let_def send_def is_integral_def)
  then obtain r where r: "outstanding (snd (page_setChannel demo_choosing)) = outstanding demo_choosing @ [(0, ChannelCall, r)]" ..
  have "(2::nat) < 2 ^ 31" by simp
  from page_channel_reaches_radio [OF demo_choosing_ok(1) k demo_choosing_ok(2) this r body] r show ?thesis by blast
qed

section \<open>Where the page looks for the stream\<close>

text \<open>C32. The page finds the event stream on its own exactly when the SSE port is the one after the command port: with the
  page loaded from the command port, the URL it fills in is the SSE endpoint that the service
  announces to discovery for that host if and only if no other SSE port is configured and the next port exists.\<close>

theorem default_sse_url_is_announced:
  assumes "location_protocol br = ''http:''" "location_port br = show_nat (unat (command_port (cfg_network cfg)))"
  shows "map_of (discovery_endpoints cfg (location_hostname br)) ''sse'' = Some (defaultSseUrl br) \<longleftrightarrow>
    unat (effective_sse_port cfg) = unat (command_port (cfg_network cfg)) + 1"
proof -
  define n where "n = unat (command_port (cfg_network cfg))"
  have small: "n < 65536" using unsigned_less [of "command_port (cfg_network cfg)"] by (simp add: n_def)
  then have "parse_int (show_nat n) = Fin (of_nat n)" by (intro parse_int_show_nat) simp
  moreover have "Fin (of_nat n) + Fin 1 = Fin (of_int (int (n + 1)))"
    using rnd64_int [of "int (n + 1)"] small by (simp add: add.commute)
  moreover have "number_text (Fin (of_int (int (n + 1)))) = show_nat (n + 1)"
    using number_text_int [of "int (n + 1)"] small by (simp add: show_int_def nat_add_distrib del: number_text.simps)
  ultimately have "defaultSseUrl br = ''http://'' @ location_hostname br @ '':'' @ show_nat (n + 1) @ ''/api/v1/telemetry''"
    using assms by (simp add: defaultSseUrl_def js_is_finite_def Let_def n_def [symmetric] del: number_text.simps)
  moreover have "show_nat m = show_nat n \<longleftrightarrow> m = n" for m n using show_nat_props by metis
  ultimately show ?thesis by (simp add: discovery_endpoints_def Let_def n_def)
qed

theorem default_sse_url_is_announced_witness:
  "defaultSseUrl (demo_browser\<lparr>location_protocol := ''http:'', location_port := show_nat (unat (command_port (cfg_network default_config)))\<rparr>) =
    ''http://'' @ location_hostname demo_browser @ '':'' @ show_nat (unat (effective_sse_port default_config)) @ ''/api/v1/telemetry''"
proof -
  have "unat (effective_sse_port default_config) = unat (command_port (cfg_network default_config)) + 1"
    by (simp add: default_config_def effective_sse_port_def default_network_def default_telemetry_def)
  with default_sse_url_is_announced [of "demo_browser\<lparr>location_protocol := ''http:'',
      location_port := show_nat (unat (command_port (cfg_network default_config)))\<rparr>" default_config]
  show ?thesis by (simp add: discovery_endpoints_def Let_def)
qed

end
