(* ===== verification/Mock_Web_Page.thy ===== *)
theory Mock_Web_Page
  imports Silvus_Mock Js_Round_Trip Demo_Platform
begin

text \<open>
  The script of the simulated radio's web page (web_assets.cpp). A step takes the page to its next state, or is
  None when the script throws there, which ends the function that runs it and leaves the page as the steps
  before made it. The two functions are cut at their fetch: what they send, and what the answer does.
\<close>

section \<open>The page\<close>

record web_page =
  shown_frequency :: string
  shown_power :: string
  shown_available :: string
  shown_blackout :: string
  shown_profiles :: string
  rpc_log :: string
  freq_input :: string
  power_input :: string

definition fresh_web_page :: web_page where
  "fresh_web_page = \<lparr>shown_frequency = ''-'', shown_power = ''-'', shown_available = ''-'', shown_blackout = ''-'',
     shown_profiles = ''Loading...'', rpc_log = ''Ready.'', freq_input = ''4700.0'', power_input = ''30''\<rparr>"

fun run_steps :: "('p \<Rightarrow> 'p option) list \<Rightarrow> 'p \<Rightarrow> bool \<times> 'p" where
  "run_steps [] p = (True, p)"
| "run_steps (s # ss) p = (case s p of None \<Rightarrow> (False, p) | Some q \<Rightarrow> run_steps ss q)"

text \<open>node.textContent = v: null and undefined clear it.\<close>

definition text_content :: "js \<Rightarrow> string option" where
  "text_content v = (if js_nullish v then Some [] else js_text v)"

definition show_text :: "(string \<Rightarrow> web_page \<Rightarrow> web_page) \<Rightarrow> (js option) \<Rightarrow> web_page \<Rightarrow> web_page option" where
  "show_text put v p = map_option (\<lambda>t. put t p) (Option.bind v text_content)"

definition fetchStatus :: "string \<times> string" where
  "fetchStatus = (''GET'', ''/status'')"

definition status_answered :: "js \<Rightarrow> web_page \<Rightarrow> bool \<times> web_page" where
  "status_answered answer = run_steps
     [show_text (\<lambda>t p. p\<lparr>shown_frequency := t\<rparr>) (js_prop ''frequency'' answer),
      show_text (\<lambda>t p. p\<lparr>shown_power := t\<rparr>) (js_prop ''power_dBm'' answer),
      show_text (\<lambda>t p. p\<lparr>shown_available := t\<rparr>)
        (map_option (\<lambda>a. js_str (if js_truthy a then ''yes'' else ''no'')) (js_prop ''available'' answer)),
      show_text (\<lambda>t p. p\<lparr>shown_blackout := t\<rparr>)
        (do { b \<leftarrow> js_prop ''blackoutUntil'' answer;
              n \<leftarrow> js_number b;
              Some (if flt (Fin 0) n then b else js_str ''0'') }),
      show_text (\<lambda>t p. p\<lparr>shown_profiles := t\<rparr>)
        (map_option (\<lambda>v. map_option (\<lambda>j. JString (stringify True 0 j)) v) (js_prop ''supported_frequency_profiles'' answer))]"

text \<open>What the call at the end of the script does when it fails.\<close>

definition status_failed :: "string \<Rightarrow> web_page \<Rightarrow> web_page" where
  "status_failed err p = p\<lparr>rpc_log := ''Failed to load status: '' @ err\<rparr>"

text \<open>The request body of sendRpc; now is Date.now().\<close>

definition web_rpc :: "string \<Rightarrow> json list \<Rightarrow> nat \<Rightarrow> json" where
  "web_rpc method params now =
     JObject [(''jsonrpc'', JString ''2.0''), (''method'', JString method), (''params'', JArray params),
       (''id'', JString (method @ ''-'' @ show_nat now))]"

definition sendRpc :: "string \<Rightarrow> json list \<Rightarrow> nat \<Rightarrow> string \<times> string \<times> string" where
  "sendRpc method params now = (''POST'', ''/streamscape_api'', json_stringify (web_rpc method params now))"

definition rpc_answered :: "json \<Rightarrow> web_page \<Rightarrow> web_page" where
  "rpc_answered data p = p\<lparr>rpc_log := stringify True 0 data @ [CHR 0x0A, CHR 0x0A] @ rpc_log p\<rparr>"

datatype web_click = SetFreq | SetPower | RefreshStatus | Zeroize | RadioReset | FactoryReset

definition web_clicked :: "web_click \<Rightarrow> nat \<Rightarrow> web_page \<Rightarrow> string \<times> string \<times> string" where
  "web_clicked b now p =
     (case b of
        SetFreq \<Rightarrow> sendRpc ''freq'' [JString (js_trim (freq_input p))] now
      | SetPower \<Rightarrow> sendRpc ''power_dBm'' [JString (js_trim (power_input p))] now
      | RefreshStatus \<Rightarrow> (fst fetchStatus, snd fetchStatus, [])
      | Zeroize \<Rightarrow> sendRpc ''zeroize'' [] now
      | RadioReset \<Rightarrow> sendRpc ''radio_reset'' [] now
      | FactoryReset \<Rightarrow> sendRpc ''factory_reset'' [] now)"

section \<open>The page and the simulated radio\<close>

lemma read_int: "\<bar>i\<bar> \<le> 2 ^ 53 \<Longrightarrow> readback (JInt i) = JInt i"
  using rnd64_int [of i] by (simp add: num_json_def)

lemma text_int: "\<bar>i\<bar> \<le> 2 ^ 53 \<Longrightarrow> js_text (Some (JInt i)) = Some (show_int i)"
  using rnd64_int [of i] number_text_int [of i] by (simp del: number_text.simps)

text \<open>The page shows the radio: after a status answer, the frequency text, the power, the availability and the
  whole seconds of blackout left are those of the simulated radio at the time of the answer, and nothing throws.\<close>

theorem web_page_shows_radio:
  assumes "get_status P m e = (status, e')" "steady_now P e = (now, e1)"
    and "\<bar>current_power_dBm m\<bar> \<le> 2 ^ 53" "(blackout_until m - now) div 10 ^ 9 \<le> 2 ^ 53"
    and "status_answered (Some (readback status)) p = (completed, p')"
  shows "completed \<and> shown_frequency p' = current_frequency_text m \<and> shown_power p' = show_int (current_power_dBm m) \<and>
    shown_available p' = (if fst (is_available P m e1) then ''yes'' else ''no'') \<and>
    shown_blackout p' = show_int (max 0 ((blackout_until m - now) div 10 ^ 9)) \<and>
    shown_profiles p' = stringify True 0 (readback (JArray (map profile_json (mock_profiles m)))) \<and> rpc_log p' = rpc_log p"
proof -
  let ?left = "if blackout_until m - now < 0 then 0 else (blackout_until m - now) div 10 ^ 9"
  have left: "?left = max 0 ((blackout_until m - now) div 10 ^ 9)" "\<bar>?left\<bar> \<le> 2 ^ 53"
    using assms(4) by (auto simp: max_def pos_imp_zdiv_nonneg_iff div_neg_pos_less0)
  have zero: "show_int 0 = ''0''" by (simp add: show_int_def) (subst show_nat.simps, code_simp)
  note ints = read_int [OF assms(3)] text_int [OF assms(3)] read_int [OF left(2)] text_int [OF left(2)]
  have "json_to_number (JInt ?left) = Some (Fin (of_int ?left))" using rnd64_int [OF left(2)] by simp
  then show ?thesis
    using assms(1,2,5) ints zero left(1)
    by (auto simp: get_status_def Let_def status_answered_def show_text_def text_content_def js_nullish_def
        simp del: json_text.simps(3) split: prod.splits if_splits)
qed

theorem web_page_shows_radio_witness:
  "let p = snd (status_answered (Some (readback (fst (get_status demo (make_mock ''0'') 5)))) fresh_web_page)
   in shown_frequency p = ''4700.0'' \<and> shown_available p = ''yes''"
proof -
  obtain status e' where s: "get_status demo (make_mock ''0'') 5 = (status, e')" by fastforce
  obtain c p where p: "status_answered (Some (readback status)) fresh_web_page = (c, p)" by fastforce
  have m: "current_frequency_text (make_mock ''0'') = ''4700.0''" "current_power_dBm (make_mock ''0'') = 30" "blackout_until (make_mock ''0'') = 0"
    by (simp_all add: make_mock_def)
  have now: "steady_now demo 5 = (5, 6)" by simp
  have ranges: "\<bar>current_power_dBm (make_mock ''0'')\<bar> \<le> 2 ^ 53" "(blackout_until (make_mock ''0'') - 5) div 10 ^ 9 \<le> 2 ^ 53"
    by (simp_all add: m)
  from web_page_shows_radio [OF s now ranges p] have "shown_frequency p = ''4700.0''"
      "shown_available p = (if fst (is_available demo (make_mock ''0'') 6) then ''yes'' else ''no'')"
    unfolding m by blast+
  then show ?thesis by (simp add: s p is_available_def m)
qed

text \<open>A button of the page runs the method it names with the trimmed text of its box, unless the radio is in
  its blackout; every other request answers as refused.\<close>

theorem web_commands_reach_radio:
  assumes "json_parse P (json_stringify (web_rpc method params now)) = Some (web_rpc method params now)"
  shows "serve_api what P (json_stringify (web_rpc method params now)) m e =
    (let (available, e) = is_available P m e; rid = JString (method @ ''-'' @ show_nat now)
     in if \<not> available then
          Some (make_http_response (json_dump P (make_error (-32000) ''UNAVAILABLE'' [] rid)) ''application/json'', m, e)
        else map_option (\<lambda>(r, m, e). (make_http_response (json_dump P r) ''application/json'', m, e))
               (mock_method P method params rid m e))"
proof -
  have "json_stringify (web_rpc method params now) \<noteq> []"
    by (simp add: web_rpc_def json_stringify_def bracketed_def Let_def)
  then show ?thesis
    using assms
    by (simp add: serve_api_def handle_jsonrpc_text_def handle_jsonrpc_def request_shape_def web_rpc_def params_of_def Let_def
        map_option_case split: prod.split option.split bind_split)
qed

end
