(* ===== verification/Service_Parts.thy ===== *)
theory Service_Parts
  imports Service_Wiring
begin

text \<open>
  What the constructors of the service's parts hand to dts-common: the settings of the event stream
  (TelemetryHub::Impl), of the REST server (ApiGateway::Impl) and of the audit file (AuditLogger::Impl).
\<close>

record sse_settings =
  ss_ring :: "nat \<times> int"
  ss_bearer_secret :: string
  ss_rate_limit :: "int \<times> nat"
  ss_endpoint :: "string \<times> 16 word"
  ss_max_clients :: nat
  ss_idle_timeout :: int
  ss_cors :: bool
  ss_path :: string

record hub_settings =
  hs_container_id :: string
  hs_deployment :: string
  hs_sse :: sse_settings
  hs_heartbeat_interval :: int

definition makeSseEndpoint :: "config \<Rightarrow> string \<times> 16 word" where
  "makeSseEndpoint cfg =
     (bind_address (cfg_network cfg),
      if 0 < sse_port (cfg_telemetry cfg) then sse_port (cfg_telemetry cfg) else command_port (cfg_network cfg) + 1)"

text \<open>The rate limit is per minute, in seconds.\<close>

definition make_hub_settings :: "'e platform \<Rightarrow> config \<Rightarrow> 'e \<Rightarrow> hub_settings \<times> 'e" where
  "make_hub_settings P cfg e =
     (let t = cfg_telemetry cfg; (secret, e) = effective_sse_secret P cfg e
      in (\<lparr>hs_container_id = container_id (cfg_container cfg), hs_deployment = deployment (cfg_container cfg),
            hs_sse = \<lparr>ss_ring = (event_buffer_size t, event_retention t), ss_bearer_secret = secret,
              ss_rate_limit = (60, max_sse_clients t), ss_endpoint = makeSseEndpoint cfg,
              ss_max_clients = max_sse_clients t, ss_idle_timeout = client_idle_timeout t, ss_cors = True,
              ss_path = ''/api/v1/telemetry''\<rparr>,
            hs_heartbeat_interval = heartbeat_interval t\<rparr>, e))"

text \<open>No address means every IPv4 interface.\<close>

record rest_settings =
  rs_endpoint :: "string option \<times> 16 word"
  rs_token_secret :: string
  rs_dev_access :: bool

definition make_rest_settings :: "16 word \<Rightarrow> string \<Rightarrow> bool \<Rightarrow> rest_settings" where
  "make_rest_settings restPort tokenSecret devAccess =
     \<lparr>rs_endpoint = (None, restPort), rs_token_secret = tokenSecret, rs_dev_access = devAccess\<rparr>"

record audit_settings =
  as_file :: string
  as_enabled :: bool
  as_rotation :: "nat \<times> nat"

definition make_audit_settings :: "audit_config \<Rightarrow> audit_settings" where
  "make_audit_settings c =
     \<lparr>as_file = file_path c, as_enabled = audit_enabled c, as_rotation = (rotate_after_bytes c, rotated_file_count c)\<rparr>"

section \<open>One configuration, one set of listeners\<close>

text \<open>The parts agree with the wiring of Application::initialize: the stream listens at the endpoint and under the
  secret recorded there, on the port that discovery announces; the REST server listens on the command port of
  every interface, whatever bind address is configured.\<close>

theorem parts_follow_wiring:
  assumes "app_initialize L load_document P version argv e0 = (Inr w, e1)" "make_config_manager L load_document (config_path argv) e0 = (Inr cm, e)"
  shows "let cfg = config_current cm; hub = fst (make_hub_settings P cfg e);
             rest = make_rest_settings (w_rest_port w) (fst (w_rest_security w)) (snd (w_rest_security w))
         in ss_endpoint (hs_sse hub) = w_sse_bind w \<and> ss_bearer_secret (hs_sse hub) = w_sse_secret w \<and>
            snd (ss_endpoint (hs_sse hub)) = effective_sse_port cfg \<and>
            rs_endpoint rest = (None, command_port (cfg_network cfg)) \<and>
            rs_token_secret rest = token_secret (cfg_security cfg)"
  using assms
  by (auto simp: app_initialize_def make_hub_settings_def make_rest_settings_def makeSseEndpoint_def effective_sse_port_def Let_def
      split: prod.splits)

end
