(* ===== verification/Program_Entry.thy ===== *)
theory Program_Entry
  imports Service_Parts Silvus_Mock
begin

text \<open>
  The two programs: main and Application::run of the service, and main, the accept loop of the maintenance port
  and the error paths of the HTTP server of the simulated radio. Whether a port can be bound and how a server
  ends are outcomes of the outside world.
\<close>

section \<open>The service\<close>

text \<open>main catches nothing, so an exception out of initialize ends the process; after it the service runner of
  dts-common gives the exit code.\<close>

datatype program_end = Exited int | Terminated config_error

definition application_run ::
  "'n yaml_lib \<Rightarrow> (string \<Rightarrow> 'e \<Rightarrow> (config_error + 'n) \<times> 'e) \<Rightarrow> (wired_service \<Rightarrow> 'e \<Rightarrow> int \<times> 'e) \<Rightarrow> 'e platform \<Rightarrow> string \<Rightarrow>
   string list \<Rightarrow> 'e \<Rightarrow> program_end \<times> 'e" where
  "application_run L load_document runner_run P version argv e =
     (case app_initialize L load_document P version argv e of
        (Inl err, e) \<Rightarrow> (Terminated err, e)
      | (Inr w, e) \<Rightarrow> (case runner_run w e of (code, e) \<Rightarrow> (Exited code, e)))"

section \<open>The simulated radio\<close>

text \<open>One turn of the accept loop: the flag as the loop tests it, the connection or the failed accept, and the flag as
  the handler of a failure reads it. The connections go to threads of their own in the order accepted; the
  number counts the errors logged.\<close>

type_synonym accept_turn = "bool \<times> string option \<times> bool"

fun accept_loop :: "accept_turn list \<Rightarrow> string list \<times> nat" where
  "accept_loop [] = ([], 0)"
| "accept_loop ((running, outcome, still) # turns) =
     (if \<not> running then ([], 0)
      else (let (connections, errors) = accept_loop turns
            in case outcome of
                 Some received \<Rightarrow> (received # connections, errors)
               | None \<Rightarrow> (connections, if still then errors + 1 else errors)))"

text \<open>How an attempt to start or run a server can end.\<close>

datatype server_end = Ended | SystemError string | OtherError string

definition http_server_log :: "int \<Rightarrow> server_end \<Rightarrow> string list" where
  "http_server_log port outcome =
     (case outcome of
        Ended \<Rightarrow> []
      | SystemError what \<Rightarrow>
          [''[silvus-mock] REST server failed: '' @ what,
           ''[silvus-mock] Hint: Port '' @ show_int port @ '' may be already in use. Check for another silvus-mock instance or set SILVUS_MOCK_HTTP_PORT.'']
      | OtherError what \<Rightarrow> [''[silvus-mock] REST server fatal error: '' @ what])"

definition mock_main_log :: "int \<Rightarrow> int \<Rightarrow> server_end \<Rightarrow> string list" where
  "mock_main_log http_port maintenance_port outcome =
     (case outcome of
        Ended \<Rightarrow> []
      | SystemError what \<Rightarrow>
          [''[silvus-mock] Failed to start server: '' @ what,
           ''[silvus-mock] Hint: Port '' @ show_int http_port @ '' (HTTP) or '' @ show_int maintenance_port @
             '' (maintenance) may already be in use. Check for another silvus-mock instance or change ports.'']
      | OtherError what \<Rightarrow> [''[silvus-mock] Fatal error: '' @ what])"

text \<open>open_port says how binding the maintenance port ends, serve how the HTTP server does; the HTTP server is not
  started when the maintenance port cannot be bound. The result is the exit code and the error log.\<close>

definition mock_main :: "string option \<Rightarrow> string option \<Rightarrow> (int \<Rightarrow> server_end) \<Rightarrow> (int \<Rightarrow> server_end) \<Rightarrow> int \<times> string list" where
  "mock_main http_env maintenance_env open_port serve =
     (let http_port = env_port http_env 80; maintenance_port = env_port maintenance_env 50000
      in case open_port maintenance_port of
           Ended \<Rightarrow>
             (let outcome = serve http_port; errors = http_server_log http_port outcome @ mock_main_log http_port maintenance_port outcome
              in (if outcome = Ended then 0 else 1, errors))
         | failed \<Rightarrow> (1, mock_main_log http_port maintenance_port failed))"

text \<open>No connection is lost and none invented: until the flag is cleared every accepted connection is handed on, in order.\<close>

lemma accept_loop_all:
  "list_all (\<lambda>(running, _, _). running) turns \<Longrightarrow>
   fst (accept_loop turns) = List.map_filter (\<lambda>(_, outcome, _). outcome) turns"
  by (induction turns) (auto simp: map_filter_simps split: prod.splits option.splits)

lemma accept_loop_stops:
  "accept_loop (turns @ (False, outcome, still) # later) = accept_loop turns"
  by (induction turns) (auto split: prod.splits)

text \<open>The exit code says whether both servers ran to their end, and a failure is always explained on the error log.\<close>

theorem mock_main_explains:
  "fst (mock_main h m open_port serve) = (if open_port (env_port m 50000) = Ended \<and> serve (env_port h 80) = Ended then 0 else 1) \<and>
   (snd (mock_main h m open_port serve) = [] \<longleftrightarrow> fst (mock_main h m open_port serve) = 0)"
  by (auto simp: mock_main_def Let_def mock_main_log_def http_server_log_def split: server_end.split)

end
