(* ===== verification/Spec2Isabelle.thy ===== *)
theory Spec2Isabelle
  imports Control_Spec Service_Wiring Mock_Link Heartbeat_Timer Monitor_Requests Mock_Web_Page Program_Entry
begin

text \<open>
  The radio control container (rcc): a service that lets clients select radios, set their power
  and channel over a REST interface, and follow their state as a stream of events. This
  development models the C++ code under rcc/src and the simulated radio under silvus-mock/src
  and proves what makes them correct.

  The parts and how they interact. A client's request reaches the gateway (api_gateway.cpp),
  which asks the authenticator (authenticator.cpp) and calls the orchestrator
  (orchestrator.cpp). The orchestrator looks the radio up in the radio manager
  (radio_manager.cpp), calls the radio's adapter (silvus_adapter.cpp), publishes events through
  the telemetry hub (telemetry_hub.cpp) and writes one entry per command to the operations log
  (audit_logger.cpp). The application (application.cpp) builds all of it from a configuration,
  starts it, polls for readiness and stops it. The gateway serves the monitor page
  (monitor_page.hpp), whose script is the operator's client: it sends commands to the gateway, reads
  the event stream and shows the radios. The simulated radio has a web page of its own (web_assets.cpp).

  Theories, bottom up.
    Rcc_Prelude          shared vocabulary: option as undefined behaviour, lists, association lists, and
                         the interfaces keyed_store and append_log
    Trace_Systems        the interfaces trace_system and trace_refinement
    Double               IEEE binary64 with its rounding, comparisons and the cast to int
    Decibel              dBm and watts in double arithmetic, with error bounds
    Cpp_Strings          text functions of the C++ library: stod, stoi, stoull, fixed output
    Json                 JSON values
    Common_Types         common/types.hpp, adapter/radio_adapter.hpp (data)
    Http_Client          silvus_adapter.cpp: parseEndpoint, sendHttpPost; the platform record
    Demo_Platform        a concrete outside world for witnesses
    Silvus_Wire          silvus_adapter.cpp: numbers, vendor errors, scalar results
    Frequency_Profiles   silvus_adapter.cpp: addFrequencySpec, parseSupportedFrequencies, findChannelIndex
    Radio_Adapter        IRadioAdapter as a record of functions and a locale of laws
    Silvus_Adapter       silvus_adapter.cpp: the adapter, and its interpretation of that locale
    Config_Types         config/types.hpp
    Radio_Manager        radio_manager.cpp
    Timestamps           gmtime_r and strftime as telemetry_hub.cpp and api_gateway.cpp use them
    Telemetry_Hub        telemetry_hub.cpp: events, ready snapshot, heartbeat handler
    Heartbeat_Timer      telemetry_hub.cpp: start, stop and the heartbeat timer on its strand
    Audit_Logger         audit_logger.cpp
    Orchestrator         orchestrator.cpp
    Command_System       the three commands under one step function
    Application          application.cpp and the service as a transition system
    Control_Spec         the service as clients see it, and the refinement to it
    Authenticator        authenticator.cpp
    Base64_Url           api_gateway.cpp: b64url against RFC 4648
    Api_Gateway          api_gateway.cpp: routes, handlers, responses
    Config_Loader        config_manager.cpp
    Service_Wiring       application.cpp: initialize, start; telemetry_hub.cpp: effective_sse_secret
    Silvus_Mock          silvus-mock: silvus_mock.cpp, http_server.cpp, maintenance_server.cpp
    Mock_Agreement       the mock's invariant and blackout; mock and adapter read profiles alike
    Mock_Link            the adapter connected to the mock, end to end
    Js_Values            the script language's values, conversions and library functions the pages use
    Js_Json              JSON.stringify and JSON.parse
    Js_Round_Trip        what JSON.parse reads back of JSON.stringify
    Sse_Stream           monitor_page.hpp, connectSse: the buffer, the parts and the fields of an event
    Sse_Frames           events framed as the stream format says are read back
    Page_Document        monitor_page.hpp: variables, document, rendering, radio list, event console
    Monitor_Page         monitor_page.hpp: requests and answers, the stream, init; the page as a transition system
    Page_Facts           reasoning about the script's statements; chunks of the stream do not matter
    Page_Invariants      the invariants of the connection and of the event console
    Page_Data            the type of the cached radios, and that no statement throws on it
    Page_Effects         what an event leaves in the cache and on the screen
    Monitor_Link         what the service sends has the type the page expects
    Monitor_Commands     the radio list and the channel of a radio, as page and service see them
    Monitor_Stream       the hub's events on the page: an accepted power command, any run of the service
    Monitor_Losses       what a heartbeat takes away from the page
    Monitor_Requests     the page's commands as the gateway takes them; the address of the stream
    Mock_Web_Page        web_assets.cpp and the simulated radio
    Service_Parts        the settings the constructors pass to dts-common
    Program_Entry        the two programs: exit codes, error logs, the accept loop of the maintenance port
    Spec2Isabelle        this theory: properties that span components

  State and operations. Each class is a record of its data members; each method is a function
  that takes the state and the outside world and returns the result, the new state and the new
  world. The radio manager holds the adapters' states; get_adapter and put_adapter read and
  write the one shared object behind the code's shared pointer. Methods that hold a mutex are
  atomic steps; concurrent requests are sequences of such steps (service_run), and the commands
  of the orchestrator, which lock only piecewise in the code, are taken one at a time.

  The pages. The record page holds the script's variables and the parts of the document the script reads
  or writes; a statement of the script is a function from the page to the page and the exception it ends
  with, if any. An async function is cut at each await: the first half leaves a request in the list
  outstanding, the second runs when the answer comes (page_event Answered), so answers, pieces of the
  stream and the operator's clicks come in any order; page_run is a sequence of them. A value of the
  script is json option, undefined being None. What the service publishes reaches the page as a value
  read back from its JSON text (readback), in the chunks the network makes of it.

  Undefined behaviour. A function whose code can leave the language's defined behaviour returns
  an option: None for an index outside a vector, a cast of a double outside int, std::sort on a
  list that mixes NaN with numbers, an exception that no caller catches. Errors of the program
  are values of its result types. Allocation failure is not modelled.

  Parameters. TCP, the clocks and nlohmann's parse and dump form the record platform; the token
  validator of dts-common is the record token_service; the health calculation, HMAC and the generated
  version texts are the record gateway_services; yaml-cpp's node access and the typed readers of
  dts-common are the record yaml_lib; the address of the page and the wording of the browser's own errors are the
  record browser. Nothing is assumed of them unless a
  theorem says so. std::pow and std::log10 are taken to be correctly rounded and the two signed
  zeros are identified.

  What the lemmas show. Double and Decibel: rounding is monotone, exact on representable values
  and within half a unit in the last place; the dBm conversions are inverse on the integers from
  0 to 39 after rounding. Cpp_Strings and Silvus_Wire: printed numerals are read back. Http_Client:
  a framed reply is read back, for any number of headers; its reading loop consumes a line at a
  time, which is its termination measure. Frequency_Profiles: ranges expand to their grid, lookup is
  first match. Silvus_Adapter: the recovery window, the requests sent, the frame of every operation,
  the laws of the interface. Radio_Manager, Orchestrator, Command_System: the manager's invariant,
  one case rule per command, isolation, journal and events, proved for every adapter that satisfies
  the laws and used at the Silvus adapter. Application: reachable states, readiness within 41
  checks of a 2 s deadline at 50 ms, readable endpoints. Telemetry_Hub: heartbeat counts up to the
  64-bit tick counter, time stamps that sort. Heartbeat_Timer: whatever threads call start and stop, the
  next heartbeat comes within an interval, n heartbeats take n intervals, and after stop there are none. Authenticator: decisions equal the configured policy. Control_Spec: every run is,
  through an abstraction function, a run of the specification of the clients. Base64_Url: the bit loop
  over a wrapping size_t equals the block-wise encoding. Api_Gateway: a request runs at most one command
  and only with control rights, every request the router passes on is answered, responses are read back
  by the HTTP client. Config_Loader: a loaded file has complete entries and sound power bounds unless
  one is NaN, and the older keys win. Service_Wiring: both interfaces are closed unless opened.
  Silvus_Mock, Mock_Agreement, Mock_Link: the simulated radio keeps its invariant under any input, its
  blackout cannot be shortened, it accepts exactly the whole megahertz the adapter lists (profile bounds
  up to 2^20), and a channel change carries through adapter, HTTP and mock with the adapter's recovery
  window covering the blackout. The inductive predicates service_run, spec_run, timer_run,
  mock_reachable and config_run are the runs of the service, of its specification, of the heartbeat
  timer, of the mock and of the configuration manager; the first three are interpretations of
  trace_system, and the service with its specification of trace_refinement. The heartbeat's interval is a
  parameter, any number of clock ticks from 0 on.

  Not modelled: sockets and threads themselves (asio; its strand and timer are the queue and the pending
  wait of Heartbeat_Timer, in the order in which handlers are posted), the SSE server, event bus, router,
  rate limiter, discovery sockets and log files of dts-common, the text level of YAML, console output
  other than which warning is given, the mark-up and style sheets of the two pages, and of the browser
  what their scripts do not read: layout, scrolling, the decoding of UTF-8 cut inside a character (a chunk is
  taken as its decoded bytes), white space beyond ASCII in trim, and the difference between the engine's
  own TypeErrors.
\<close>



text \<open>C12. The operations log is a complete and faithful journal: along any run it grows by exactly one
  entry per command, in order, with the action, the radio, the parameters and the outcome of that
  command, and nothing else ever writes to it.\<close>

theorem audit_is_complete:
  assumes "service_run V P s tr s'"
  shows "sys_audit s' = sys_audit s @ concat (map audited tr)"
  using assms service_step_audit by (rule service.run_appends)

theorem audit_is_complete_witness:
  "sys_audit (snd (selectRadio ''r9'' demo_system)) =
     [audit_entry ''selectRadio'' ''r9'' (JObject []) (command_result Code.NotFound ''Radio not found'' None)]"
proof -
  obtain r s' where sel: "selectRadio ''r9'' demo_system = (r, s')" by fastforce
  have r: "r = command_result Code.NotFound ''Radio not found'' None"
    using sel by (simp add: selectRadio_def set_active_radio_def demo_system_def Let_def)
  have "service_run (silvus_ops demo) demo demo_system ([] @ [Commanded (SelectRadio ''r9'') r]) s'"
    by (rule service_run.turn [OF service_run.idle], rule service_step.command) (simp add: sel)
  moreover have "sys_audit demo_system = []" by (simp add: demo_system_def)
  ultimately show ?thesis using audit_is_complete by (fastforce simp: sel r)
qed

text \<open>C3. A power command for an integer number of dBm that the service accepts is reported to clients
  as that number: the adapter holds its value in watts, and exactly two events follow, powerChanged and
  state, both with the dBm the client meant.\<close>

theorem power_command_reported:
  assumes "setPower (silvus_ops P) P k (dbmToWatts (Fin (of_int d))) s = Some (r, s')"
    and "cr_code r = Code.Ok" "0 \<le> d" "d \<le> 39"
  shows "\<exists>a' ts1 ts2 f. get_adapter (sys_radios s') k = Some a' \<and>
    rs_power_watts (sa_state a') = Some (dbmToWatts (Fin (of_int d))) \<and>
    published (sys_hub s') = published (sys_hub s) @
      [(''powerChanged'', JObject [(''radioId'', JString k), (''powerDbm'', JFloat (Fin (of_int d))), (''ts'', JString ts1)]),
       (''state'', JObject [(''radioId'', JString k), (''status'', JString ''online''),
          (''powerDbm'', JFloat (Fin (of_int d))), (''ts'', JString ts2),
          (''channelIndex'', case rs_channel_index (sa_state a') of Some c \<Rightarrow> if 0 < c then JInt c else JNull | None \<Rightarrow> JNull),
          (''frequencyMhz'', if flt (Fin 0) f then JFloat f else JNull)])]"
  using assms
proof (cases rule: accepted_power_reports)
  case (1 a a' f ts1 ts2)
  then show ?thesis
    by (intro exI [of _ a'] exI [of _ ts1] exI [of _ ts2] exI [of _ f]) (simp add: power_report_def power_state_report_def)
qed

theorem power_command_reported_witness:
  "\<exists>r s' ts1 ts2 c f. setPower (silvus_ops demo) demo ''r1'' (dbmToWatts (Fin 20)) demo_system = Some (r, s') \<and>
    published (sys_hub s') =
      [(''powerChanged'', JObject [(''radioId'', JString ''r1''), (''powerDbm'', JFloat (Fin 20)), (''ts'', JString ts1)]),
       (''state'', JObject [(''radioId'', JString ''r1''), (''status'', JString ''online''),
          (''powerDbm'', JFloat (Fin 20)), (''ts'', JString ts2), (''channelIndex'', c), (''frequencyMhz'', f)])]"
proof -
  obtain s' where s': "setPower (silvus_ops demo) demo ''r1'' (dbmToWatts (Fin 20)) demo_system =
      Some (command_result Code.Ok ''OK'' None, s')" using demo_setPower by blast
  moreover have "published (sys_hub demo_system) = []" by (simp add: demo_system_def initial_hub_def)
  ultimately show ?thesis using power_command_reported [of demo "''r1''" 20 demo_system _ s'] by fastforce
qed

text \<open>C4. On a radio whose profile consists of distinct positive whole megahertz, an accepted channel
  command ends with the radio on exactly that channel: the adapter holds the requested index, clients
  are told the index and the frequency of the profile at that index, and the state event says that the
  radio is recovering.\<close>

theorem channel_command_reported:
  assumes "setChannel (silvus_ops P) P k i s = Some (r, s')" "cr_code r = Code.Ok"
    and "get_adapter (sys_radios s) k = Some a"
    and "distinct (supported_frequencies_mhz (sa_capabilities a))"
    and "\<forall>f \<in> set (supported_frequencies_mhz (sa_capabilities a)). whole_mhz f \<and> flt (Fin 0) f"
  shows "\<exists>a' ts1 ts2 pw. get_adapter (sys_radios s') k = Some a' \<and> rs_channel_index (sa_state a') = Some i \<and>
    published (sys_hub s') = published (sys_hub s) @
      [(''channelChanged'', JObject [(''radioId'', JString k),
          (''frequencyMhz'', JFloat (supported_frequencies_mhz (sa_capabilities a) ! nat (i - 1))),
          (''channelIndex'', JInt i), (''ts'', JString ts1)]),
       (''state'', JObject [(''radioId'', JString k), (''status'', JString ''recovering''),
          (''powerDbm'', pw), (''ts'', JString ts2), (''channelIndex'', JInt i),
          (''frequencyMhz'', JFloat (supported_frequencies_mhz (sa_capabilities a) ! nat (i - 1)))])]"
proof -
  let ?fs = "supported_frequencies_mhz (sa_capabilities a)" and ?f = "supported_frequencies_mhz (sa_capabilities a) ! nat (i - 1)"
  from setChannel_accepted [OF assms(1,2)] assms(3) obtain ar a' e w t1 t2 where
    x: "1 \<le> i" "i \<le> int (length ?fs)" "silvus_set_channel P i ?f a (sys_env s) = Some (ar, a', e)"
      "ar_code ar = CommandResultCode.Ok" "get_adapter (sys_radios s') k = Some a'"
      "published (sys_hub s') = published (sys_hub s) @ [channel_event k i ?f t1,
       (''state'', state_payload k (status_to_string (rs_status (op_state (silvus_ops P) a'))) i w ?f t2)]"
    by (auto simp: silvus_ops_def) metis
  have "?f \<in> set ?fs" using x(1,2) by simp
  then have pos: "flt (Fin 0) ?f" using assms(5) by blast
  have "findChannelIndex (sa_capabilities a) ?f = Some i"
    using find_index_own [of "sa_capabilities a" "nat (i - 1)"] assms(4,5) x(1,2) by simp
  with set_channel_outcome [OF x(3)] x(4)
  have "rs_channel_index (sa_state a') = Some i \<and> rs_status (sa_state a') = RadioStatus.Recovering" by simp
  with x(1,5,6) pos show ?thesis
    by (intro exI [of _ a'] exI [of _ t1] exI [of _ t2] exI [of _ "power_dbm_json w"])
      (auto simp: channel_event_def state_payload_def normalize_status_def silvus_ops_def)
qed

theorem channel_command_reported_witness:
  "\<exists>r s' a'. setChannel (silvus_ops demo) demo ''r1'' 2 demo_system = Some (r, s') \<and>
    get_adapter (sys_radios s') ''r1'' = Some a' \<and> rs_channel_index (sa_state a') = Some 2"
proof -
  obtain s' where s': "setChannel (silvus_ops demo) demo ''r1'' 2 demo_system =
      Some (command_result Code.Ok ''OK'' None, s')" using demo_setChannel by blast
  have "\<forall>f \<in> set (supported_frequencies_mhz (sa_capabilities demo_ready)). whole_mhz f \<and> flt (Fin 0) f"
    using demo_profile by simp
  from channel_command_reported [OF s' _ demo_get _ this] s' show ?thesis by fastforce
qed

text \<open>C18. Radios are isolated from one another: a command for one radio, whatever its outcome, leaves
  the adapter of every other radio and the set of registered radios as they were, and only an accepted
  selectRadio changes the active radio, to the one it names.\<close>

theorem command_isolation:
  assumes "execute V P c s = Some (r, s')"
  shows "(\<forall>j. j \<noteq> target c \<longrightarrow> get_adapter (sys_radios s') j = get_adapter (sys_radios s) j) \<and>
    map fst (radios (sys_radios s')) = map fst (radios (sys_radios s)) \<and>
    active_radio_id (sys_radios s') =
      (case c of SelectRadio k \<Rightarrow> if cr_code r = Code.Ok then Some k else active_radio_id (sys_radios s)
       | _ \<Rightarrow> active_radio_id (sys_radios s))"
  using execute_frame [OF assms] execute_keys [OF assms] execute_active [OF assms] by blast

theorem command_isolation_witness:
  "\<exists>r s'. execute (silvus_ops demo) demo (SelectRadio ''r1'') demo_system = Some (r, s') \<and>
     active_radio_id (sys_radios s') = Some ''r1''"
proof -
  obtain r s' where "selectRadio ''r1'' demo_system = (r, s')" by fastforce
  then have sel: "execute (silvus_ops demo) demo (SelectRadio ''r1'') demo_system = Some (r, s')" by simp
  moreover have "cr_code r = Code.Ok"
    using sel by (auto simp: selectRadio_def set_active_radio_def demo_system_def Let_def)
  ultimately show ?thesis using command_isolation [OF sel] by simp
qed

text \<open>C19. A refused command is invisible to clients: whatever the reason, no event is published and no
  radio's current power or channel changes.\<close>

theorem refused_command:
  assumes "execute (silvus_ops P) P c s = Some (r, s')" "cr_code r \<noteq> Code.Ok"
  shows "sys_hub s' = sys_hub s \<and> settings (sys_radios s') sa_state j = settings (sys_radios s) sa_state j"
  using execute_refused_hub [OF assms] execute_refused_settings [OF assms] by blast

theorem refused_command_witness:
  "\<exists>r s'. execute (silvus_ops demo) demo (SetChannel ''r1'' 4) demo_system = Some (r, s') \<and>
     sys_hub s' = sys_hub demo_system"
  using refused_command [OF demo_refused] demo_refused by simp

text \<open>A command for an unknown radio, a power outside the radio's range and a channel index outside
  its profile are refused before the radio is contacted: the outside world, the radios and the event
  stream are untouched, the log alone records the attempt, and the code tells the two causes apart.\<close>

theorem refused_without_contact:
  assumes "doomed V (sys_radios s) c"
  shows "\<exists>r. execute V P c s = Some (r, s\<lparr>sys_audit := sys_audit s @ [command_audit c r]\<rparr>) \<and>
    (cr_code r = Code.NotFound \<or> cr_code r = Code.InvalidRange \<and> get_adapter (sys_radios s) (target c) \<noteq> None)"
proof -
  have log: "emit_audit act k p r s = s\<lparr>sys_audit := sys_audit s @ [audit_entry act k p r]\<rparr>" for act k p r
    by (simp add: emit_audit_def audit_entry_def audit_record_op_def)
  show ?thesis
    using assms
    by (cases c) (auto simp: selectRadio_def set_active_radio_def setPower_def setChannel_def Let_def log
        split: option.splits)
qed

theorem refused_without_contact_witness:
  "\<exists>r. execute (silvus_ops demo) demo (SetChannel ''r1'' 4) demo_system =
      Some (r, demo_system\<lparr>sys_audit := sys_audit demo_system @ [command_audit (SetChannel ''r1'' 4) r]\<rparr>)"
proof -
  have "doomed (silvus_ops demo) (sys_radios demo_system) (SetChannel ''r1'' 4)" by (simp add: silvus_ops_def)
  from refused_without_contact [OF this] show ?thesis by blast
qed

text \<open>The events of a command, in order: an accepted setPower publishes powerChanged and then state,
  an accepted setChannel channelChanged and then state, everything else nothing.\<close>

theorem command_event_order:
  assumes "execute V P c s = Some (r, s')"
  shows "map fst (published (sys_hub s')) = map fst (published (sys_hub s)) @ command_events c r"
  using execute_events [OF assms] .

theorem command_event_order_witness:
  "\<exists>r s'. execute (silvus_ops demo) demo (SetChannel ''r1'' 2) demo_system = Some (r, s') \<and>
     map fst (published (sys_hub s')) = [''channelChanged'', ''state'']"
proof -
  obtain s' where s': "execute (silvus_ops demo) demo (SetChannel ''r1'' 2) demo_system =
      Some (command_result Code.Ok ''OK'' None, s')" using demo_setChannel by auto
  from command_event_order [OF s'] s' show ?thesis by (simp add: demo_system_def initial_hub_def)
qed

end
